theory Spec2Isabelle
  imports Complex_Main "HOL-Library.Sublist"
begin

section \<open>Python values and the random module\<close>

text \<open>
  The generator of \<^verbatim>\<open>generate_pakistan_sales_data.py\<close> draws everything from Python's
  global \<^verbatim>\<open>random\<close> module. The model threads the random source explicitly: a tape of
  raw draws, consumed one per call of the module. Each raw draw is reduced to the unit
  interval by \<open>frac\<close>. A tape \<open>(g, d)\<close> is the finite list \<open>g\<close> of its first draws and the
  draw \<open>d\<close> it keeps answering once the list has run out, so it stands for the infinite
  tape that ends in a constant. Theorems quantify over every tape, that is over every
  outcome of the random calls.

  Python floats are modelled as exact reals: the binary rounding error of float
  arithmetic is not part of the model.
\<close>

datatype py_error = IndexError | ValueError | KeyError

type_synonym rng = "real list \<times> real"

type_synonym 'a gen = "rng \<Rightarrow> py_error + ('a \<times> rng)"

definition return_gen :: "'a \<Rightarrow> 'a gen" where
  "return_gen x g = Inr (x, g)"

definition raise_gen :: "py_error \<Rightarrow> 'a gen" where
  "raise_gen e g = Inl e"

definition bind_gen :: "'a gen \<Rightarrow> ('a \<Rightarrow> 'b gen) \<Rightarrow> 'b gen" where
  "bind_gen m f g = (case m g of Inl e \<Rightarrow> Inl e | Inr (x, g') \<Rightarrow> f x g')"

text \<open>\<^verbatim>\<open>random.random()\<close>: the next draw, in \<open>[0, 1)\<close>.\<close>

definition random_random :: "real gen" where
  "random_random g =
     (case g of ([], d) \<Rightarrow> Inr (frac d, ([], d)) | (u # g', d) \<Rightarrow> Inr (frac u, (g', d)))"

text \<open>The module's internal \<^verbatim>\<open>_randbelow(n)\<close>: an index below \<open>n\<close>.\<close>

definition randbelow :: "nat \<Rightarrow> nat gen" where
  "randbelow n = bind_gen random_random (\<lambda>u. return_gen (nat \<lfloor>u * of_nat n\<rfloor>))"

text \<open>\<^verbatim>\<open>random.randint(a, b)\<close>; an empty range raises ValueError.\<close>

definition randint :: "int \<Rightarrow> int \<Rightarrow> int gen" where
  "randint a b =
     (if b < a then raise_gen ValueError
      else bind_gen (randbelow (nat (b - a + 1))) (\<lambda>k. return_gen (a + int k)))"

text \<open>\<^verbatim>\<open>random.uniform(a, b)\<close> is \<^verbatim>\<open>a + (b - a) * random()\<close>.\<close>

definition uniform :: "real \<Rightarrow> real \<Rightarrow> real gen" where
  "uniform a b = bind_gen random_random (\<lambda>u. return_gen (a + (b - a) * u))"

text \<open>\<^verbatim>\<open>random.choice(seq)\<close>; an empty sequence raises IndexError.\<close>

definition choice :: "'a list \<Rightarrow> 'a gen" where
  "choice seq =
     (if length seq = 0 then raise_gen IndexError
      else bind_gen (randbelow (length seq)) (\<lambda>k. return_gen (seq ! k)))"

text \<open>
  \<^verbatim>\<open>random.choices(population, weights=weights)[0]\<close>: the cumulative weights are
  bisected at \<^verbatim>\<open>random() * total\<close>, the index capped at the last position.
\<close>

fun accumulate :: "real \<Rightarrow> real list \<Rightarrow> real list" where
  "accumulate acc [] = []"
| "accumulate acc (w # ws) = (acc + w) # accumulate (acc + w) ws"

definition bisect :: "real list \<Rightarrow> real \<Rightarrow> nat" where
  "bisect cum x = length (takeWhile (\<lambda>c. c \<le> x) cum)"

definition choices :: "'a list \<Rightarrow> real list \<Rightarrow> 'a gen" where
  "choices population weights =
     (let cum_weights = accumulate 0 weights in
      if length cum_weights \<noteq> length population \<or> length population = 0
      then raise_gen ValueError
      else bind_gen random_random (\<lambda>u.
        return_gen (population ! bisect (butlast cum_weights) (u * last cum_weights))))"

text \<open>
  \<^verbatim>\<open>random.sample(population, k)\<close>: \<open>k\<close> elements at distinct positions, each drawn
  from what is left of the pool; more than the population holds raises ValueError.
\<close>

definition remove_nth :: "nat \<Rightarrow> 'a list \<Rightarrow> 'a list" where
  "remove_nth j xs = take j xs @ drop (Suc j) xs"

primrec sample_pool :: "nat \<Rightarrow> 'a list \<Rightarrow> 'a list gen" where
  "sample_pool 0 pool = return_gen []"
| "sample_pool (Suc k) pool =
     bind_gen (randbelow (length pool)) (\<lambda>j.
     bind_gen (sample_pool k (remove_nth j pool)) (\<lambda>rest.
     return_gen (pool ! j # rest)))"

definition sample :: "'a list \<Rightarrow> int \<Rightarrow> 'a list gen" where
  "sample population k =
     (if k < 0 \<or> int (length population) < k then raise_gen ValueError
      else sample_pool (nat k) population)"

text \<open>
  A \<^verbatim>\<open>for\<close> loop that appends one row per index: the rows in order, the first
  failure ending the loop.
\<close>

primrec for_each :: "('i \<Rightarrow> 'a gen) \<Rightarrow> 'i list \<Rightarrow> 'a list gen" where
  "for_each body [] = return_gen []"
| "for_each body (i # rest) =
     bind_gen (body i) (\<lambda>x.
     bind_gen (for_each body rest) (\<lambda>xs.
     return_gen (x # xs)))"

text \<open>\<^verbatim>\<open>round(x, 2)\<close> on a float: to the nearest hundredth, ties to the even one.\<close>

definition round2 :: "real \<Rightarrow> real" where
  "round2 x =
     (let y = x * 100; f = \<lfloor>y\<rfloor>; r = y - of_int f
      in of_int (if r < 1 / 2 then f
                 else if 1 / 2 < r then f + 1
                 else if even f then f else f + 1) / 100)"

subsection \<open>Strings\<close>

definition lower :: "string \<Rightarrow> string" where
  "lower s =
     map (\<lambda>c. if (65::nat) \<le> of_char c \<and> of_char c \<le> (90::nat)
               then char_of (of_char c + (32::nat)) else c) s"

definition digit_char :: "nat \<Rightarrow> char" where
  "digit_char d = char_of (48 + d)"

fun str_nat :: "nat \<Rightarrow> string" where
  "str_nat n = (if n < 10 then [digit_char n] else str_nat (n div 10) @ [digit_char (n mod 10)])"

declare str_nat.simps [simp del]

definition str :: "int \<Rightarrow> string" where
  "str i = (if i < 0 then CHR ''-'' # str_nat (nat (- i)) else str_nat (nat i))"

text \<open>The format \<^verbatim>\<open>{i:03d}\<close>, for the non-negative numbers it is used on.\<close>

definition str_03d :: "int \<Rightarrow> string" where
  "str_03d i = (let s = str i in replicate (3 - length s) CHR ''0'' @ s)"

definition remove_spaces :: "string \<Rightarrow> string" where
  "remove_spaces s = filter (\<lambda>c. c \<noteq> CHR '' '') s"

subsection \<open>Dates\<close>

text \<open>
  \<^verbatim>\<open>datetime.now().date()\<close> is a parameter \<open>today\<close>, a day number; the dates obtained
  from it by adding or subtracting days are day numbers too. The date of birth is built from
  a year, a month and a day and keeps the three; the constructor raises ValueError on a date
  that does not exist.
\<close>

datatype date = Date (year: int) (month: int) (day: int)

definition is_leap :: "int \<Rightarrow> bool" where
  "is_leap y = (y mod 4 = 0 \<and> (y mod 100 \<noteq> 0 \<or> y mod 400 = 0))"

definition days_in_month :: "int \<Rightarrow> int \<Rightarrow> int" where
  "days_in_month y m =
     (if m = 2 then (if is_leap y then 29 else 28)
      else if m = 4 \<or> m = 6 \<or> m = 9 \<or> m = 11 then 30 else 31)"

definition datetime_date :: "int \<Rightarrow> int \<Rightarrow> int \<Rightarrow> date gen" where
  "datetime_date y m d =
     (if 1 \<le> y \<and> y \<le> 9999 \<and> 1 \<le> m \<and> m \<le> 12 \<and> 1 \<le> d \<and> d \<le> days_in_month y m
      then return_gen (Date y m d) else raise_gen ValueError)"

section \<open>The generator's tables\<close>

definition first_names :: "string list" where
  "first_names =
     [''Ahmed'', ''Ali'', ''Hassan'', ''Hussein'', ''Muhammad'', ''Usman'', ''Umar'', ''Bilal'',
      ''Hamza'', ''Zain'', ''Fatima'', ''Aisha'', ''Maryam'', ''Zara'', ''Hania'', ''Sana'',
      ''Ayesha'', ''Noor'', ''Mariam'', ''Zoya'', ''Abdullah'', ''Ibrahim'', ''Yusuf'', ''Haris'',
      ''Rayyan'', ''Arham'', ''Zayan'', ''Ayan'', ''Amaan'', ''Shahzad'', ''Amina'', ''Khadija'',
      ''Sumaya'', ''Hafsa'', ''Jannat'', ''Mahnoor'', ''Alina'', ''Sadia'', ''Nida'', ''Rabia'']"

definition last_names :: "string list" where
  "last_names =
     [''Khan'', ''Ali'', ''Hussain'', ''Ahmed'', ''Malik'', ''Raza'', ''Hassan'', ''Abbas'',
      ''Rizvi'', ''Zaidi'', ''Shah'', ''Qureshi'', ''Hashmi'', ''Jafri'', ''Naqvi'', ''Rizwan'',
      ''Siddiqui'', ''Farooq'', ''Khalid'', ''Saleem'', ''Rehman'', ''Iqbal'', ''Akhtar'',
      ''Nadeem'', ''Rashid'', ''Tariq'', ''Waseem'', ''Naeem'', ''Saeed'', ''Zahid'']"

definition customer_segments :: "string list" where
  "customer_segments = [''Premium'', ''Regular'', ''Occasional'', ''VIP'']"

definition education_levels :: "string list" where
  "education_levels =
     [''Primary'', ''Secondary'', ''Higher Secondary'', ''Bachelor'', ''Master'', ''PhD'', ''Other'']"

definition marital_statuses :: "string list" where
  "marital_statuses = [''Single'', ''Married'', ''Divorced'', ''Widowed'']"

definition genders :: "string list" where
  "genders = [''M'', ''F'', ''Other'']"

section \<open>Customers\<close>

record customer =
  cust_CUSTOMER_ID :: int
  cust_FIRST_NAME :: string
  cust_LAST_NAME :: string
  cust_EMAIL :: string
  cust_PHONE :: string
  cust_DATE_OF_BIRTH :: date
  cust_GENDER :: string
  cust_MARITAL_STATUS :: string
  cust_EDUCATION_LEVEL :: string
  cust_ANNUAL_INCOME :: int
  cust_CUSTOMER_SEGMENT :: string
  cust_REGISTRATION_DATE :: int
  cust_IS_ACTIVE :: bool

definition annual_income_of :: "string \<Rightarrow> int gen" where
  "annual_income_of segment =
     (if segment = ''Premium'' then randint 1500000 5000000
      else if segment = ''VIP'' then randint 5000000 15000000
      else if segment = ''Regular'' then randint 500000 1500000
      else randint 200000 800000)"

text \<open>One pass of the loop of \<^verbatim>\<open>generate_customers\<close>, the draws in the source's order.\<close>

definition customer_row :: "int \<Rightarrow> int \<Rightarrow> customer gen" where
  "customer_row today i =
     bind_gen (choice first_names) (\<lambda>first_name.
     bind_gen (choice last_names) (\<lambda>last_name.
     bind_gen (choice [''gmail.com'', ''yahoo.com'', ''hotmail.com'', ''outlook.com'']) (\<lambda>domain.
     bind_gen (randint 300 349) (\<lambda>phone1.
     bind_gen (randint 1000000 9999999) (\<lambda>phone2.
     bind_gen (randint 1944 2006) (\<lambda>birth_year.
     bind_gen (randint 1 12) (\<lambda>birth_month.
     bind_gen (randint 1 28) (\<lambda>birth_day.
     bind_gen (datetime_date birth_year birth_month birth_day) (\<lambda>date_of_birth.
     bind_gen (randint 0 1825) (\<lambda>registration_days.
     bind_gen (choices customer_segments [1 / 10, 6 / 10, 25 / 100, 5 / 100]) (\<lambda>segment.
     bind_gen (annual_income_of segment) (\<lambda>annual_income.
     bind_gen (choice genders) (\<lambda>gender.
     bind_gen (choice marital_statuses) (\<lambda>marital_status.
     bind_gen (choice education_levels) (\<lambda>education_level.
     bind_gen (choice [True, True, True, False]) (\<lambda>is_active.
     return_gen
       \<lparr> cust_CUSTOMER_ID = i,
         cust_FIRST_NAME = first_name,
         cust_LAST_NAME = last_name,
         cust_EMAIL = lower first_name @ ''.'' @ lower last_name @ ''@'' @ domain,
         cust_PHONE = ''+92-'' @ str phone1 @ ''-'' @ str phone2,
         cust_DATE_OF_BIRTH = date_of_birth,
         cust_GENDER = gender,
         cust_MARITAL_STATUS = marital_status,
         cust_EDUCATION_LEVEL = education_level,
         cust_ANNUAL_INCOME = annual_income,
         cust_CUSTOMER_SEGMENT = segment,
         cust_REGISTRATION_DATE = today - registration_days,
         cust_IS_ACTIVE = is_active \<rparr>))))))))))))))))"

definition generate_customers :: "int \<Rightarrow> int \<Rightarrow> customer list gen" where
  "generate_customers today num_customers = for_each (customer_row today) [1..num_customers]"

section \<open>Customer addresses\<close>

definition provinces :: "(string \<times> string list) list" where
  "provinces =
     [(''Punjab'', [''Lahore'', ''Faisalabad'', ''Rawalpindi'', ''Multan'', ''Gujranwala'',
                   ''Sialkot'', ''Bahawalpur'', ''Sargodha'']),
      (''Sindh'', [''Karachi'', ''Hyderabad'', ''Sukkur'', ''Larkana'', ''Nawabshah'',
                  ''Mirpur Khas'', ''Jacobabad'']),
      (''Khyber Pakhtunkhwa'', [''Peshawar'', ''Mardan'', ''Abbottabad'', ''Swat'', ''Nowshera'',
                               ''Charsadda'', ''Mansehra'']),
      (''Balochistan'', [''Quetta'', ''Turbat'', ''Khuzdar'', ''Chaman'', ''Zhob'', ''Gwadar'']),
      (''Gilgit-Baltistan'', [''Gilgit'', ''Skardu'', ''Chilas'', ''Astore'']),
      (''Azad Kashmir'', [''Muzaffarabad'', ''Mirpur'', ''Kotli'', ''Rawalakot''])]"

text \<open>A dictionary read \<^verbatim>\<open>d[k]\<close>; a missing key raises KeyError.\<close>

definition getitem :: "('k \<times> 'v) list \<Rightarrow> 'k \<Rightarrow> 'v gen" where
  "getitem d k = (case map_of d k of None \<Rightarrow> raise_gen KeyError | Some v \<Rightarrow> return_gen v)"

record address =
  addr_ADDRESS_ID :: int
  addr_CUSTOMER_ID :: int
  addr_ADDRESS_TYPE :: string
  addr_STREET_ADDRESS :: string
  addr_CITY :: string
  addr_PROVINCE :: string
  addr_POSTAL_CODE :: string
  addr_COUNTRY :: string
  addr_IS_DEFAULT :: bool

definition street_names :: "string list" where
  "street_names =
     [''Main Boulevard'', ''Park Road'', ''Mall Road'', ''College Road'', ''University Road'',
      ''Industrial Area'', ''Defence Housing'', ''Gulberg'', ''Model Town'', ''Johar Town'',
      ''Bahria Town'', ''DHA'', ''Clifton'', ''Saddar'', ''Cantt'']"

text \<open>The body of the inner loop of \<^verbatim>\<open>generate_customer_addresses\<close>.\<close>

definition address_row :: "customer \<Rightarrow> int \<Rightarrow> int \<Rightarrow> address gen" where
  "address_row customer address_id i =
     bind_gen (choice (map fst provinces)) (\<lambda>province.
     bind_gen (getitem provinces province) (\<lambda>cities.
     bind_gen (choice cities) (\<lambda>city.
     bind_gen (randint 1 999) (\<lambda>number.
     bind_gen (choice [''A'', ''B'', ''C'', ''D'', ''E'']) (\<lambda>block.
     bind_gen (randint 1 999) (\<lambda>house.
     bind_gen (choice [str number, ''Block '' @ block, ''House '' @ str house]) (\<lambda>street_number.
     bind_gen (choice street_names) (\<lambda>street_name.
     bind_gen (randint 10000 99999) (\<lambda>postal_code.
     return_gen
       \<lparr> addr_ADDRESS_ID = address_id,
         addr_CUSTOMER_ID = cust_CUSTOMER_ID customer,
         addr_ADDRESS_TYPE = (if i = 0 then ''Primary'' else ''Secondary''),
         addr_STREET_ADDRESS = street_number @ '' '' @ street_name,
         addr_CITY = city,
         addr_PROVINCE = province,
         addr_POSTAL_CODE = str postal_code,
         addr_COUNTRY = ''Pakistan'',
         addr_IS_DEFAULT = (i = 0) \<rparr>)))))))))"

text \<open>
  The inner loop \<^verbatim>\<open>for i in range(num_addresses)\<close>: \<open>address_id\<close> is the running
  counter, returned with the rows.
\<close>

primrec address_rows :: "customer \<Rightarrow> int list \<Rightarrow> int \<Rightarrow> (address list \<times> int) gen" where
  "address_rows customer [] address_id = return_gen ([], address_id)"
| "address_rows customer (i # rest) address_id =
     bind_gen (address_row customer address_id i) (\<lambda>row.
     bind_gen (address_rows customer rest (address_id + 1)) (\<lambda>(rows, address_id').
     return_gen (row # rows, address_id')))"

primrec addresses_loop :: "customer list \<Rightarrow> int \<Rightarrow> address list gen" where
  "addresses_loop [] address_id = return_gen []"
| "addresses_loop (customer # rest) address_id =
     bind_gen (choices [1, 2] [8 / 10, 2 / 10]) (\<lambda>num_addresses.
     bind_gen (address_rows customer [0..num_addresses - 1] address_id) (\<lambda>(rows, address_id').
     bind_gen (addresses_loop rest address_id') (\<lambda>more.
     return_gen (rows @ more))))"

definition generate_customer_addresses :: "customer list \<Rightarrow> address list gen" where
  "generate_customer_addresses customers = addresses_loop customers 1"

section \<open>Categories and products\<close>

definition product_categories :: "(int \<times> string \<times> string list) list" where
  "product_categories =
     [(1, ''Electronics'',
         [''Samsung'', ''Huawei'', ''Oppo'', ''Vivo'', ''Infinix'', ''Tecno'', ''QMobile'']),
      (2, ''Textiles'',
         [''Gul Ahmed'', ''Khaadi'', ''Alkaram'', ''Chen One'', ''Bonanza'', ''Sapphire'']),
      (3, ''Food & Beverages'',
         [''Nestle'', ''Unilever'', ''Engro'', ''Shan Foods'', ''National Foods'', ''Mitchells'']),
      (4, ''Automotive'',
         [''Suzuki'', ''Toyota'', ''Honda'', ''Daihatsu'', ''Nissan'', ''Mitsubishi'']),
      (5, ''Home & Garden'',
         [''IKEA'', ''Habitt'', ''Interwood'', ''Chenab'', ''Furniture Mall'']),
      (6, ''Beauty & Personal Care'',
         [''L'' @ [CHR 0x27] @ ''Oreal'', ''Garnier'', ''Fair & Lovely'', ''Clean & Clear'',
          ''Ponds'']),
      (7, ''Sports & Fitness'', [''Nike'', ''Adidas'', ''Puma'', ''Reebok'', ''Under Armour'']),
      (8, ''Books & Stationery'', [''Oxford'', ''Pelikan'', ''Dollar'', ''Pilot'', ''Staedtler''])]"

record category =
  cat_CATEGORY_ID :: int
  cat_CATEGORY_NAME :: string
  cat_DESCRIPTION :: string
  cat_PARENT_CATEGORY_ID :: "int option"
  cat_IS_ACTIVE :: bool

definition generate_product_categories :: "category list" where
  "generate_product_categories =
     map (\<lambda>(cat_id, name, brands).
            \<lparr> cat_CATEGORY_ID = cat_id,
              cat_CATEGORY_NAME = name,
              cat_DESCRIPTION = ''Products in '' @ name @ '' category'',
              cat_PARENT_CATEGORY_ID = None,
              cat_IS_ACTIVE = True \<rparr>) product_categories"

text \<open>
  The prices of a product are numbers: \<^verbatim>\<open>UNIT_PRICE\<close> is the integer base price
  (\<^verbatim>\<open>round\<close> leaves an integer as it is), the others are floats.
\<close>

record product =
  prod_PRODUCT_ID :: int
  prod_PRODUCT_NAME :: string
  prod_CATEGORY_ID :: int
  prod_BRAND :: string
  prod_MODEL :: string
  prod_DESCRIPTION :: string
  prod_UNIT_COST :: real
  prod_UNIT_PRICE :: real
  prod_MSRP :: real
  prod_WEIGHT_KG :: real
  prod_DIMENSIONS_CM :: string
  prod_IS_ACTIVE :: bool

definition product_name_of :: "int \<Rightarrow> string \<Rightarrow> int \<Rightarrow> string gen" where
  "product_name_of category_id brand i =
     (if category_id = 1 then
        bind_gen (choice [''Smartphone'', ''Laptop'', ''Tablet'', ''TV'', ''Headphones'', ''Camera'',
                          ''Speaker'', ''Charger'']) (\<lambda>name.
        bind_gen (randint 1 20) (\<lambda>n.
        return_gen (brand @ '' '' @ name @ '' '' @ str n)))
      else if category_id = 2 then
        bind_gen (choice [''Shirt'', ''Pants'', ''Dress'', ''Suit'', ''Kurta'', ''Shalwar'',
                          ''Dupatta'', ''Scarf'']) (\<lambda>name.
        return_gen (brand @ '' '' @ name))
      else if category_id = 3 then
        bind_gen (choice [''Rice'', ''Oil'', ''Tea'', ''Biscuits'', ''Chocolate'', ''Juice'', ''Milk'',
                          ''Bread'']) (\<lambda>name.
        return_gen (brand @ '' '' @ name))
      else return_gen (brand @ '' Product '' @ str i))"

definition product_row :: "int \<Rightarrow> product gen" where
  "product_row i =
     bind_gen (choice (map fst product_categories)) (\<lambda>category_id.
     bind_gen (getitem product_categories category_id) (\<lambda>category_info.
     bind_gen (choice (snd category_info)) (\<lambda>brand.
     bind_gen (product_name_of category_id brand i) (\<lambda>product_name.
     bind_gen (randint 500 50000) (\<lambda>base_price.
     bind_gen (uniform (6 / 10) (8 / 10)) (\<lambda>cost_factor.
     bind_gen (uniform (11 / 10) (13 / 10)) (\<lambda>msrp_factor.
     bind_gen (if category_id \<notin> set [3, 7, 8] then uniform (1 / 10) 10
               else uniform (1 / 100) 2) (\<lambda>weight_kg.
     bind_gen (randint 10 100) (\<lambda>dim1.
     bind_gen (randint 10 100) (\<lambda>dim2.
     bind_gen (randint 1 50) (\<lambda>dim3.
     bind_gen (randint 1000 9999) (\<lambda>model.
     bind_gen (choice [True, True, True, False]) (\<lambda>is_active.
     let unit_cost = of_int base_price * cost_factor;
         unit_price = base_price;
         msrp = of_int base_price * msrp_factor
     in return_gen
       \<lparr> prod_PRODUCT_ID = i,
         prod_PRODUCT_NAME = product_name,
         prod_CATEGORY_ID = category_id,
         prod_BRAND = brand,
         prod_MODEL = ''Model-'' @ str model,
         prod_DESCRIPTION = ''High quality '' @ lower product_name @ '' from '' @ brand,
         prod_UNIT_COST = round2 unit_cost,
         prod_UNIT_PRICE = of_int unit_price,
         prod_MSRP = round2 msrp,
         prod_WEIGHT_KG = round2 weight_kg,
         prod_DIMENSIONS_CM = str dim1 @ ''x'' @ str dim2 @ ''x'' @ str dim3 @ '' cm'',
         prod_IS_ACTIVE = is_active \<rparr>)))))))))))))"

definition generate_products :: "int \<Rightarrow> product list gen" where
  "generate_products num_products = for_each product_row [1..num_products]"

section \<open>Stores\<close>

definition store_types :: "string list" where
  "store_types =
     [''Retail'', ''Supermarket'', ''Department Store'', ''Specialty Store'', ''Outlet'', ''Mall'']"

record store =
  store_STORE_ID :: int
  store_STORE_NAME :: string
  store_STORE_CODE :: string
  store_ADDRESS :: string
  store_CITY :: string
  store_PROVINCE :: string
  store_POSTAL_CODE :: string
  store_PHONE :: string
  store_EMAIL :: string
  store_MANAGER_ID :: "int option"
  store_STORE_TYPE :: string
  store_IS_ACTIVE :: bool
  store_OPENING_DATE :: int

definition store_row :: "int \<Rightarrow> int \<Rightarrow> store gen" where
  "store_row today i =
     bind_gen (choice (map fst provinces)) (\<lambda>province.
     bind_gen (getitem provinces province) (\<lambda>cities.
     bind_gen (choice cities) (\<lambda>city.
     bind_gen (choice [''Mega'', ''Super'', ''Prime'', ''Elite'', ''Premium'', ''Express'']) (\<lambda>name1.
     bind_gen (choice [''Store'', ''Mart'', ''Center'', ''Plaza'', ''Mall'']) (\<lambda>name2.
     bind_gen (randint 1 999) (\<lambda>number.
     bind_gen (choice [''Main Road'', ''Commercial Area'', ''Market Street'',
                       ''Shopping District'']) (\<lambda>street.
     bind_gen (randint 300 349) (\<lambda>phone1.
     bind_gen (randint 1000000 9999999) (\<lambda>phone2.
     bind_gen (randint 0 3650) (\<lambda>opening_days.
     bind_gen (randint 10000 99999) (\<lambda>postal_code.
     bind_gen (choice store_types) (\<lambda>store_type.
     bind_gen (choice [True, True, True, False]) (\<lambda>is_active.
     let store_name = name1 @ '' '' @ name2 @ '' '' @ str i
     in return_gen
       \<lparr> store_STORE_ID = i,
         store_STORE_NAME = store_name,
         store_STORE_CODE = ''ST'' @ str_03d i,
         store_ADDRESS = str number @ '' '' @ street,
         store_CITY = city,
         store_PROVINCE = province,
         store_POSTAL_CODE = str postal_code,
         store_PHONE = ''+92-'' @ str phone1 @ ''-'' @ str phone2,
         store_EMAIL = ''info@'' @ remove_spaces (lower store_name) @ ''.com'',
         store_MANAGER_ID = None,
         store_STORE_TYPE = store_type,
         store_IS_ACTIVE = is_active,
         store_OPENING_DATE = today - opening_days \<rparr>)))))))))))))"

definition generate_stores :: "int \<Rightarrow> int \<Rightarrow> store list gen" where
  "generate_stores today num_stores = for_each (store_row today) [1..num_stores]"

section \<open>Employees\<close>

record employee =
  emp_EMPLOYEE_ID :: int
  emp_FIRST_NAME :: string
  emp_LAST_NAME :: string
  emp_EMAIL :: string
  emp_PHONE :: string
  emp_HIRE_DATE :: int
  emp_JOB_TITLE :: string
  emp_DEPARTMENT :: string
  emp_STORE_ID :: int
  emp_MANAGER_ID :: "int option"
  emp_SALARY :: int
  emp_IS_ACTIVE :: bool

definition job_titles :: "string list" where
  "job_titles =
     [''Sales Associate'', ''Cashier'', ''Manager'', ''Supervisor'', ''Customer Service'',
      ''Stock Clerk'']"

definition departments :: "string list" where
  "departments = [''Sales'', ''Customer Service'', ''Operations'', ''Management'', ''Inventory'']"

text \<open>The test \<^verbatim>\<open>'Manager' in e['JOB_TITLE']\<close>: a substring test.\<close>

definition is_manager :: "employee \<Rightarrow> bool" where
  "is_manager e = sublist ''Manager'' (emp_JOB_TITLE e)"

definition salary_of :: "string \<Rightarrow> int gen" where
  "salary_of job_title =
     (if sublist ''Manager'' job_title then randint 80000 150000
      else if sublist ''Supervisor'' job_title then randint 60000 100000
      else randint 30000 60000)"

definition employee_row :: "int \<Rightarrow> store list \<Rightarrow> int \<Rightarrow> employee gen" where
  "employee_row today stores i =
     bind_gen (choice first_names) (\<lambda>first_name.
     bind_gen (choice last_names) (\<lambda>last_name.
     bind_gen (randint 300 349) (\<lambda>phone1.
     bind_gen (randint 1000000 9999999) (\<lambda>phone2.
     bind_gen (randint 0 1825) (\<lambda>hire_days.
     bind_gen (choice job_titles) (\<lambda>job_title.
     bind_gen (choice departments) (\<lambda>department.
     bind_gen (choice stores) (\<lambda>store.
     bind_gen (salary_of job_title) (\<lambda>salary.
     bind_gen (choice [True, True, True, False]) (\<lambda>is_active.
     return_gen
       \<lparr> emp_EMPLOYEE_ID = i,
         emp_FIRST_NAME = first_name,
         emp_LAST_NAME = last_name,
         emp_EMAIL = lower first_name @ ''.'' @ lower last_name @ ''@company.com'',
         emp_PHONE = ''+92-'' @ str phone1 @ ''-'' @ str phone2,
         emp_HIRE_DATE = today - hire_days,
         emp_JOB_TITLE = job_title,
         emp_DEPARTMENT = department,
         emp_STORE_ID = store_STORE_ID store,
         emp_MANAGER_ID = None,
         emp_SALARY = salary,
         emp_IS_ACTIVE = is_active \<rparr>))))))))))"

text \<open>
  The first back-fill pass runs over \<^verbatim>\<open>non_managers\<close>, whose elements are the very
  dictionaries of \<^verbatim>\<open>employees\<close>: the model walks \<open>employees\<close> in order and passes
  over the managers without a draw, which updates the same rows in the same order.
\<close>

definition assign_manager :: "employee list \<Rightarrow> employee \<Rightarrow> employee gen" where
  "assign_manager managers emp =
     (if is_manager emp then return_gen emp
      else bind_gen random_random (\<lambda>u.
        if u < 3 / 10
        then bind_gen (choice managers) (\<lambda>m.
               return_gen (emp\<lparr>emp_MANAGER_ID := Some (emp_EMPLOYEE_ID m)\<rparr>))
        else return_gen emp))"

text \<open>The second pass writes \<^verbatim>\<open>MANAGER_ID\<close> into the caller's store dictionaries.\<close>

definition assign_store_manager :: "employee list \<Rightarrow> store \<Rightarrow> store gen" where
  "assign_store_manager employees store =
     (let store_employees =
            filter (\<lambda>e. emp_STORE_ID e = store_STORE_ID store \<and> is_manager e) employees
      in if store_employees \<noteq> []
         then bind_gen (choice store_employees) (\<lambda>m.
                return_gen (store\<lparr>store_MANAGER_ID := Some (emp_EMPLOYEE_ID m)\<rparr>))
         else return_gen store)"

text \<open>
  \<^verbatim>\<open>generate_employees\<close> returns the employees; the stores it has updated in place are
  returned with them.
\<close>

definition generate_employees ::
  "int \<Rightarrow> store list \<Rightarrow> int \<Rightarrow> (employee list \<times> store list) gen" where
  "generate_employees today stores num_employees =
     bind_gen (for_each (employee_row today stores) [1..num_employees]) (\<lambda>employees.
     bind_gen (for_each (assign_manager (filter is_manager employees)) employees) (\<lambda>employees'.
     bind_gen (for_each (assign_store_manager employees') stores) (\<lambda>stores'.
     return_gen (employees', stores'))))"

section \<open>Orders and order lines\<close>

definition payment_methods :: "string list" where
  "payment_methods =
     [''Cash'', ''Credit Card'', ''Debit Card'', ''Mobile Banking'', ''Bank Transfer'',
      ''EasyPaisa'', ''JazzCash'']"

definition shipping_methods :: "string list" where
  "shipping_methods = [''Standard'', ''Express'', ''Same Day'', ''Pickup'', ''Courier'']"

record order_detail =
  line_ORDER_ID :: int
  line_PRODUCT_ID :: int
  line_QUANTITY_ORDERED :: int
  line_UNIT_PRICE :: real
  line_DISCOUNT_PERCENT :: real
  line_TOTAL_LINE_AMOUNT :: real

record order =
  ord_ORDER_ID :: int
  ord_CUSTOMER_ID :: int
  ord_STORE_ID :: int
  ord_EMPLOYEE_ID :: int
  ord_ORDER_DATE :: int
  ord_REQUIRED_DATE :: int
  ord_SHIP_DATE :: "int option"
  ord_ORDER_STATUS :: string
  ord_SHIP_METHOD :: string
  ord_SHIPPING_ADDRESS_ID :: "int option"
  ord_TOTAL_AMOUNT :: real
  ord_TAX_AMOUNT :: real
  ord_SHIPPING_COST :: int
  ord_DISCOUNT_AMOUNT :: real
  ord_FINAL_AMOUNT :: real
  ord_PAYMENT_METHOD :: string
  ord_PAYMENT_STATUS :: string
  ord_NOTES :: string

text \<open>
  The quantities of one order line before rounding: the discount fraction drawn, the amount
  it takes off and the amount of the line.
\<close>

definition line_discount :: "real \<Rightarrow> int \<Rightarrow> real \<Rightarrow> real" where
  "line_discount unit_price quantity discount_percent =
     unit_price * of_int quantity * discount_percent"

definition line_amount :: "real \<Rightarrow> int \<Rightarrow> real \<Rightarrow> real" where
  "line_amount unit_price quantity discount_percent =
     unit_price * of_int quantity * (1 - discount_percent)"

text \<open>
  The loop over \<^verbatim>\<open>order_products\<close>: \<open>total_amount\<close> and \<open>discount_amount\<close> are the
  running sums, returned with the lines.
\<close>

primrec order_lines ::
  "product list \<Rightarrow> int \<Rightarrow> real \<Rightarrow> real \<Rightarrow> (order_detail list \<times> real \<times> real) gen" where
  "order_lines [] i total_amount discount_amount =
     return_gen ([], total_amount, discount_amount)"
| "order_lines (product # rest) i total_amount discount_amount =
     bind_gen (randint 1 5) (\<lambda>quantity.
     bind_gen (uniform 0 (2 / 10)) (\<lambda>discount_percent.
     let unit_price = prod_UNIT_PRICE product;
         discount_amount' = discount_amount + line_discount unit_price quantity discount_percent;
         total_amount' = total_amount + line_amount unit_price quantity discount_percent
     in bind_gen (order_lines rest i total_amount' discount_amount')
          (\<lambda>(lines, total_amount'', discount_amount'').
     return_gen
       (\<lparr> line_ORDER_ID = i,
          line_PRODUCT_ID = prod_PRODUCT_ID product,
          line_QUANTITY_ORDERED = quantity,
          line_UNIT_PRICE = unit_price,
          line_DISCOUNT_PERCENT = round2 (discount_percent * 100),
          line_TOTAL_LINE_AMOUNT = round2 (line_amount unit_price quantity discount_percent) \<rparr>
        # lines, total_amount'', discount_amount''))))"

text \<open>
  \<^verbatim>\<open>ship_date\<close>: the test \<^verbatim>\<open>random.random() < 0.8\<close> is evaluated first, the offset
  drawn only when it holds.
\<close>

definition ship_date_of :: "int \<Rightarrow> int option gen" where
  "ship_date_of order_date =
     bind_gen random_random (\<lambda>u.
       if u < 8 / 10
       then bind_gen (randint 1 7) (\<lambda>d. return_gen (Some (order_date + d)))
       else return_gen None)"

definition order_status_of :: "int \<Rightarrow> int option \<Rightarrow> string gen" where
  "order_status_of today ship_date =
     (case ship_date of
        Some d \<Rightarrow> if d < today then choice [''Delivered'', ''Shipped''] else return_gen ''Shipped''
      | None \<Rightarrow> choice [''Pending'', ''Processing''])"

text \<open>One pass of the loop of \<^verbatim>\<open>generate_orders\<close>: the order and its lines.\<close>

definition order_row ::
  "int \<Rightarrow> customer list \<Rightarrow> store list \<Rightarrow> employee list \<Rightarrow> product list \<Rightarrow> int
     \<Rightarrow> (order \<times> order_detail list) gen" where
  "order_row today customers stores employees products i =
     bind_gen (choice customers) (\<lambda>customer.
     bind_gen (choice stores) (\<lambda>store.
     bind_gen (choice (filter (\<lambda>e. emp_STORE_ID e = store_STORE_ID store) employees)) (\<lambda>employee.
     bind_gen (randint 0 730) (\<lambda>order_days.
     bind_gen (randint 1 14) (\<lambda>required_days.
     bind_gen (ship_date_of (today - order_days)) (\<lambda>ship_date.
     bind_gen (order_status_of today ship_date) (\<lambda>order_status.
     bind_gen (randint 1 5) (\<lambda>num_products.
     bind_gen (sample products (min num_products (int (length products)))) (\<lambda>order_products.
     bind_gen (randint 0 500) (\<lambda>shipping_cost.
     bind_gen (order_lines order_products i 0 0) (\<lambda>(lines, total_amount, discount_amount).
     bind_gen (choice shipping_methods) (\<lambda>ship_method.
     bind_gen (choice payment_methods) (\<lambda>payment_method.
     let order_date = today - order_days;
         tax_amount = total_amount * (15 / 100);
         final_amount = total_amount + tax_amount + of_int shipping_cost - discount_amount
     in return_gen
       (\<lparr> ord_ORDER_ID = i,
          ord_CUSTOMER_ID = cust_CUSTOMER_ID customer,
          ord_STORE_ID = store_STORE_ID store,
          ord_EMPLOYEE_ID = emp_EMPLOYEE_ID employee,
          ord_ORDER_DATE = order_date,
          ord_REQUIRED_DATE = order_date + required_days,
          ord_SHIP_DATE = ship_date,
          ord_ORDER_STATUS = order_status,
          ord_SHIP_METHOD = ship_method,
          ord_SHIPPING_ADDRESS_ID = None,
          ord_TOTAL_AMOUNT = round2 total_amount,
          ord_TAX_AMOUNT = round2 tax_amount,
          ord_SHIPPING_COST = shipping_cost,
          ord_DISCOUNT_AMOUNT = round2 discount_amount,
          ord_FINAL_AMOUNT = round2 final_amount,
          ord_PAYMENT_METHOD = payment_method,
          ord_PAYMENT_STATUS =
            (if order_status \<in> set [''Delivered'', ''Shipped''] then ''Completed'' else ''Pending''),
          ord_NOTES = ''Order placed by '' @ cust_FIRST_NAME customer @ '' ''
                        @ cust_LAST_NAME customer \<rparr>,
        lines))))))))))))))"

definition generate_orders ::
  "int \<Rightarrow> customer list \<Rightarrow> store list \<Rightarrow> employee list \<Rightarrow> product list \<Rightarrow> int
     \<Rightarrow> (order list \<times> order_detail list) gen" where
  "generate_orders today customers stores employees products num_orders =
     bind_gen (for_each (order_row today customers stores employees products) [1..num_orders])
       (\<lambda>rows. return_gen (map fst rows, concat (map snd rows)))"

section \<open>The whole data set and the flattened view\<close>

record sales_row =
  sale_ORDER_ID :: int
  sale_CUSTOMER_ID :: int
  sale_PRODUCT_ID :: int
  sale_STORE_ID :: int
  sale_EMPLOYEE_ID :: int
  sale_ORDER_DATE :: int
  sale_SHIP_DATE :: "int option"
  sale_QUANTITY_ORDERED :: int
  sale_UNIT_PRICE :: real
  sale_DISCOUNT_PERCENT :: real
  sale_TOTAL_AMOUNT :: real
  sale_PAYMENT_METHOD :: string
  sale_ORDER_STATUS :: string
  sale_SHIP_METHOD :: string

text \<open>
  The body of the loop that builds \<^verbatim>\<open>sales_data\<close>: each \<^verbatim>\<open>next(..., None)\<close> is the
  first match of a linear scan, and a row is appended when all five lookups have found
  something.
\<close>

definition sales_rows_of ::
  "customer list \<Rightarrow> product list \<Rightarrow> store list \<Rightarrow> employee list \<Rightarrow> order_detail list
     \<Rightarrow> order \<Rightarrow> sales_row list" where
  "sales_rows_of customers products stores employees order_details order =
     (case find (\<lambda>od. line_ORDER_ID od = ord_ORDER_ID order) order_details of
        None \<Rightarrow> []
      | Some order_detail \<Rightarrow>
          let customer = find (\<lambda>c. cust_CUSTOMER_ID c = ord_CUSTOMER_ID order) customers;
              product = find (\<lambda>p. prod_PRODUCT_ID p = line_PRODUCT_ID order_detail) products;
              store = find (\<lambda>s. store_STORE_ID s = ord_STORE_ID order) stores;
              employee = find (\<lambda>e. emp_EMPLOYEE_ID e = ord_EMPLOYEE_ID order) employees
          in if customer \<noteq> None \<and> product \<noteq> None \<and> store \<noteq> None \<and> employee \<noteq> None
             then [\<lparr> sale_ORDER_ID = ord_ORDER_ID order,
                     sale_CUSTOMER_ID = ord_CUSTOMER_ID order,
                     sale_PRODUCT_ID = line_PRODUCT_ID order_detail,
                     sale_STORE_ID = ord_STORE_ID order,
                     sale_EMPLOYEE_ID = ord_EMPLOYEE_ID order,
                     sale_ORDER_DATE = ord_ORDER_DATE order,
                     sale_SHIP_DATE = ord_SHIP_DATE order,
                     sale_QUANTITY_ORDERED = line_QUANTITY_ORDERED order_detail,
                     sale_UNIT_PRICE = line_UNIT_PRICE order_detail,
                     sale_DISCOUNT_PERCENT = line_DISCOUNT_PERCENT order_detail,
                     sale_TOTAL_AMOUNT = line_TOTAL_LINE_AMOUNT order_detail,
                     sale_PAYMENT_METHOD = ord_PAYMENT_METHOD order,
                     sale_ORDER_STATUS = ord_ORDER_STATUS order,
                     sale_SHIP_METHOD = ord_SHIP_METHOD order \<rparr>]
             else [])"

definition sales_data_of ::
  "customer list \<Rightarrow> product list \<Rightarrow> store list \<Rightarrow> employee list \<Rightarrow> order list
     \<Rightarrow> order_detail list \<Rightarrow> sales_row list" where
  "sales_data_of customers products stores employees orders order_details =
     concat (map (sales_rows_of customers products stores employees order_details) orders)"

record dataset =
  data_customers :: "customer list"
  data_customer_addresses :: "address list"
  data_product_categories :: "category list"
  data_products :: "product list"
  data_stores :: "store list"
  data_employees :: "employee list"
  data_orders :: "order list"
  data_order_details :: "order_detail list"
  data_sales_data :: "sales_row list"

definition generate_all_data ::
  "int \<Rightarrow> int \<Rightarrow> int \<Rightarrow> int \<Rightarrow> int \<Rightarrow> int \<Rightarrow> dataset gen" where
  "generate_all_data today num_customers num_products num_stores num_employees num_orders =
     bind_gen (generate_customers today num_customers) (\<lambda>customers.
     bind_gen (generate_customer_addresses customers) (\<lambda>customer_addresses.
     bind_gen (generate_products num_products) (\<lambda>products.
     bind_gen (generate_stores today num_stores) (\<lambda>stores0.
     bind_gen (generate_employees today stores0 num_employees) (\<lambda>(employees, stores).
     bind_gen (generate_orders today customers stores employees products num_orders)
       (\<lambda>(orders, order_details).
     return_gen
       \<lparr> data_customers = customers,
         data_customer_addresses = customer_addresses,
         data_product_categories = generate_product_categories,
         data_products = products,
         data_stores = stores,
         data_employees = employees,
         data_orders = orders,
         data_order_details = order_details,
         data_sales_data =
           sales_data_of customers products stores employees orders order_details \<rparr>))))))"

section \<open>Sample rows\<close>

text \<open>Small concrete tables on which the generators are run below.\<close>

definition customer_1 :: customer where
  "customer_1 =
     \<lparr> cust_CUSTOMER_ID = 1, cust_FIRST_NAME = ''Ahmed'', cust_LAST_NAME = ''Khan'',
       cust_EMAIL = ''ahmed.khan@gmail.com'', cust_PHONE = ''+92-300-1000000'',
       cust_DATE_OF_BIRTH = Date 1990 5 17, cust_GENDER = ''M'',
       cust_MARITAL_STATUS = ''Single'', cust_EDUCATION_LEVEL = ''Bachelor'',
       cust_ANNUAL_INCOME = 900000, cust_CUSTOMER_SEGMENT = ''Regular'',
       cust_REGISTRATION_DATE = 738000, cust_IS_ACTIVE = True \<rparr>"

definition customer_2 :: customer where
  "customer_2 = customer_1\<lparr> cust_CUSTOMER_ID := 2, cust_FIRST_NAME := ''Fatima'' \<rparr>"

definition store_1 :: store where
  "store_1 =
     \<lparr> store_STORE_ID = 1, store_STORE_NAME = ''Mega Store 1'', store_STORE_CODE = ''ST001'',
       store_ADDRESS = ''1 Main Road'', store_CITY = ''Lahore'', store_PROVINCE = ''Punjab'',
       store_POSTAL_CODE = ''54000'', store_PHONE = ''+92-300-1000000'',
       store_EMAIL = ''info@megastore1.com'', store_MANAGER_ID = None,
       store_STORE_TYPE = ''Retail'', store_IS_ACTIVE = True, store_OPENING_DATE = 737000 \<rparr>"

definition store_2 :: store where
  "store_2 = store_1\<lparr> store_STORE_ID := 2, store_STORE_CODE := ''ST002'' \<rparr>"

definition employee_1 :: employee where
  "employee_1 =
     \<lparr> emp_EMPLOYEE_ID = 1, emp_FIRST_NAME = ''Ali'', emp_LAST_NAME = ''Raza'',
       emp_EMAIL = ''ali.raza@company.com'', emp_PHONE = ''+92-300-1000000'',
       emp_HIRE_DATE = 738100, emp_JOB_TITLE = ''Cashier'', emp_DEPARTMENT = ''Sales'',
       emp_STORE_ID = 1, emp_MANAGER_ID = None, emp_SALARY = 40000, emp_IS_ACTIVE = True \<rparr>"

definition product_1 :: product where
  "product_1 =
     \<lparr> prod_PRODUCT_ID = 1, prod_PRODUCT_NAME = ''Samsung TV 1'', prod_CATEGORY_ID = 1,
       prod_BRAND = ''Samsung'', prod_MODEL = ''Model-1000'',
       prod_DESCRIPTION = ''High quality samsung tv 1 from Samsung'',
       prod_UNIT_COST = 35000, prod_UNIT_PRICE = 50000, prod_MSRP = 60000,
       prod_WEIGHT_KG = 5, prod_DIMENSIONS_CM = ''10x10x1 cm'', prod_IS_ACTIVE = True \<rparr>"

text \<open>
  The order and its one line that \<open>generate_orders\<close> returns for \<open>customer_1\<close>,
  \<open>store_1\<close>, \<open>employee_1\<close> and \<open>product_1\<close> on the tape whose every draw is \<open>1 / 1024\<close>.
\<close>

definition sample_line :: order_detail where
  "sample_line =
     \<lparr> line_ORDER_ID = 1, line_PRODUCT_ID = 1, line_QUANTITY_ORDERED = 1,
       line_UNIT_PRICE = 50000, line_DISCOUNT_PERCENT = 2 / 100,
       line_TOTAL_LINE_AMOUNT = 4999023 / 100 \<rparr>"

definition sample_order :: order where
  "sample_order =
     \<lparr> ord_ORDER_ID = 1, ord_CUSTOMER_ID = 1, ord_STORE_ID = 1, ord_EMPLOYEE_ID = 1,
       ord_ORDER_DATE = 0, ord_REQUIRED_DATE = 1, ord_SHIP_DATE = Some 1,
       ord_ORDER_STATUS = ''Shipped'', ord_SHIP_METHOD = ''Standard'',
       ord_SHIPPING_ADDRESS_ID = None, ord_TOTAL_AMOUNT = 4999023 / 100,
       ord_TAX_AMOUNT = 749854 / 100, ord_SHIPPING_COST = 0, ord_DISCOUNT_AMOUNT = 977 / 100,
       ord_FINAL_AMOUNT = 57479, ord_PAYMENT_METHOD = ''Cash'',
       ord_PAYMENT_STATUS = ''Completed'', ord_NOTES = ''Order placed by Ahmed Khan'' \<rparr>"

text \<open>
  A second product and two more employees, the first of them at the second store; the order
  and its two lines that \<open>generate_orders\<close> returns for the two customers, the two stores,
  the three employees and the two products on the tape whose every draw is \<open>3 / 5\<close>, with
  the row of the flattened view that the order gets; and the order without lines returned
  when there is no product.
\<close>

definition product_2 :: product where
  "product_2 = product_1\<lparr> prod_PRODUCT_ID := 2, prod_PRODUCT_NAME := ''Samsung TV 2'' \<rparr>"

definition employee_2 :: employee where
  "employee_2 =
     employee_1\<lparr> emp_EMPLOYEE_ID := 2, emp_FIRST_NAME := ''Sana'', emp_STORE_ID := 2 \<rparr>"

definition employee_3 :: employee where
  "employee_3 = employee_1\<lparr> emp_EMPLOYEE_ID := 3, emp_FIRST_NAME := ''Omar'' \<rparr>"

definition first_line_at_store_2 :: order_detail where
  "first_line_at_store_2 =
     \<lparr> line_ORDER_ID = 1, line_PRODUCT_ID = 2, line_QUANTITY_ORDERED = 4,
       line_UNIT_PRICE = 50000, line_DISCOUNT_PERCENT = 12,
       line_TOTAL_LINE_AMOUNT = 176000 \<rparr>"

definition second_line_at_store_2 :: order_detail where
  "second_line_at_store_2 = first_line_at_store_2\<lparr> line_PRODUCT_ID := 1 \<rparr>"

definition order_at_store_2 :: order where
  "order_at_store_2 =
     \<lparr> ord_ORDER_ID = 1, ord_CUSTOMER_ID = 2, ord_STORE_ID = 2, ord_EMPLOYEE_ID = 2,
       ord_ORDER_DATE = 562, ord_REQUIRED_DATE = 571, ord_SHIP_DATE = Some 567,
       ord_ORDER_STATUS = ''Shipped'', ord_SHIP_METHOD = ''Pickup'',
       ord_SHIPPING_ADDRESS_ID = None, ord_TOTAL_AMOUNT = 352000, ord_TAX_AMOUNT = 52800,
       ord_SHIPPING_COST = 300, ord_DISCOUNT_AMOUNT = 48000, ord_FINAL_AMOUNT = 357100,
       ord_PAYMENT_METHOD = ''Bank Transfer'', ord_PAYMENT_STATUS = ''Completed'',
       ord_NOTES = ''Order placed by Fatima Khan'' \<rparr>"

definition sale_at_store_2 :: sales_row where
  "sale_at_store_2 =
     \<lparr> sale_ORDER_ID = 1, sale_CUSTOMER_ID = 2, sale_PRODUCT_ID = 2, sale_STORE_ID = 2,
       sale_EMPLOYEE_ID = 2, sale_ORDER_DATE = 562, sale_SHIP_DATE = Some 567,
       sale_QUANTITY_ORDERED = 4, sale_UNIT_PRICE = 50000, sale_DISCOUNT_PERCENT = 12,
       sale_TOTAL_AMOUNT = 176000, sale_PAYMENT_METHOD = ''Bank Transfer'',
       sale_ORDER_STATUS = ''Shipped'', sale_SHIP_METHOD = ''Pickup'' \<rparr>"

definition order_without_lines :: order where
  "order_without_lines =
     sample_order\<lparr> ord_TOTAL_AMOUNT := 0, ord_TAX_AMOUNT := 0, ord_DISCOUNT_AMOUNT := 0,
       ord_FINAL_AMOUNT := 0 \<rparr>"

section \<open>Total correctness of a generator\<close>

text \<open>
  \<open>succeeds m P\<close>: on every tape the generator \<open>m\<close> returns, having consumed some of
  the draws, and what it returns satisfies \<open>P\<close>.
\<close>

definition succeeds :: "'a gen \<Rightarrow> ('a \<Rightarrow> bool) \<Rightarrow> bool" where
  "succeeds m P = (\<forall>g d. \<exists>x k. m (g, d) = Inr (x, (drop k g, d)) \<and> P x)"

text \<open>
  \<open>steady d m P\<close>: on the tape that answers the draw \<open>d\<close> forever the generator \<open>m\<close>
  returns, and what it returns satisfies \<open>P\<close>.
\<close>

definition steady :: "real \<Rightarrow> 'a gen \<Rightarrow> ('a \<Rightarrow> bool) \<Rightarrow> bool" where
  "steady d m P = (\<exists>x. m ([], d) = Inr (x, ([], d)) \<and> P x)"

text \<open>
  \<open>results m P\<close>: whatever the generator \<open>m\<close> returns, when it returns, satisfies \<open>P\<close>.
\<close>

definition results :: "'a gen \<Rightarrow> ('a \<Rightarrow> bool) \<Rightarrow> bool" where
  "results m P = (\<forall>g x g'. m g = Inr (x, g') \<longrightarrow> P x)"

section \<open>Library facts\<close>

lemma return_gen_Inr [simp]: "return_gen x g = Inr r \<longleftrightarrow> r = (x, g)"
  by (auto simp: return_gen_def)

lemma raise_gen_Inr [simp]: "raise_gen e g \<noteq> Inr r"
  by (simp add: raise_gen_def)

lemma bind_gen_Inr: "bind_gen m f g = Inr r \<longleftrightarrow> (\<exists>x g1. m g = Inr (x, g1) \<and> f x g1 = Inr r)"
  by (auto simp: bind_gen_def split: sum.splits)

lemma random_random_range:
  assumes "random_random g = Inr (u, g')"
  shows "0 \<le> u \<and> u < 1"
  using assms by (auto simp: random_random_def frac_lt_1 split: list.splits prod.splits)

lemma random_random_total: "\<exists>u g'. random_random g = Inr (u, g')"
  by (simp add: random_random_def split: list.splits prod.splits)

subsection \<open>Rules for total correctness\<close>

lemma succeedsD: "succeeds m P \<Longrightarrow> \<exists>x g'. m g = Inr (x, g') \<and> P x"
proof -
  assume s: "succeeds m P"
  obtain l d where g: "g = (l, d)" by (cases g)
  from s obtain x k where "m (l, d) = Inr (x, (drop k l, d))" "P x"
    unfolding succeeds_def by blast
  then show ?thesis unfolding g by blast
qed

lemma succeeds_return: "P x \<Longrightarrow> succeeds (return_gen x) P"
  unfolding succeeds_def return_gen_def
  by (intro allI exI[of _ x] exI[of _ 0]) simp

lemma succeeds_bind:
  assumes "succeeds m P" and "\<And>x. P x \<Longrightarrow> succeeds (f x) Q"
  shows "succeeds (bind_gen m f) Q"
  unfolding succeeds_def
proof (intro allI)
  fix g d
  from assms(1) obtain x k1 where m: "m (g, d) = Inr (x, (drop k1 g, d))" and p: "P x"
    unfolding succeeds_def by blast
  from assms(2)[OF p] obtain y k2
    where f: "f x (drop k1 g, d) = Inr (y, (drop k2 (drop k1 g), d))" and q: "Q y"
    unfolding succeeds_def by blast
  have "bind_gen m f (g, d) = Inr (y, (drop (k2 + k1) g, d))"
    using m f by (simp add: bind_gen_def)
  with q show "\<exists>y k. bind_gen m f (g, d) = Inr (y, (drop k g, d)) \<and> Q y"
    by blast
qed

lemma succeeds_weaken: "succeeds m P \<Longrightarrow> (\<And>x. P x \<Longrightarrow> Q x) \<Longrightarrow> succeeds m Q"
  unfolding succeeds_def by blast

lemma succeeds_random: "succeeds random_random (\<lambda>u. 0 \<le> u \<and> u < 1)"
  unfolding succeeds_def
proof (intro allI)
  fix g :: "real list" and d :: real
  show "\<exists>x k. random_random (g, d) = Inr (x, (drop k g, d)) \<and> 0 \<le> x \<and> x < 1"
  proof (cases g)
    case Nil
    then show ?thesis
      by (intro exI[of _ "frac d"] exI[of _ 0]) (simp add: random_random_def frac_lt_1)
  next
    case (Cons u g')
    then show ?thesis
      by (intro exI[of _ "frac u"] exI[of _ 1]) (simp add: random_random_def frac_lt_1)
  qed
qed

lemma floor_unit_mult:
  fixes u :: real
  assumes "0 \<le> u" "u < 1" "0 < n"
  shows "nat \<lfloor>u * of_nat n\<rfloor> < n"
proof -
  have "u * of_nat n < of_nat n" using assms by simp
  then have "\<lfloor>u * of_nat n\<rfloor> < int n" by (simp add: floor_less_iff)
  moreover have "0 \<le> \<lfloor>u * of_nat n\<rfloor>" using assms by simp
  ultimately show ?thesis by linarith
qed

lemma succeeds_randbelow: "0 < n \<Longrightarrow> succeeds (randbelow n) (\<lambda>k. k < n)"
  unfolding randbelow_def
  by (rule succeeds_bind[OF succeeds_random]) (auto intro!: succeeds_return floor_unit_mult)

lemma succeeds_randint: "a \<le> b \<Longrightarrow> succeeds (randint a b) (\<lambda>k. a \<le> k \<and> k \<le> b)"
  unfolding randint_def
  by (simp, rule succeeds_bind[OF succeeds_randbelow]) (auto intro!: succeeds_return)

lemma succeeds_uniform: "a \<le> b \<Longrightarrow> succeeds (uniform a b) (\<lambda>x. a \<le> x \<and> x \<le> b)"
  unfolding uniform_def
proof (rule succeeds_bind[OF succeeds_random], rule succeeds_return)
  fix u :: real assume ab: "a \<le> b" and u: "0 \<le> u \<and> u < 1"
  have "0 \<le> (b - a) * u" using ab u by simp
  moreover have "(b - a) * u \<le> (b - a) * 1" using ab u by (intro mult_left_mono) auto
  ultimately show "a \<le> a + (b - a) * u \<and> a + (b - a) * u \<le> b" by simp
qed

lemma succeeds_choice: "seq \<noteq> [] \<Longrightarrow> succeeds (choice seq) (\<lambda>x. x \<in> set seq)"
  unfolding choice_def
  by (simp, rule succeeds_bind[OF succeeds_randbelow]) (auto intro!: succeeds_return)

lemma length_accumulate [simp]: "length (accumulate acc ws) = length ws"
  by (induction ws arbitrary: acc) auto

lemma bisect_le: "bisect cum x \<le> length cum"
  by (simp add: bisect_def length_takeWhile_le)

lemma succeeds_choices:
  assumes "length weights = length population" "population \<noteq> []"
  shows "succeeds (choices population weights) (\<lambda>x. x \<in> set population)"
proof -
  have idx: "bisect (butlast (accumulate 0 weights)) x < length population" for x
    using bisect_le[of "butlast (accumulate 0 weights)" x] assms by (cases population) auto
  show ?thesis
    unfolding choices_def Let_def using assms
    by (simp, intro succeeds_bind[OF succeeds_random] succeeds_return) (simp add: idx)
qed

lemma succeeds_for_each:
  assumes "\<And>i. i \<in> set idx \<Longrightarrow> succeeds (body i) (P i)"
  shows "succeeds (for_each body idx) (\<lambda>xs. list_all2 P idx xs)"
  using assms
proof (induction idx)
  case Nil
  show ?case by (simp add: succeeds_return)
next
  case (Cons i rest)
  show ?case
    unfolding for_each.simps
  proof (rule succeeds_bind[where P = "P i"], goal_cases)
    case 1 show ?case using Cons.prems by simp
  next
    case (2 x)
    show ?case
    proof (rule succeeds_bind[where P = "list_all2 P rest"], goal_cases)
      case 1 show ?case using Cons by simp
    next
      case (2 xs) with \<open>P i x\<close> show ?case by (simp add: succeeds_return)
    qed
  qed
qed

lemma succeeds_getitem: "map_of d k = Some v \<Longrightarrow> succeeds (getitem d k) (\<lambda>x. x = v)"
  by (simp add: getitem_def succeeds_return)

lemma succeeds_datetime_date:
  assumes "1 \<le> y" "y \<le> 9999" "1 \<le> m" "m \<le> 12" "1 \<le> d" "d \<le> 28"
  shows "succeeds (datetime_date y m d) (\<lambda>x. x = Date y m d)"
  using assms by (simp add: datetime_date_def days_in_month_def succeeds_return)

lemma succeeds_annual_income: "succeeds (annual_income_of segment) (\<lambda>x. True)"
  unfolding annual_income_of_def
  by (auto intro!: succeeds_weaken[OF succeeds_randint])


lemma succeeds_choice_any: "seq \<noteq> [] \<Longrightarrow> succeeds (choice seq) (\<lambda>x. True)"
  by (rule succeeds_weaken[OF succeeds_choice]) auto

lemma succeeds_choices_any:
  "length weights = length population \<Longrightarrow> population \<noteq> [] \<Longrightarrow> succeeds (choices population weights) (\<lambda>x. True)"
  by (rule succeeds_weaken[OF succeeds_choices]) auto


lemma customer_row_succeeds:
  "succeeds (customer_row today i)
     (\<lambda>c. cust_CUSTOMER_ID c = i \<and> 1944 \<le> year (cust_DATE_OF_BIRTH c)
           \<and> year (cust_DATE_OF_BIRTH c) \<le> 2006)"
  unfolding customer_row_def
  apply (rule succeeds_bind[OF succeeds_choice_any], simp add: first_names_def)
  apply (rule succeeds_bind[OF succeeds_choice_any], simp add: last_names_def)
  apply (rule succeeds_bind[OF succeeds_choice_any], simp)
  apply (rule succeeds_bind[OF succeeds_randint], simp)
  apply (rule succeeds_bind[OF succeeds_randint], simp)
  apply (rule succeeds_bind[OF succeeds_randint], simp)
  apply (rule succeeds_bind[OF succeeds_randint], simp)
  apply (rule succeeds_bind[OF succeeds_randint], simp)
  apply (rule succeeds_bind[OF succeeds_datetime_date], simp_all)[1]
  apply (rule succeeds_bind[OF succeeds_randint], simp)
  apply (rule succeeds_bind[OF succeeds_choices_any], simp add: customer_segments_def,
         simp add: customer_segments_def)
  apply (rule succeeds_bind[OF succeeds_annual_income])
  apply (rule succeeds_bind[OF succeeds_choice_any], simp add: genders_def)
  apply (rule succeeds_bind[OF succeeds_choice_any], simp add: marital_statuses_def)
  apply (rule succeeds_bind[OF succeeds_choice_any], simp add: education_levels_def)
  apply (rule succeeds_bind[OF succeeds_choice_any], simp)
  apply (rule succeeds_return)
  apply simp
  done

lemma list_all2_map_eq: "list_all2 (\<lambda>i x. f x = i) idx xs \<Longrightarrow> map f xs = idx"
  by (induction idx xs rule: list_all2_induct) auto

lemma generate_customers_succeeds:
  "succeeds (generate_customers today n)
     (\<lambda>cs. map cust_CUSTOMER_ID cs = [1..n]
           \<and> (\<forall>c\<in>set cs. 1944 \<le> year (cust_DATE_OF_BIRTH c) \<and> year (cust_DATE_OF_BIRTH c) \<le> 2006))"
  unfolding generate_customers_def
proof (rule succeeds_weaken[OF succeeds_for_each[OF customer_row_succeeds]], goal_cases)
  case (1 cs)
  have "map cust_CUSTOMER_ID cs = [1..n]"
    by (rule list_all2_map_eq) (rule list_all2_mono[OF 1], simp)
  moreover have "\<forall>c\<in>set cs. 1944 \<le> year (cust_DATE_OF_BIRTH c) \<and> year (cust_DATE_OF_BIRTH c) \<le> 2006"
    using 1 by (auto simp: list_all2_conv_all_nth in_set_conv_nth)
  ultimately show ?case by simp
qed

subsection \<open>Customer addresses\<close>

lemma provinces_lookup:
  "p \<in> set (map fst provinces) \<Longrightarrow> \<exists>cities. map_of provinces p = Some cities \<and> cities \<noteq> []"
  by (auto simp: provinces_def)

lemma succeeds_getitem_provinces:
  assumes "p \<in> set (map fst provinces)"
  shows "succeeds (getitem provinces p) (\<lambda>cities. cities \<noteq> [])"
proof -
  from provinces_lookup[OF assms] obtain cities
    where "map_of provinces p = Some cities" "cities \<noteq> []" by blast
  then show ?thesis by (simp add: getitem_def succeeds_return)
qed

lemma provinces_keys_nonempty: "map fst provinces \<noteq> []"
  by (simp add: provinces_def)

lemma address_row_succeeds:
  "succeeds (address_row customer address_id i)
     (\<lambda>a. addr_ADDRESS_ID a = address_id \<and> addr_CUSTOMER_ID a = cust_CUSTOMER_ID customer
          \<and> addr_IS_DEFAULT a = (i = 0))"
  unfolding address_row_def
  apply (rule succeeds_bind[OF succeeds_choice], rule provinces_keys_nonempty)
  apply (rule succeeds_bind[OF succeeds_getitem_provinces], assumption)
  apply (rule succeeds_bind[OF succeeds_choice_any], assumption)
  apply (rule succeeds_bind[OF succeeds_randint], simp)
  apply (rule succeeds_bind[OF succeeds_choice_any], simp)
  apply (rule succeeds_bind[OF succeeds_randint], simp)
  apply (rule succeeds_bind[OF succeeds_choice_any], simp)
  apply (rule succeeds_bind[OF succeeds_choice_any], simp add: street_names_def)
  apply (rule succeeds_bind[OF succeeds_randint], simp)
  apply (rule succeeds_return)
  apply simp
  done

lemma address_rows_succeeds:
  "succeeds (address_rows customer idx address_id)
     (\<lambda>(rows, address_id').
        address_id' = address_id + int (length idx)
        \<and> map addr_ADDRESS_ID rows = map (\<lambda>k. address_id + int k) [0..<length idx]
        \<and> map addr_IS_DEFAULT rows = map (\<lambda>i. i = 0) idx
        \<and> (\<forall>a\<in>set rows. addr_CUSTOMER_ID a = cust_CUSTOMER_ID customer))"
proof (induction idx arbitrary: address_id)
  case Nil
  show ?case by (simp add: succeeds_return)
next
  case (Cons i rest)
  have step: "map (\<lambda>k. address_id + int k) [0..<length (i # rest)] =
        address_id # map (\<lambda>k. address_id + 1 + int k) [0..<length rest]"
    by (simp add: map_upt_Suc del: upt_Suc)
  show ?case
    unfolding address_rows.simps
  proof (rule succeeds_bind[OF address_row_succeeds], rule succeeds_bind[OF Cons.IH], goal_cases)
    case (1 row res)
    obtain rows aid where res: "res = (rows, aid)" by (cases res)
    show ?case
      unfolding res prod.case
      by (rule succeeds_return) (use 1 res step in auto)
  qed
qed

lemma succeeds_num_addresses:
  "succeeds (choices [1, 2] [8 / 10, 2 / 10]) (\<lambda>n::int. n = 1 \<or> n = 2)"
  by (rule succeeds_weaken[OF succeeds_choices]) auto

lemma map_upt_upto: "map (\<lambda>k. a + int k) [0..<n] = [a..a + int n - 1]"
proof (induction n)
  case 0
  show ?case by simp
next
  case (Suc n)
  have "[a..a + int (Suc n) - 1] = [a..a + int n - 1] @ [a + int n]"
    using upto_rec2[of a "a + int n"] by simp
  with Suc show ?case by simp
qed

lemma upt_split_add: "[0..<m + n] = [0..<m] @ map (\<lambda>k. m + k) [0..<n]"
  by (induction n) auto

lemma addresses_loop_succeeds:
  "succeeds (addresses_loop customers address_id)
     (\<lambda>rows. \<exists>blocks.
        rows = concat blocks
        \<and> list_all2 (\<lambda>c b. (length b = 1 \<or> length b = 2)
                          \<and> map addr_IS_DEFAULT b = True # replicate (length b - 1) False
                          \<and> (\<forall>a\<in>set b. addr_CUSTOMER_ID a = cust_CUSTOMER_ID c)) customers blocks
        \<and> map addr_ADDRESS_ID rows = map (\<lambda>k. address_id + int k) [0..<length rows])"
proof (induction customers arbitrary: address_id)
  case Nil
  show ?case by (simp add: succeeds_return)
next
  case (Cons customer rest)
  show ?case
    unfolding addresses_loop.simps
  proof (rule succeeds_bind[OF succeeds_num_addresses],
         rule succeeds_bind[OF address_rows_succeeds], goal_cases)
    case (1 num res)
    obtain rows aid where res: "res = (rows, aid)" by (cases res)
    have idx: "[0..num - 1] = [0] \<or> [0..num - 1] = [0, 1]"
      using 1(1) by (auto simp: upto_rec1)
    have aid: "aid = address_id + int (length rows)"
      and ids: "map addr_ADDRESS_ID rows = map (\<lambda>k. address_id + int k) [0..<length rows]"
      and dflt0: "map addr_IS_DEFAULT rows = map (\<lambda>i. i = 0) [0..num - 1]"
      and cust: "\<forall>a\<in>set rows. addr_CUSTOMER_ID a = cust_CUSTOMER_ID customer"
      using 1(2) res by (auto dest: arg_cong[where f = length])
    have len12: "length rows = 1 \<or> length rows = 2"
      using idx dflt0 by (auto dest: arg_cong[where f = length])
    have dflt: "map addr_IS_DEFAULT rows = True # replicate (length rows - 1) False"
      using idx dflt0 len12 by auto
    show ?case
      unfolding res prod.case
    proof (rule succeeds_bind[OF Cons.IH], rule succeeds_return, goal_cases)
      case (1 more)
      then obtain blocks where more: "more = concat blocks"
        and blocks: "list_all2 (\<lambda>c b. (length b = 1 \<or> length b = 2)
                          \<and> map addr_IS_DEFAULT b = True # replicate (length b - 1) False
                          \<and> (\<forall>a\<in>set b. addr_CUSTOMER_ID a = cust_CUSTOMER_ID c)) rest blocks"
        and mids: "map addr_ADDRESS_ID more = map (\<lambda>k. aid + int k) [0..<length more]"
        by blast
      have "map addr_ADDRESS_ID (rows @ more) =
              map (\<lambda>k. address_id + int k) [0..<length (rows @ more)]"
        using ids mids aid by (simp add: upt_split_add[of "length rows"] comp_def add.assoc)
      moreover have "rows @ more = concat (rows # blocks)" using more by simp
      ultimately show ?case
        using blocks len12 dflt cust by (intro exI[of _ "rows # blocks"]) simp
    qed
  qed
qed

lemma generate_customer_addresses_succeeds:
  "succeeds (generate_customer_addresses customers)
     (\<lambda>rows. (\<exists>blocks.
        rows = concat blocks
        \<and> list_all2 (\<lambda>c b. (length b = 1 \<or> length b = 2)
                          \<and> map addr_IS_DEFAULT b = True # replicate (length b - 1) False
                          \<and> (\<forall>a\<in>set b. addr_CUSTOMER_ID a = cust_CUSTOMER_ID c)) customers blocks)
        \<and> map addr_ADDRESS_ID rows = [1..int (length rows)])"
  unfolding generate_customer_addresses_def
  by (rule succeeds_weaken[OF addresses_loop_succeeds]) (auto simp: map_upt_upto)

subsection \<open>Rules for partial correctness\<close>

lemma resultsD: "results m P \<Longrightarrow> m g = Inr (x, g') \<Longrightarrow> P x"
  unfolding results_def by blast

lemma results_return: "P x \<Longrightarrow> results (return_gen x) P"
  by (simp add: results_def)

lemma results_raise: "results (raise_gen e) P"
  by (simp add: results_def)

lemma results_any: "results m (\<lambda>x. True)"
  by (simp add: results_def)

lemma results_weaken: "results m P \<Longrightarrow> (\<And>x. P x \<Longrightarrow> Q x) \<Longrightarrow> results m Q"
  unfolding results_def by blast

lemma results_bind:
  assumes "results m P" and "\<And>x. P x \<Longrightarrow> results (f x) Q"
  shows "results (bind_gen m f) Q"
  using assms unfolding results_def bind_gen_Inr by blast

lemma succeeds_results: "succeeds m P \<Longrightarrow> results m P"
  unfolding results_def
proof (intro allI impI)
  fix g x g'
  assume s: "succeeds m P" and r: "m g = Inr (x, g')"
  from succeedsD[OF s, of g] obtain y g'' where "m g = Inr (y, g'')" "P y" by blast
  with r show "P x" by simp
qed

lemma results_random: "results random_random (\<lambda>u. 0 \<le> u \<and> u < 1)"
  by (rule succeeds_results[OF succeeds_random])

lemma results_randint: "results (randint a b) (\<lambda>k. a \<le> k \<and> k \<le> b)"
proof (cases "a \<le> b")
  case True
  then show ?thesis by (rule succeeds_results[OF succeeds_randint])
next
  case False
  then show ?thesis by (simp add: randint_def results_raise)
qed

lemma results_uniform: "a \<le> b \<Longrightarrow> results (uniform a b) (\<lambda>x. a \<le> x \<and> x \<le> b)"
  by (rule succeeds_results[OF succeeds_uniform])

lemma results_choice: "results (choice seq) (\<lambda>x. x \<in> set seq)"
proof (cases "seq = []")
  case True
  then show ?thesis by (simp add: choice_def results_raise)
next
  case False
  then show ?thesis by (rule succeeds_results[OF succeeds_choice])
qed

lemma results_for_each:
  assumes "\<And>i. i \<in> set idx \<Longrightarrow> results (body i) (P i)"
  shows "results (for_each body idx) (\<lambda>xs. list_all2 P idx xs)"
  using assms
proof (induction idx)
  case Nil
  show ?case by (simp add: results_return)
next
  case (Cons i rest)
  show ?case
    unfolding for_each.simps
  proof (rule results_bind[where P = "P i"], goal_cases)
    case 1 show ?case using Cons.prems by simp
  next
    case (2 x)
    show ?case
    proof (rule results_bind[where P = "list_all2 P rest"], goal_cases)
      case 1 show ?case using Cons by simp
    next
      case (2 xs) with \<open>P i x\<close> show ?case by (simp add: results_return)
    qed
  qed
qed

lemma list_all2_all_right: "list_all2 (\<lambda>i x. Q x) idx xs \<Longrightarrow> \<forall>x\<in>set xs. Q x"
  by (induction idx xs rule: list_all2_induct) auto

subsection \<open>Rounding to two decimals\<close>

lemma round2_cases:
  obtains k :: int where "round2 x = of_int k / 100"
    and "\<bar>of_int k - x * 100\<bar> \<le> 1 / 2"
    and "k = \<lfloor>x * 100\<rfloor> \<or> k = \<lfloor>x * 100\<rfloor> + 1"
proof -
  define f where "f = \<lfloor>x * 100\<rfloor>"
  define r where "r = x * 100 - of_int f"
  have r: "0 \<le> r" "r < 1" unfolding r_def f_def by linarith+
  define k where "k = (if r < 1 / 2 then f else if 1 / 2 < r then f + 1
                        else if even f then f else f + 1)"
  have 1: "round2 x = of_int k / 100"
    unfolding round2_def Let_def k_def r_def f_def by simp
  have 2: "\<bar>of_int k - x * 100\<bar> \<le> 1 / 2"
    using r unfolding k_def r_def by (auto split: if_splits)
  have 3: "k = \<lfloor>x * 100\<rfloor> \<or> k = \<lfloor>x * 100\<rfloor> + 1"
    unfolding k_def f_def by auto
  from that[OF 1 2 3] show thesis .
qed

lemma round2_error: "\<bar>round2 x - x\<bar> \<le> 1 / 200"
proof -
  obtain k :: int where k: "round2 x = of_int k / 100" "\<bar>of_int k - x * 100\<bar> \<le> 1 / 2"
    by (rule round2_cases)
  have "\<bar>round2 x - x\<bar> = \<bar>of_int k - x * 100\<bar> / 100"
    unfolding k(1) by (simp add: field_simps abs_if)
  also have "\<dots> \<le> (1 / 2) / 100" using k(2) by (intro divide_right_mono) auto
  finally show ?thesis by simp
qed

lemma round2_hundredth [simp]: "round2 (of_int k / 100) = of_int k / 100"
  by (simp add: round2_def Let_def)

lemma round2_of_int [simp]: "round2 (of_int k) = of_int k"
proof -
  have "round2 (of_int (k * 100) / 100) = of_int (k * 100) / 100"
    by (rule round2_hundredth)
  then show ?thesis by simp
qed

lemma round2_mono:
  assumes "x \<le> y"
  shows "round2 x \<le> round2 y"
proof -
  define fx where "fx = \<lfloor>x * 100\<rfloor>"
  define fy where "fy = \<lfloor>y * 100\<rfloor>"
  define rx where "rx = x * 100 - of_int fx"
  define ry where "ry = y * 100 - of_int fy"
  define kx where "kx = (if rx < 1 / 2 then fx else if 1 / 2 < rx then fx + 1
                          else if even fx then fx else fx + 1)"
  define ky where "ky = (if ry < 1 / 2 then fy else if 1 / 2 < ry then fy + 1
                          else if even fy then fy else fy + 1)"
  have rx: "round2 x = of_int kx / 100"
    unfolding round2_def Let_def kx_def rx_def fx_def by simp
  have ry: "round2 y = of_int ky / 100"
    unfolding round2_def Let_def ky_def ry_def fy_def by simp
  have f: "fx \<le> fy" unfolding fx_def fy_def using assms by (intro floor_mono) simp
  have "kx \<le> ky"
  proof (cases "fx = fy")
    case True
    have "rx \<le> ry" unfolding rx_def ry_def True using assms by simp
    then show ?thesis unfolding kx_def ky_def True by (auto split: if_splits)
  next
    case False
    with f have "fx + 1 \<le> fy" by simp
    moreover have "kx \<le> fx + 1" unfolding kx_def by auto
    moreover have "fy \<le> ky" unfolding ky_def by auto
    ultimately show ?thesis by linarith
  qed
  then have "(of_int kx :: real) \<le> of_int ky" by simp
  then show ?thesis unfolding rx ry by (simp add: divide_right_mono)
qed

lemma round2_zero [simp]: "round2 0 = 0"
  using round2_of_int[of 0] by simp

subsection \<open>Order lines\<close>

lemma line_amount_discount:
  "line_amount p q dp + line_discount p q dp = p * of_int q"
  by (simp add: line_amount_def line_discount_def algebra_simps)

lemma abs_sum_le:
  fixes a b c :: real
  shows "\<bar>a\<bar> \<le> x \<Longrightarrow> \<bar>b\<bar> \<le> y \<Longrightarrow> c = a + b \<Longrightarrow> \<bar>c\<bar> \<le> y + x"
  by linarith

lemma order_lines_results:
  "results (order_lines products i t0 d0) (\<lambda>(lines, t, d).
     (\<forall>l\<in>set lines. line_ORDER_ID l = i
        \<and> 1 \<le> line_QUANTITY_ORDERED l \<and> line_QUANTITY_ORDERED l \<le> 5
        \<and> (\<exists>dp. 0 \<le> dp \<and> dp \<le> 2 / 10
              \<and> line_DISCOUNT_PERCENT l = round2 (dp * 100)
              \<and> line_TOTAL_LINE_AMOUNT l
                  = round2 (line_amount (line_UNIT_PRICE l) (line_QUANTITY_ORDERED l) dp)))
     \<and> map line_PRODUCT_ID lines = map prod_PRODUCT_ID products
     \<and> map line_UNIT_PRICE lines = map prod_UNIT_PRICE products
     \<and> \<bar>t - t0 - sum_list (map line_TOTAL_LINE_AMOUNT lines)\<bar> \<le> of_nat (length lines) / 200
     \<and> \<bar>d - d0 - sum_list (map (\<lambda>l. line_UNIT_PRICE l * of_int (line_QUANTITY_ORDERED l)
                                        - line_TOTAL_LINE_AMOUNT l) lines)\<bar>
          \<le> of_nat (length lines) / 200)"
proof (induction products arbitrary: t0 d0)
  case Nil
  show ?case by (simp add: results_return)
next
  case (Cons product rest)
  show ?case
    unfolding order_lines.simps Let_def
  proof (rule results_bind[OF results_randint], rule results_bind[OF results_uniform], simp,
      rule results_bind[OF Cons.IH], goal_cases)
    case (1 quantity dp res)
    obtain lines t d where res: "res = (lines, t, d)" by (cases res)
    define p where "p = prod_UNIT_PRICE product"
    define la where "la = line_amount p quantity dp"
    define ld where "ld = line_discount p quantity dp"
    have sum: "la + ld = p * of_int quantity"
      unfolding la_def ld_def by (rule line_amount_discount)
    have e: "\<bar>round2 la - la\<bar> \<le> 1 / 200" by (rule round2_error)
    then have e': "\<bar>la - round2 la\<bar> \<le> 1 / 200" by linarith
    from 1(3) have t: "\<bar>t - (t0 + la) - sum_list (map line_TOTAL_LINE_AMOUNT lines)\<bar>
                         \<le> of_nat (length lines) / 200"
      and d: "\<bar>d - (d0 + ld) - sum_list (map (\<lambda>l. line_UNIT_PRICE l * of_int (line_QUANTITY_ORDERED l)
                                        - line_TOTAL_LINE_AMOUNT l) lines)\<bar>
                \<le> of_nat (length lines) / 200"
      unfolding res la_def ld_def p_def by simp_all
    have t': "\<bar>t - t0 - (round2 la + sum_list (map line_TOTAL_LINE_AMOUNT lines))\<bar>
                \<le> (1 + of_nat (length lines)) / 200"
      unfolding add_divide_distrib
      by (rule abs_sum_le[OF t e']) simp
    have d': "\<bar>d - d0 - (p * of_int quantity - round2 la
                 + sum_list (map (\<lambda>l. line_UNIT_PRICE l * of_int (line_QUANTITY_ORDERED l)
                                        - line_TOTAL_LINE_AMOUNT l) lines))\<bar>
                \<le> (1 + of_nat (length lines)) / 200"
      unfolding add_divide_distrib
      by (rule abs_sum_le[OF d e]) (use sum in simp)
    show ?case
      unfolding res prod.case
      apply (rule results_return)
      using 1 t' d' unfolding res la_def p_def
      apply simp
      apply blast
      done
  qed
qed

lemma order_row_results:
  "results (order_row today customers stores employees products i) (\<lambda>(order, lines).
     ord_ORDER_ID order = i
     \<and> ord_SHIPPING_ADDRESS_ID order = None
     \<and> (\<exists>c\<in>set customers. ord_CUSTOMER_ID order = cust_CUSTOMER_ID c)
     \<and> (\<exists>s\<in>set stores. ord_STORE_ID order = store_STORE_ID s)
     \<and> (\<exists>e\<in>set employees. ord_EMPLOYEE_ID order = emp_EMPLOYEE_ID e
            \<and> emp_STORE_ID e = ord_STORE_ID order)
     \<and> (\<forall>l\<in>set lines. line_ORDER_ID l = i
        \<and> 1 \<le> line_QUANTITY_ORDERED l \<and> line_QUANTITY_ORDERED l \<le> 5
        \<and> (\<exists>dp. 0 \<le> dp \<and> dp \<le> 2 / 10
              \<and> line_DISCOUNT_PERCENT l = round2 (dp * 100)
              \<and> line_TOTAL_LINE_AMOUNT l
                  = round2 (line_amount (line_UNIT_PRICE l) (line_QUANTITY_ORDERED l) dp)))
     \<and> (\<exists>t d.
           \<bar>t - sum_list (map line_TOTAL_LINE_AMOUNT lines)\<bar> \<le> of_nat (length lines) / 200
         \<and> \<bar>d - sum_list (map (\<lambda>l. line_UNIT_PRICE l * of_int (line_QUANTITY_ORDERED l)
                                        - line_TOTAL_LINE_AMOUNT l) lines)\<bar>
              \<le> of_nat (length lines) / 200
         \<and> ord_TOTAL_AMOUNT order = round2 t
         \<and> ord_TAX_AMOUNT order = round2 (t * (15 / 100))
         \<and> ord_DISCOUNT_AMOUNT order = round2 d
         \<and> ord_FINAL_AMOUNT order
             = round2 (t + t * (15 / 100) + of_int (ord_SHIPPING_COST order) - d)))"
  unfolding order_row_def Let_def
proof (rule results_bind[OF results_choice], rule results_bind[OF results_choice],
    rule results_bind[OF results_choice], rule results_bind[OF results_any],
    rule results_bind[OF results_any], rule results_bind[OF results_any],
    rule results_bind[OF results_any], rule results_bind[OF results_any],
    rule results_bind[OF results_any], rule results_bind[OF results_any],
    rule results_bind[OF order_lines_results], goal_cases)
  case (1 customer store employee order_days required_days ship_date order_status
      num_products order_products shipping_cost res)
  obtain lines t d where res: "res = (lines, t, d)" by (cases res)
  from 1(3) have emp: "employee \<in> set employees" "emp_STORE_ID employee = store_STORE_ID store"
    by simp_all
  from 1(11) have lines: "\<forall>l\<in>set lines. line_ORDER_ID l = i
        \<and> 1 \<le> line_QUANTITY_ORDERED l \<and> line_QUANTITY_ORDERED l \<le> 5
        \<and> (\<exists>dp. 0 \<le> dp \<and> dp \<le> 2 / 10
              \<and> line_DISCOUNT_PERCENT l = round2 (dp * 100)
              \<and> line_TOTAL_LINE_AMOUNT l
                  = round2 (line_amount (line_UNIT_PRICE l) (line_QUANTITY_ORDERED l) dp))"
    and t: "\<bar>t - sum_list (map line_TOTAL_LINE_AMOUNT lines)\<bar> \<le> of_nat (length lines) / 200"
    and d: "\<bar>d - sum_list (map (\<lambda>l. line_UNIT_PRICE l * of_int (line_QUANTITY_ORDERED l)
                                        - line_TOTAL_LINE_AMOUNT l) lines)\<bar>
              \<le> of_nat (length lines) / 200"
    unfolding res by simp_all
  show ?case
    unfolding res prod.case
  proof (rule results_bind[OF results_any], rule results_bind[OF results_any],
      rule results_return, unfold prod.case, intro conjI, goal_cases)
    case 1 show ?case by simp
  next
    case 2 show ?case by simp
  next
    case 3 show ?case using \<open>customer \<in> set customers\<close> by auto
  next
    case 4 show ?case using \<open>store \<in> set stores\<close> by auto
  next
    case 5 show ?case using emp by auto
  next
    case 6 show ?case using lines by simp
  next
    case 7 show ?case
      apply (rule exI[of _ t], rule exI[of _ d])
      using t d apply simp
      done
  qed
qed

subsection \<open>Products and stores\<close>

lemma product_categories_lookup:
  "c \<in> set (map fst product_categories)
     \<Longrightarrow> \<exists>info. map_of product_categories c = Some info \<and> snd info \<noteq> []"
  by (auto simp: product_categories_def)

lemma succeeds_getitem_product_categories:
  assumes "c \<in> set (map fst product_categories)"
  shows "succeeds (getitem product_categories c) (\<lambda>info. snd info \<noteq> [])"
proof -
  from product_categories_lookup[OF assms] obtain info
    where "map_of product_categories c = Some info" "snd info \<noteq> []" by blast
  then show ?thesis by (simp add: getitem_def succeeds_return)
qed

lemma product_categories_keys_nonempty: "map fst product_categories \<noteq> []"
  by (simp add: product_categories_def)

lemma succeeds_randint_any: "a \<le> b \<Longrightarrow> succeeds (randint a b) (\<lambda>x. True)"
  by (rule succeeds_weaken[OF succeeds_randint]) auto

lemma succeeds_uniform_any: "succeeds (uniform a b) (\<lambda>x. True)"
  unfolding uniform_def
  by (rule succeeds_bind[OF succeeds_random], rule succeeds_return) simp

lemma succeeds_if:
  "succeeds m P \<Longrightarrow> succeeds m' P \<Longrightarrow> succeeds (if c then m else m') P"
  by simp

lemma product_name_of_succeeds: "succeeds (product_name_of category_id brand i) (\<lambda>x. True)"
  unfolding product_name_of_def
  by (auto intro!: succeeds_bind[OF succeeds_choice_any] succeeds_bind[OF succeeds_randint_any]
        succeeds_return)

lemma round2_cost_below:
  assumes "500 \<le> base" "cf \<le> 8 / 10"
  shows "round2 (of_int base * cf) < of_int base"
proof -
  have "of_int base * cf \<le> of_int (80 * base) / 100" using assms by simp
  then have "round2 (of_int base * cf) \<le> round2 (of_int (80 * base) / 100)"
    by (rule round2_mono)
  also have "\<dots> = of_int (80 * base) / 100" by (rule round2_hundredth)
  also have "\<dots> < of_int base" using assms by simp
  finally show ?thesis .
qed

lemma round2_msrp_above:
  assumes "500 \<le> base" "11 / 10 \<le> mf"
  shows "of_int base \<le> round2 (of_int base * mf)"
proof -
  have "of_int (110 * base) / 100 \<le> of_int base * mf" using assms by simp
  then have "round2 (of_int (110 * base) / 100) \<le> round2 (of_int base * mf)"
    by (rule round2_mono)
  moreover have "round2 (of_int (110 * base) / 100) = of_int (110 * base) / 100"
    by (rule round2_hundredth)
  moreover have "of_int base \<le> (of_int (110 * base) :: real) / 100" using assms by simp
  ultimately show ?thesis by linarith
qed

lemma product_row_succeeds:
  "succeeds (product_row i)
     (\<lambda>p. prod_PRODUCT_ID p = i \<and> prod_UNIT_COST p < prod_UNIT_PRICE p
          \<and> prod_UNIT_PRICE p \<le> prod_MSRP p)"
  unfolding product_row_def Let_def
  apply (rule succeeds_bind[OF succeeds_choice], rule product_categories_keys_nonempty)
  apply (rule succeeds_bind[OF succeeds_getitem_product_categories], assumption)
  apply (rule succeeds_bind[OF succeeds_choice_any], assumption)
  apply (rule succeeds_bind[OF product_name_of_succeeds])
  apply (rule succeeds_bind[OF succeeds_randint], simp)
  apply (rule succeeds_bind[OF succeeds_uniform], simp)
  apply (rule succeeds_bind[OF succeeds_uniform], simp)
  apply (rule succeeds_bind[OF succeeds_if[OF succeeds_uniform_any succeeds_uniform_any]])
  apply (rule succeeds_bind[OF succeeds_randint_any], simp)
  apply (rule succeeds_bind[OF succeeds_randint_any], simp)
  apply (rule succeeds_bind[OF succeeds_randint_any], simp)
  apply (rule succeeds_bind[OF succeeds_randint_any], simp)
  apply (rule succeeds_bind[OF succeeds_choice_any], simp)
  apply (rule succeeds_return)
  apply (simp add: round2_cost_below round2_msrp_above)
  done

lemma list_all2_conj_ids:
  "list_all2 (\<lambda>i x. f x = i \<and> Q x) idx xs \<Longrightarrow> map f xs = idx \<and> (\<forall>x\<in>set xs. Q x)"
  by (induction idx xs rule: list_all2_induct) auto

lemma generate_products_succeeds:
  "succeeds (generate_products n)
     (\<lambda>ps. map prod_PRODUCT_ID ps = [1..n]
           \<and> (\<forall>p\<in>set ps. prod_UNIT_COST p < prod_UNIT_PRICE p
                \<and> prod_UNIT_PRICE p \<le> prod_MSRP p))"
  unfolding generate_products_def
  by (rule succeeds_weaken[OF succeeds_for_each[OF product_row_succeeds]])
     (rule list_all2_conj_ids)

lemma store_row_succeeds:
  "succeeds (store_row today i) (\<lambda>s. store_STORE_ID s = i)"
  unfolding store_row_def Let_def
  apply (rule succeeds_bind[OF succeeds_choice], rule provinces_keys_nonempty)
  apply (rule succeeds_bind[OF succeeds_getitem_provinces], assumption)
  apply (rule succeeds_bind[OF succeeds_choice_any], assumption)
  apply (rule succeeds_bind[OF succeeds_choice_any], simp)
  apply (rule succeeds_bind[OF succeeds_choice_any], simp)
  apply (rule succeeds_bind[OF succeeds_randint_any], simp)
  apply (rule succeeds_bind[OF succeeds_choice_any], simp)
  apply (rule succeeds_bind[OF succeeds_randint_any], simp)
  apply (rule succeeds_bind[OF succeeds_randint_any], simp)
  apply (rule succeeds_bind[OF succeeds_randint_any], simp)
  apply (rule succeeds_bind[OF succeeds_randint_any], simp)
  apply (rule succeeds_bind[OF succeeds_choice_any], simp add: store_types_def)
  apply (rule succeeds_bind[OF succeeds_choice_any], simp)
  apply (rule succeeds_return)
  apply simp
  done

lemma generate_stores_succeeds:
  "succeeds (generate_stores today n) (\<lambda>ss. map store_STORE_ID ss = [1..n])"
  unfolding generate_stores_def
  by (rule succeeds_weaken[OF succeeds_for_each[OF store_row_succeeds]])
     (rule list_all2_map_eq)

subsection \<open>Orders\<close>

lemma length_remove_nth: "j < length xs \<Longrightarrow> length (remove_nth j xs) = length xs - 1"
  by (simp add: remove_nth_def)

lemma set_remove_nth: "set (remove_nth j xs) \<subseteq> set xs"
  unfolding remove_nth_def using set_take_subset[of j xs] set_drop_subset[of "Suc j" xs] by auto

lemma sample_pool_succeeds:
  "k \<le> length pool \<Longrightarrow> succeeds (sample_pool k pool) (\<lambda>xs. length xs = k \<and> set xs \<subseteq> set pool)"
proof (induction k arbitrary: pool)
  case 0
  show ?case by (simp add: succeeds_return)
next
  case (Suc k)
  from Suc.prems have pos: "0 < length pool" by linarith
  show ?case
    unfolding sample_pool.simps
  proof (rule succeeds_bind[OF succeeds_randbelow[OF pos]], goal_cases)
    case (1 j)
    have "k \<le> length (remove_nth j pool)" using Suc.prems 1 by (simp add: length_remove_nth)
    from Suc.IH[OF this] show ?case
    proof (rule succeeds_bind, goal_cases)
      case (1 rest)
      then show ?case
        using \<open>j < length pool\<close> set_remove_nth[of j pool]
        by (intro succeeds_return) auto
    qed
  qed
qed

lemma sample_succeeds:
  "0 \<le> k \<Longrightarrow> k \<le> int (length population)
     \<Longrightarrow> succeeds (sample population k)
           (\<lambda>xs. int (length xs) = k \<and> set xs \<subseteq> set population)"
  unfolding sample_def
  by (simp, rule succeeds_weaken[OF sample_pool_succeeds]) auto

lemma order_lines_succeeds:
  "succeeds (order_lines products i t0 d0) (\<lambda>(lines, t, d). length lines = length products)"
proof (induction products arbitrary: t0 d0)
  case Nil
  show ?case by (simp add: succeeds_return)
next
  case (Cons product rest)
  show ?case
    unfolding order_lines.simps Let_def
  proof (rule succeeds_bind[OF succeeds_randint_any], simp,
      rule succeeds_bind[OF succeeds_uniform_any], rule succeeds_bind[OF Cons.IH], goal_cases)
    case (1 quantity dp res)
    obtain lines t d where res: "res = (lines, t, d)" by (cases res)
    show ?case
      unfolding res prod.case
      by (rule succeeds_return) (use 1 res in simp)
  qed
qed

lemma ship_date_of_succeeds: "succeeds (ship_date_of order_date) (\<lambda>x. True)"
  unfolding ship_date_of_def
  by (rule succeeds_bind[OF succeeds_random])
     (auto intro!: succeeds_bind[OF succeeds_randint_any] succeeds_return)

lemma order_status_of_succeeds: "succeeds (order_status_of today ship_date) (\<lambda>x. True)"
  unfolding order_status_of_def
  by (auto split: option.splits intro!: succeeds_choice_any succeeds_return)

lemma order_row_succeeds:
  assumes "customers \<noteq> []" "stores \<noteq> []"
    and "\<forall>s\<in>set stores. \<exists>e\<in>set employees. emp_STORE_ID e = store_STORE_ID s"
  shows "succeeds (order_row today customers stores employees products i)
           (\<lambda>(order, lines). ord_ORDER_ID order = i \<and> (products \<noteq> [] \<longrightarrow> lines \<noteq> []))"
  unfolding order_row_def Let_def
proof (rule succeeds_bind[OF succeeds_choice_any[OF assms(1)]],
    rule succeeds_bind[OF succeeds_choice[OF assms(2)]], goal_cases)
  case (1 customer store)
  from 1(2) assms(3) have ne: "filter (\<lambda>e. emp_STORE_ID e = store_STORE_ID store) employees \<noteq> []"
    by (auto simp: filter_empty_conv)
  show ?case
  proof (rule succeeds_bind[OF succeeds_choice_any[OF ne]],
      rule succeeds_bind[OF succeeds_randint_any], simp,
      rule succeeds_bind[OF succeeds_randint_any], simp,
      rule succeeds_bind[OF ship_date_of_succeeds],
      rule succeeds_bind[OF order_status_of_succeeds],
      rule succeeds_bind[OF succeeds_randint], simp, goal_cases)
    case (1 employee order_days required_days ship_date order_status num_products)
    have k: "0 \<le> min num_products (int (length products))"
      "min num_products (int (length products)) \<le> int (length products)"
      using 1(6) by simp_all
    have pos: "products \<noteq> [] \<Longrightarrow> 0 < min num_products (int (length products))"
      using 1(6) by simp
    show ?case
    proof (rule succeeds_bind[OF sample_succeeds[OF k]],
        rule succeeds_bind[OF succeeds_randint_any], simp,
        rule succeeds_bind[OF order_lines_succeeds], goal_cases)
      case (1 order_products shipping_cost res)
      obtain lines t d where res: "res = (lines, t, d)" by (cases res)
      have "products \<noteq> [] \<longrightarrow> lines \<noteq> []"
      proof
        assume "products \<noteq> []"
        from pos[OF this] 1(1) have "0 < int (length order_products)" by linarith
        then have "0 < length order_products" by simp
        with 1(3) show "lines \<noteq> []" unfolding res by auto
      qed
      then show ?case
        unfolding res prod.case
        by (intro succeeds_bind[OF succeeds_choice_any] succeeds_return)
           (simp_all add: shipping_methods_def payment_methods_def)
    qed
  qed
qed

lemma list_all2_fst_ids:
  "list_all2 (\<lambda>i (x, y). f x = i \<and> Q y) idx rows
     \<Longrightarrow> map f (map fst rows) = idx \<and> (\<forall>y\<in>set (map snd rows). Q y)"
  by (induction idx rows rule: list_all2_induct) auto

lemma generate_orders_succeeds:
  assumes "customers \<noteq> []" "stores \<noteq> []"
    and "\<forall>s\<in>set stores. \<exists>e\<in>set employees. emp_STORE_ID e = store_STORE_ID s"
  shows "succeeds (generate_orders today customers stores employees products n)
           (\<lambda>(orders, details). map ord_ORDER_ID orders = [1..n]
              \<and> (products \<noteq> [] \<longrightarrow> 0 < n \<longrightarrow> details \<noteq> []))"
  unfolding generate_orders_def
proof (rule succeeds_bind[OF succeeds_for_each[OF order_row_succeeds[OF assms]]],
    rule succeeds_return, goal_cases)
  case (1 rows)
  from list_all2_fst_ids[OF 1]
  have ids: "map ord_ORDER_ID (map fst rows) = [1..n]"
    and lines: "\<forall>lines\<in>set (map snd rows). products \<noteq> [] \<longrightarrow> lines \<noteq> []"
    by simp_all
  have "concat (map snd rows) \<noteq> []" if "products \<noteq> []" "0 < n"
  proof -
    from ids that(2) have "rows \<noteq> []" by (auto simp: upto_rec1)
    then obtain r rest where "rows = r # rest" by (cases rows) auto
    with lines that(1) show ?thesis by simp
  qed
  with ids show ?case unfolding prod.case by blast
qed

lemma list_all2_rows_blocks:
  "list_all2 (\<lambda>i (x, y). f x = i \<and> P x y) idx rows
     \<Longrightarrow> map f (map fst rows) = idx \<and> list_all2 P (map fst rows) (map snd rows)"
  by (induction idx rows rule: list_all2_induct) auto

lemma generate_orders_results:
  assumes "\<And>i. results (order_row today customers stores employees products i)
                  (\<lambda>(order, lines). ord_ORDER_ID order = i \<and> P order lines)"
  shows "results (generate_orders today customers stores employees products n)
           (\<lambda>(orders, details). map ord_ORDER_ID orders = [1..n]
              \<and> (\<exists>blocks. details = concat blocks \<and> list_all2 P orders blocks))"
  unfolding generate_orders_def
proof (rule results_bind[OF results_for_each[OF assms]], rule results_return, goal_cases)
  case (1 rows)
  from list_all2_rows_blocks[OF 1]
  have "map ord_ORDER_ID (map fst rows) = [1..n]"
    and "list_all2 P (map fst rows) (map snd rows)" by simp_all
  then show ?case unfolding prod.case by blast
qed

lemma filter_concat_block:
  assumes "list_all2 (\<lambda>x b. \<forall>l\<in>set b. key l = f x) xs blocks"
    and "distinct (map f xs)" and "k < length xs"
  shows "filter (\<lambda>l. key l = f (xs ! k)) (concat blocks) = blocks ! k"
  using assms
proof (induction xs blocks arbitrary: k rule: list_all2_induct)
  case Nil
  then show ?case by simp
next
  case (Cons x xs b blocks)
  have keys: "\<forall>l\<in>set (concat blocks). key l \<in> f ` set xs"
    using Cons.hyps(2) by (induction xs blocks rule: list_all2_induct) auto
  have fx: "f x \<notin> f ` set xs" using Cons.prems(1) by simp
  show ?case
  proof (cases k)
    case 0
    have "filter (\<lambda>l. key l = f x) b = b" using Cons.hyps(1) by (simp add: filter_id_conv)
    moreover have "filter (\<lambda>l. key l = f x) (concat blocks) = []"
      unfolding filter_empty_conv
    proof
      fix l assume "l \<in> set (concat blocks)"
      with keys have "key l \<in> f ` set xs" by blast
      with fx show "key l \<noteq> f x" by metis
    qed
    ultimately show ?thesis using 0 by simp
  next
    case (Suc j)
    then have j: "j < length xs" using Cons.prems by simp
    then have "xs ! j \<in> set xs" by simp
    then have "f (xs ! j) \<in> f ` set xs" by (rule imageI)
    with fx have "f (xs ! j) \<noteq> f x" by metis
    then have "filter (\<lambda>l. key l = f (xs ! j)) b = []"
      using Cons.hyps(1) by (auto simp: filter_empty_conv)
    moreover have "filter (\<lambda>l. key l = f (xs ! j)) (concat blocks) = blocks ! j"
      using Cons.IH[OF _ j] Cons.prems(1) by simp
    ultimately show ?thesis using Suc by simp
  qed
qed

subsection \<open>Runs on a steady tape\<close>

lemma succeeds_and_results: "succeeds m P \<Longrightarrow> results m Q \<Longrightarrow> succeeds m (\<lambda>x. P x \<and> Q x)"
  unfolding succeeds_def results_def by blast

lemma steadyD: "steady d m P \<Longrightarrow> \<exists>x. m ([], d) = Inr (x, ([], d)) \<and> P x"
  by (simp add: steady_def)

lemma steady_return: "P x \<Longrightarrow> steady d (return_gen x) P"
  by (simp add: steady_def return_gen_def)

lemma steady_bind:
  assumes "steady d m P" and "\<And>x. P x \<Longrightarrow> steady d (f x) Q"
  shows "steady d (bind_gen m f) Q"
proof -
  from assms(1) obtain x where m: "m ([], d) = Inr (x, ([], d))" and p: "P x"
    unfolding steady_def by blast
  from assms(2)[OF p] obtain y where "f x ([], d) = Inr (y, ([], d))" and "Q y"
    unfolding steady_def by blast
  with m show ?thesis unfolding steady_def by (simp add: bind_gen_def)
qed

lemma steady_weaken: "steady d m P \<Longrightarrow> (\<And>x. P x \<Longrightarrow> Q x) \<Longrightarrow> steady d m Q"
  unfolding steady_def by blast

lemma succeeds_steady: "succeeds m P \<Longrightarrow> steady d m P"
proof -
  assume "succeeds m P"
  then obtain x k where "m ([], d) = Inr (x, (drop k [], d))" "P x"
    unfolding succeeds_def by blast
  then show ?thesis unfolding steady_def by simp
qed

lemma steady_and_results: "steady d m P \<Longrightarrow> results m Q \<Longrightarrow> steady d m (\<lambda>x. P x \<and> Q x)"
  unfolding steady_def results_def by blast

lemma steady_for_each:
  assumes "\<And>i. i \<in> set idx \<Longrightarrow> steady d (body i) (P i)"
  shows "steady d (for_each body idx) (\<lambda>xs. list_all2 P idx xs)"
  using assms
proof (induction idx)
  case Nil
  show ?case by (simp add: steady_return)
next
  case (Cons i rest)
  show ?case
    unfolding for_each.simps
  proof (rule steady_bind[where P = "P i"], goal_cases)
    case 1 show ?case using Cons.prems by simp
  next
    case (2 x)
    show ?case
    proof (rule steady_bind[where P = "list_all2 P rest"], goal_cases)
      case 1 show ?case using Cons by simp
    next
      case (2 xs) with \<open>P i x\<close> show ?case by (simp add: steady_return)
    qed
  qed
qed

lemma steady_choice_job_title: "steady (4 / 10) (choice job_titles) (\<lambda>t. t = ''Manager'')"
  by (simp add: steady_def choice_def randbelow_def bind_gen_def random_random_def
      return_gen_def job_titles_def frac_def)

lemma salary_of_succeeds: "succeeds (salary_of job_title) (\<lambda>x. True)"
  unfolding salary_of_def by (auto intro!: succeeds_randint_any)

lemma employee_row_steady:
  assumes "stores \<noteq> []"
  shows "steady (4 / 10) (employee_row today stores i) is_manager"
  unfolding employee_row_def
  apply (rule steady_bind[OF succeeds_steady[OF succeeds_choice_any]], simp add: first_names_def)
  apply (rule steady_bind[OF succeeds_steady[OF succeeds_choice_any]], simp add: last_names_def)
  apply (rule steady_bind[OF succeeds_steady[OF succeeds_randint_any]], simp)
  apply (rule steady_bind[OF succeeds_steady[OF succeeds_randint_any]], simp)
  apply (rule steady_bind[OF succeeds_steady[OF succeeds_randint_any]], simp)
  apply (rule steady_bind[OF steady_choice_job_title])
  apply (rule steady_bind[OF succeeds_steady[OF succeeds_choice_any]], simp add: departments_def)
  apply (rule steady_bind[OF succeeds_steady[OF succeeds_choice_any[OF assms]]])
  apply (rule steady_bind[OF succeeds_steady[OF salary_of_succeeds]])
  apply (rule steady_bind[OF succeeds_steady[OF succeeds_choice_any]], simp)
  apply (rule steady_return)
  apply (simp add: is_manager_def)
  done

lemma assign_manager_of_manager:
  "is_manager emp \<Longrightarrow> succeeds (assign_manager managers emp) is_manager"
  by (simp add: assign_manager_def succeeds_return)

lemma assign_store_manager_succeeds:
  "succeeds (assign_store_manager employees store) (\<lambda>s. True)"
  unfolding assign_store_manager_def Let_def
  by (auto intro!: succeeds_bind[OF succeeds_choice_any] succeeds_return)

lemma generate_employees_steady:
  assumes "stores \<noteq> []"
  shows "steady (4 / 10) (generate_employees today stores n) (\<lambda>r. True)"
  unfolding generate_employees_def
proof (rule steady_bind[OF steady_for_each[OF employee_row_steady[OF assms]]], goal_cases)
  case (1 employees)
  then have all: "\<And>e. e \<in> set employees \<Longrightarrow> is_manager e"
    using list_all2_all_right[of is_manager] by blast
  show ?case
  proof (rule steady_bind[OF succeeds_steady[OF succeeds_for_each[OF assign_manager_of_manager]]],
      goal_cases)
    case (1 e)
    then show ?case by (rule all)
  next
    case (2 employees')
    show ?case
      by (rule steady_bind[OF succeeds_steady[OF succeeds_for_each[OF
              assign_store_manager_succeeds]]], rule steady_return) simp
  qed
qed

subsection \<open>Employees and the whole data set\<close>

lemma employee_row_results:
  "results (employee_row today stores i)
     (\<lambda>e. emp_EMPLOYEE_ID e = i \<and> (\<exists>s\<in>set stores. emp_STORE_ID e = store_STORE_ID s))"
  unfolding employee_row_def
  apply (rule results_bind[OF results_any])
  apply (rule results_bind[OF results_any])
  apply (rule results_bind[OF results_any])
  apply (rule results_bind[OF results_any])
  apply (rule results_bind[OF results_any])
  apply (rule results_bind[OF results_any])
  apply (rule results_bind[OF results_any])
  apply (rule results_bind[OF results_choice])
  apply (rule results_bind[OF results_any])
  apply (rule results_bind[OF results_any])
  apply (rule results_return)
  apply auto
  done

lemma assign_manager_results:
  "results (assign_manager managers emp)
     (\<lambda>e. emp_EMPLOYEE_ID e = emp_EMPLOYEE_ID emp \<and> emp_STORE_ID e = emp_STORE_ID emp)"
  unfolding assign_manager_def
  by (auto intro!: results_return results_bind[OF results_any])

lemma assign_store_manager_results:
  "results (assign_store_manager employees store) (\<lambda>s. store_STORE_ID s = store_STORE_ID store)"
  unfolding assign_store_manager_def Let_def
  by (auto intro!: results_return results_bind[OF results_any])

lemma list_all2_same_field:
  "list_all2 (\<lambda>x y. f y = f x \<and> h y = h x) xs ys \<Longrightarrow> map f ys = map f xs \<and> map h ys = map h xs"
  by (induction xs ys rule: list_all2_induct) auto

lemma list_all2_same_field1:
  "list_all2 (\<lambda>x y. f y = f x) xs ys \<Longrightarrow> map f ys = map f xs"
  by (induction xs ys rule: list_all2_induct) auto

lemma generate_employees_results:
  "results (generate_employees today stores n)
     (\<lambda>(employees, stores').
        map emp_EMPLOYEE_ID employees = [1..n]
        \<and> (\<forall>e\<in>set employees. \<exists>s\<in>set stores. emp_STORE_ID e = store_STORE_ID s)
        \<and> map store_STORE_ID stores' = map store_STORE_ID stores)"
  unfolding generate_employees_def
proof (rule results_bind[OF results_for_each[OF employee_row_results]],
    rule results_bind[OF results_for_each[OF assign_manager_results]],
    rule results_bind[OF results_for_each[OF assign_store_manager_results]],
    rule results_return, goal_cases)
  case (1 employees employees' stores')
  from list_all2_conj_ids[OF 1(1)]
  have ids: "map emp_EMPLOYEE_ID employees = [1..n]"
    and st: "\<forall>e\<in>set employees. \<exists>s\<in>set stores. emp_STORE_ID e = store_STORE_ID s"
    by simp_all
  from list_all2_same_field[OF 1(2)]
  have same: "map emp_EMPLOYEE_ID employees' = map emp_EMPLOYEE_ID employees"
    "map emp_STORE_ID employees' = map emp_STORE_ID employees" by simp_all
  have "emp_STORE_ID ` set employees' = emp_STORE_ID ` set employees"
    using arg_cong[OF same(2), of set] by simp
  with st have st': "\<forall>e\<in>set employees'. \<exists>s\<in>set stores. emp_STORE_ID e = store_STORE_ID s"
    by (metis (no_types, lifting) imageE imageI)
  from list_all2_same_field1[OF 1(3)]
  have "map store_STORE_ID stores' = map store_STORE_ID stores" .
  with ids same st' show ?case by simp
qed

lemma generate_orders_shipping:
  "results (generate_orders today customers stores employees products n)
     (\<lambda>(orders, details). \<forall>order\<in>set orders. ord_SHIPPING_ADDRESS_ID order = None)"
proof -
  have row: "results (order_row today customers stores employees products i)
               (\<lambda>(order, lines). ord_ORDER_ID order = i
                  \<and> ord_SHIPPING_ADDRESS_ID order = None)" for i
    by (rule results_weaken[OF order_row_results]) auto
  show ?thesis
  proof (rule results_weaken[OF generate_orders_results[OF row]], goal_cases)
    case (1 res)
    obtain orders details where res: "res = (orders, details)" by (cases res)
    from 1 obtain blocks :: "order_detail list list"
      where "list_all2 (\<lambda>order lines. ord_SHIPPING_ADDRESS_ID order = None) orders blocks"
      unfolding res by auto
    then have "\<forall>order\<in>set orders. ord_SHIPPING_ADDRESS_ID order = None"
      by (induction orders blocks rule: list_all2_induct) auto
    then show ?case unfolding res by simp
  qed
qed

lemma generate_all_data_results:
  "results (generate_all_data today nc np ns ne no)
     (\<lambda>data. (\<forall>order\<in>set (data_orders data). ord_SHIPPING_ADDRESS_ID order = None)
        \<and> data_sales_data data
            = sales_data_of (data_customers data) (data_products data) (data_stores data)
                (data_employees data) (data_orders data) (data_order_details data))"
  unfolding generate_all_data_def
proof (rule results_bind[OF results_any], rule results_bind[OF results_any],
    rule results_bind[OF results_any], rule results_bind[OF results_any],
    rule results_bind[OF results_any], goal_cases)
  case (1 customers customer_addresses products stores0 res)
  obtain employees stores where res: "res = (employees, stores)" by (cases res)
  show ?case
    unfolding res prod.case
  proof (rule results_bind[OF generate_orders_shipping], goal_cases)
    case (1 res')
    obtain orders details where res': "res' = (orders, details)" by (cases res')
    show ?case
      unfolding res' prod.case
      by (rule results_return) (use 1 res' in simp)
  qed
qed

lemma upto_nonempty: "0 < n \<Longrightarrow> [1..n] \<noteq> []"
  by (simp add: upto_rec1)

lemma generate_all_data_steady:
  assumes "0 < nc" "0 < ne"
  shows "steady (4 / 10) (generate_all_data today nc np 1 ne no)
           (\<lambda>data. map ord_ORDER_ID (data_orders data) = [1..no])"
  unfolding generate_all_data_def
proof (rule steady_bind[OF succeeds_steady[OF generate_customers_succeeds]],
    rule steady_bind[OF succeeds_steady[OF generate_customer_addresses_succeeds]],
    rule steady_bind[OF succeeds_steady[OF generate_products_succeeds]],
    rule steady_bind[OF succeeds_steady[OF generate_stores_succeeds]], goal_cases)
  case (1 customers customer_addresses products stores0)
  from 1(1) assms(1) have cust: "customers \<noteq> []"
    using upto_nonempty[of nc] by auto
  from 1(4) have ids0: "map store_STORE_ID stores0 = [1]" by (simp add: upto_rec1)
  then have ne0: "stores0 \<noteq> []" by auto
  show ?case
  proof (rule steady_bind[OF steady_and_results[OF generate_employees_steady[OF ne0]
            generate_employees_results]], goal_cases)
    case (1 res)
    obtain employees stores where res: "res = (employees, stores)" by (cases res)
    from 1 have eids: "map emp_EMPLOYEE_ID employees = [1..ne]"
      and est: "\<forall>e\<in>set employees. \<exists>s\<in>set stores0. emp_STORE_ID e = store_STORE_ID s"
      and sids: "map store_STORE_ID stores = map store_STORE_ID stores0"
      unfolding res by simp_all
    from eids assms(2) obtain e where e: "e \<in> set employees"
      using upto_nonempty[of ne] by (cases employees) auto
    have set0: "store_STORE_ID ` set stores0 = {1}"
      using arg_cong[OF ids0, of set] by simp
    with est e have e1: "emp_STORE_ID e = 1" by auto
    have set1: "store_STORE_ID ` set stores = {1}"
      using arg_cong[OF sids, of set] set0 by simp
    from sids ne0 have ne1: "stores \<noteq> []" by auto
    have every: "\<forall>s\<in>set stores. \<exists>e\<in>set employees. emp_STORE_ID e = store_STORE_ID s"
    proof
      fix s assume "s \<in> set stores"
      then have "store_STORE_ID s \<in> store_STORE_ID ` set stores" by (rule imageI)
      then have "store_STORE_ID s = 1" unfolding set1 by simp
      with e e1 show "\<exists>e\<in>set employees. emp_STORE_ID e = store_STORE_ID s" by auto
    qed
    show ?case
      unfolding res prod.case
    proof (rule steady_bind[OF succeeds_steady[OF generate_orders_succeeds[OF cust ne1 every]]],
        goal_cases)
      case (1 res')
      obtain orders details where res': "res' = (orders, details)" by (cases res')
      show ?case
        unfolding res' prod.case
        by (rule steady_return) (use 1 res' in simp)
    qed
  qed
qed

subsection \<open>Runs on the sample rows\<close>

lemma generate_orders_each:
  assumes "\<And>i. results (order_row today customers stores employees products i)
                  (\<lambda>(order, lines). Q order)"
  shows "results (generate_orders today customers stores employees products n)
           (\<lambda>(orders, details). \<forall>order\<in>set orders. Q order)"
proof -
  have row: "results (order_row today customers stores employees products i)
               (\<lambda>(order, lines). ord_ORDER_ID order = i \<and> Q order)" for i
    using results_weaken[OF order_row_results[of today customers stores employees products i]]
      assms[of i] unfolding results_def by blast
  show ?thesis
  proof (rule results_weaken[OF generate_orders_results[OF row]], goal_cases)
    case (1 res)
    obtain orders details where res: "res = (orders, details)" by (cases res)
    from 1 obtain blocks :: "order_detail list list"
      where "list_all2 (\<lambda>order lines. Q order) orders blocks"
      unfolding res by auto
    then have "\<forall>order\<in>set orders. Q order"
      by (induction orders blocks rule: list_all2_induct) auto
    then show ?case unfolding res by simp
  qed
qed

lemma sample_orders_run:
  "\<exists>orders details g'.
     generate_orders 0 [customer_1] [store_1] [employee_1] [product_1] 2 ([], 0)
       = Inr ((orders, details), g')
     \<and> map ord_ORDER_ID orders = [1, 2] \<and> details \<noteq> []"
proof -
  have "\<forall>s\<in>set [store_1]. \<exists>e\<in>set [employee_1]. emp_STORE_ID e = store_STORE_ID s"
    by (simp add: store_1_def employee_1_def)
  from succeedsD[OF generate_orders_succeeds[OF _ _ this, of "[customer_1]" 0 "[product_1]" 2],
      of "([], 0)"]
  show ?thesis by (auto simp: upto_rec1)
qed

lemma sample_employees_run:
  "\<exists>employees stores.
     generate_employees 0 [store_1, store_2] 3 ([], 4 / 10)
       = Inr ((employees, stores), ([], 4 / 10))
     \<and> map emp_EMPLOYEE_ID employees = [1, 2, 3]"
proof -
  have "[store_1, store_2] \<noteq> []" by simp
  from steadyD[OF steady_and_results[OF generate_employees_steady[OF this]
        generate_employees_results], of 0 3]
  show ?thesis by (auto simp: upto_rec1)
qed

lemma sample_data_run:
  "\<exists>data. generate_all_data 0 2 3 1 2 2 ([], 4 / 10) = Inr (data, ([], 4 / 10))
     \<and> map ord_ORDER_ID (data_orders data) = [1, 2]"
  using steadyD[OF generate_all_data_steady[of 2 2 0 3 2]] by (simp add: upto_rec1)

subsection \<open>A run evaluated on the sample rows\<close>

lemma random_random_steady: "random_random ([], d) = Inr (frac d, ([], d))"
  by (simp add: random_random_def)

lemma randbelow_steady: "randbelow n ([], d) = Inr (nat \<lfloor>frac d * of_nat n\<rfloor>, ([], d))"
  by (simp add: randbelow_def bind_gen_def random_random_steady return_gen_def)

lemma randint_steady:
  "a \<le> b \<Longrightarrow> randint a b ([], d)
     = Inr (a + int (nat \<lfloor>frac d * of_nat (nat (b - a + 1))\<rfloor>), ([], d))"
  by (simp add: randint_def bind_gen_def randbelow_steady return_gen_def)

lemma uniform_steady: "uniform a b ([], d) = Inr (a + (b - a) * frac d, ([], d))"
  by (simp add: uniform_def bind_gen_def random_random_steady return_gen_def)

lemma choice_steady:
  "seq \<noteq> [] \<Longrightarrow> choice seq ([], d) = Inr (seq ! nat \<lfloor>frac d * of_nat (length seq)\<rfloor>, ([], d))"
  by (simp add: choice_def bind_gen_def randbelow_steady return_gen_def)

lemma bind_gen_eval: "m g = Inr (x, g') \<Longrightarrow> f x g' = r \<Longrightarrow> bind_gen m f g = r"
  by (simp add: bind_gen_def)

lemma bind_gen_fails: "m g = Inl e \<Longrightarrow> bind_gen m f g = Inl e"
  by (simp add: bind_gen_def)

lemma frac_1024: "frac (1 / 1024 :: real) = 1 / 1024"
  by (simp add: frac_def)

lemma order_lines_sample:
  "order_lines [product_1] 1 0 0 ([], 1 / 1024)
     = Inr (([sample_line], 49990234375 / 1000000, 9765625 / 1000000), ([], 1 / 1024))"
  by (simp add: bind_gen_def return_gen_def randint_steady uniform_steady frac_1024
      product_1_def sample_line_def line_amount_def line_discount_def round2_def Let_def)

lemma sample_single: "sample [p] 1 ([], d) = Inr ([p], ([], d))"
  by (simp add: sample_def bind_gen_def return_gen_def randbelow_steady remove_nth_def)

lemma ship_date_of_sample: "ship_date_of 0 ([], 1 / 1024) = Inr (Some 1, ([], 1 / 1024))"
  by (simp add: ship_date_of_def bind_gen_def return_gen_def random_random_steady
      randint_steady frac_1024)

lemma order_status_of_sample: "order_status_of 0 (Some 1) g = Inr (''Shipped'', g)"
  by (simp add: order_status_of_def return_gen_def)

lemma order_row_sample:
  "order_row 0 [customer_1] [store_1] [employee_1] [product_1] 1 ([], 1 / 1024)
     = Inr ((sample_order, [sample_line]), ([], 1 / 1024))"
  unfolding order_row_def
  apply (rule bind_gen_eval, rule choice_steady, simp)
  apply (rule bind_gen_eval, rule choice_steady, simp)
  apply (simp add: store_1_def employee_1_def customer_1_def)
  apply (rule bind_gen_eval, rule choice_steady, simp)
  apply (rule bind_gen_eval, rule randint_steady, simp)
  apply (rule bind_gen_eval, rule randint_steady, simp)
  apply (simp add: frac_1024)
  apply (rule bind_gen_eval, rule ship_date_of_sample)
  apply (rule bind_gen_eval, rule order_status_of_sample)
  apply (rule bind_gen_eval, rule randint_steady, simp)
  apply (simp add: frac_1024)
  apply (rule bind_gen_eval, rule sample_single)
  apply (rule bind_gen_eval, rule randint_steady, simp)
  apply (rule bind_gen_eval, rule order_lines_sample)
  apply (simp add: frac_1024)
  apply (rule bind_gen_eval, rule choice_steady, simp add: shipping_methods_def)
  apply (rule bind_gen_eval, rule choice_steady, simp add: payment_methods_def)
  apply (simp add: return_gen_def frac_1024 shipping_methods_def payment_methods_def
      sample_order_def round2_def Let_def)
  done

lemma generate_orders_sample:
  "generate_orders 0 [customer_1] [store_1] [employee_1] [product_1] 1 ([], 1 / 1024)
     = Inr (([sample_order], [sample_line]), ([], 1 / 1024))"
  by (simp add: generate_orders_def upto_rec1 bind_gen_def return_gen_def order_row_sample)

lemma results_conj: "results m P \<Longrightarrow> results m Q \<Longrightarrow> results m (\<lambda>x. P x \<and> Q x)"
  unfolding results_def by blast

lemma list_all2_nthD2:
  "list_all2 P xs ys \<Longrightarrow> x \<in> set xs \<Longrightarrow> \<exists>k<length xs. xs ! k = x \<and> P x (ys ! k)"
  by (auto simp: list_all2_conv_all_nth in_set_conv_nth)

lemma generate_orders_lines_of:
  assumes "\<And>i. results (order_row today customers stores employees products i)
                  (\<lambda>(order, lines). P order lines)"
  shows "results (generate_orders today customers stores employees products n)
           (\<lambda>(orders, details). \<forall>order\<in>set orders.
              P order (filter (\<lambda>l. line_ORDER_ID l = ord_ORDER_ID order) details))"
proof -
  have ids: "results (order_row today customers stores employees products i)
               (\<lambda>(order, lines). ord_ORDER_ID order = i
                  \<and> (\<forall>l\<in>set lines. line_ORDER_ID l = ord_ORDER_ID order))" for i
    by (rule results_weaken[OF order_row_results]) auto
  have row: "results (order_row today customers stores employees products i)
               (\<lambda>(order, lines). ord_ORDER_ID order = i
                  \<and> ((\<forall>l\<in>set lines. line_ORDER_ID l = ord_ORDER_ID order)
                       \<and> P order lines))" for i
    by (rule results_weaken[OF results_conj[OF ids assms]]) auto
  show ?thesis
  proof (rule results_weaken[OF generate_orders_results[OF row]], goal_cases)
    case (1 res)
    obtain orders details where res: "res = (orders, details)" by (cases res)
    from 1 obtain blocks :: "order_detail list list"
      where ord_ids: "map ord_ORDER_ID orders = [1..n]"
        and details: "details = concat blocks"
        and all: "list_all2 (\<lambda>order lines.
                     (\<forall>l\<in>set lines. line_ORDER_ID l = ord_ORDER_ID order) \<and> P order lines)
                   orders blocks"
      unfolding res by auto
    have keys: "list_all2 (\<lambda>order lines. \<forall>l\<in>set lines. line_ORDER_ID l = ord_ORDER_ID order)
                  orders blocks"
      by (rule list_all2_mono[OF all]) simp
    have dist: "distinct (map ord_ORDER_ID orders)" unfolding ord_ids by simp
    have "P order (filter (\<lambda>l. line_ORDER_ID l = ord_ORDER_ID order) details)"
      if "order \<in> set orders" for order
    proof -
      from list_all2_nthD2[OF all that] obtain k
        where k: "k < length orders" "orders ! k = order" "P order (blocks ! k)" by blast
      from filter_concat_block[OF keys dist k(1)] k(2)
      have "filter (\<lambda>l. line_ORDER_ID l = ord_ORDER_ID order) details = blocks ! k"
        unfolding details by simp
      with k(3) show ?thesis by simp
    qed
    then show ?case unfolding res by simp
  qed
qed

lemma generate_orders_each_line:
  assumes "\<And>i. results (order_row today customers stores employees products i)
                  (\<lambda>(order, lines). \<forall>l\<in>set lines. L l)"
  shows "results (generate_orders today customers stores employees products n)
           (\<lambda>(orders, details). \<forall>l\<in>set details. L l)"
proof -
  have row: "results (order_row today customers stores employees products i)
               (\<lambda>(order, lines). ord_ORDER_ID order = i \<and> (\<forall>l\<in>set lines. L l))" for i
    by (rule results_weaken[OF results_conj[OF order_row_results assms]]) auto
  show ?thesis
  proof (rule results_weaken[OF generate_orders_results[OF row]], goal_cases)
    case (1 res)
    obtain orders details where res: "res = (orders, details)" by (cases res)
    from 1 obtain blocks :: "order_detail list list"
      where details: "details = concat blocks"
        and all: "list_all2 (\<lambda>order lines. \<forall>l\<in>set lines. L l) orders blocks"
      unfolding res by auto
    from all have "\<forall>b\<in>set blocks. \<forall>l\<in>set b. L l"
      by (induction orders blocks rule: list_all2_induct) auto
    then show ?case unfolding res details by auto
  qed
qed

subsection \<open>Amounts and their rounding\<close>

lemma round2_grid_sum:
  "round2 (round2 a - round2 b + round2 c + of_int s)
     = round2 a - round2 b + round2 c + of_int s"
proof -
  obtain ka :: int where ka: "round2 a = of_int ka / 100" by (rule round2_cases)
  obtain kb :: int where kb: "round2 b = of_int kb / 100" by (rule round2_cases)
  obtain kc :: int where kc: "round2 c = of_int kc / 100" by (rule round2_cases)
  have eq: "round2 a - round2 b + round2 c + of_int s
              = of_int (ka - kb + kc + 100 * s) / 100"
    unfolding ka kb kc by (simp add: field_simps)
  show ?thesis unfolding eq by (rule round2_hundredth)
qed

lemma final_amount_reconciles:
  "\<bar>round2 (t + t * (15 / 100) + of_int s - d)
      - round2 (round2 t - round2 d + round2 (t * (15 / 100)) + of_int s)\<bar> \<le> 2 / 100"
proof -
  have 1: "\<bar>round2 (t + t * (15 / 100) + of_int s - d) - (t + t * (15 / 100) + of_int s - d)\<bar>
             \<le> 1 / 200" by (rule round2_error)
  have 2: "\<bar>round2 t - t\<bar> \<le> 1 / 200" by (rule round2_error)
  have 3: "\<bar>round2 d - d\<bar> \<le> 1 / 200" by (rule round2_error)
  have 4: "\<bar>round2 (t * (15 / 100)) - t * (15 / 100)\<bar> \<le> 1 / 200" by (rule round2_error)
  show ?thesis unfolding round2_grid_sum using 1 2 3 4 by linarith
qed

lemma tax_is_fraction: "\<bar>round2 (t * (15 / 100)) - 15 / 100 * round2 t\<bar> \<le> 1 / 100"
proof -
  have 2: "\<bar>round2 t - t\<bar> \<le> 1 / 200" by (rule round2_error)
  have 4: "\<bar>round2 (t * (15 / 100)) - t * (15 / 100)\<bar> \<le> 1 / 200" by (rule round2_error)
  show ?thesis using 2 4 by linarith
qed

lemma subtotal_of_lines:
  assumes "\<bar>t - s\<bar> \<le> of_nat n / 200"
  shows "\<bar>round2 t - s\<bar> \<le> (of_nat n + 1) / 200"
proof -
  have "\<bar>round2 t - s\<bar> \<le> 1 / 200 + of_nat n / 200"
    by (rule abs_sum_le[OF assms round2_error[of t]]) simp
  then show ?thesis unfolding add_divide_distrib by linarith
qed

lemma round2_twenty: "round2 20 = 20"
  using round2_of_int[of 20] by simp

lemma discount_percent_range:
  assumes "0 \<le> dp" "dp \<le> 2 / 10"
  shows "0 \<le> round2 (dp * 100) \<and> round2 (dp * 100) \<le> 20"
proof -
  have "round2 0 \<le> round2 (dp * 100)" using assms by (intro round2_mono) simp
  moreover have "round2 (dp * 100) \<le> round2 20" using assms by (intro round2_mono) simp
  ultimately show ?thesis by (simp add: round2_twenty)
qed

lemma line_amount_recomputed:
  "\<bar>round2 (p * q * (1 - dp)) - round2 (p * q * (1 - round2 (dp * 100) / 100))\<bar>
     \<le> \<bar>p * q\<bar> / 20000 + 1 / 100"
proof -
  have e: "\<bar>round2 (dp * 100) - dp * 100\<bar> \<le> 1 / 200" by (rule round2_error)
  have eq: "p * q * (1 - dp) - p * q * (1 - round2 (dp * 100) / 100)
          = (p * q) * ((round2 (dp * 100) - dp * 100) / 100)"
    by (simp add: field_simps)
  have "\<bar>p * q * (1 - dp) - p * q * (1 - round2 (dp * 100) / 100)\<bar>
          = \<bar>p * q\<bar> * (\<bar>round2 (dp * 100) - dp * 100\<bar> / 100)"
    unfolding eq abs_mult[of "p * q"] abs_divide by simp
  also have "\<dots> \<le> \<bar>p * q\<bar> * ((1 / 200) / 100)"
    using e by (intro mult_left_mono divide_right_mono) auto
  finally have d: "\<bar>p * q * (1 - dp) - p * q * (1 - round2 (dp * 100) / 100)\<bar>
                     \<le> \<bar>p * q\<bar> / 20000" by simp
  have 1: "\<bar>round2 (p * q * (1 - dp)) - p * q * (1 - dp)\<bar> \<le> 1 / 200" by (rule round2_error)
  have 2: "\<bar>round2 (p * q * (1 - round2 (dp * 100) / 100))
              - p * q * (1 - round2 (dp * 100) / 100)\<bar> \<le> 1 / 200" by (rule round2_error)
  show ?thesis using d 1 2 by linarith
qed

lemma order_row_money:
  "results (order_row today customers stores employees products i) (\<lambda>(order, lines).
       \<bar>ord_FINAL_AMOUNT order
          - round2 (ord_TOTAL_AMOUNT order - ord_DISCOUNT_AMOUNT order + ord_TAX_AMOUNT order
                    + of_int (ord_SHIPPING_COST order))\<bar> \<le> 2 / 100
     \<and> \<bar>ord_TOTAL_AMOUNT order - sum_list (map line_TOTAL_LINE_AMOUNT lines)\<bar>
          \<le> (of_nat (length lines) + 1) / 200
     \<and> \<bar>ord_TAX_AMOUNT order - 15 / 100 * ord_TOTAL_AMOUNT order\<bar> \<le> 1 / 100
     \<and> \<bar>ord_DISCOUNT_AMOUNT order
          - sum_list (map (\<lambda>l. line_UNIT_PRICE l * of_int (line_QUANTITY_ORDERED l)
                                 - line_TOTAL_LINE_AMOUNT l) lines)\<bar>
          \<le> (of_nat (length lines) + 1) / 200)"
proof (rule results_weaken[OF order_row_results], goal_cases)
  case (1 res)
  obtain order lines where res: "res = (order, lines)" by (cases res)
  from 1 obtain t d where
    t: "\<bar>t - sum_list (map line_TOTAL_LINE_AMOUNT lines)\<bar> \<le> of_nat (length lines) / 200"
    and d: "\<bar>d - sum_list (map (\<lambda>l. line_UNIT_PRICE l * of_int (line_QUANTITY_ORDERED l)
                                        - line_TOTAL_LINE_AMOUNT l) lines)\<bar>
              \<le> of_nat (length lines) / 200"
    and total: "ord_TOTAL_AMOUNT order = round2 t"
    and tax: "ord_TAX_AMOUNT order = round2 (t * (15 / 100))"
    and disc: "ord_DISCOUNT_AMOUNT order = round2 d"
    and final: "ord_FINAL_AMOUNT order
             = round2 (t + t * (15 / 100) + of_int (ord_SHIPPING_COST order) - d)"
    unfolding res by auto
  show ?case
    unfolding res prod.case total tax disc final
    using final_amount_reconciles[of t "ord_SHIPPING_COST order" d] tax_is_fraction[of t]
      subtotal_of_lines[OF t] subtotal_of_lines[OF d]
    by blast
qed

lemma order_row_line_amounts:
  "results (order_row today customers stores employees products i) (\<lambda>(order, lines).
     \<forall>l\<in>set lines.
       0 \<le> line_DISCOUNT_PERCENT l \<and> line_DISCOUNT_PERCENT l \<le> 20
       \<and> (\<exists>d. 0 \<le> d \<and> d \<le> 2 / 10
             \<and> line_DISCOUNT_PERCENT l = round2 (d * 100)
             \<and> line_TOTAL_LINE_AMOUNT l
                 = round2 (line_UNIT_PRICE l * of_int (line_QUANTITY_ORDERED l) * (1 - d)))
       \<and> \<bar>line_TOTAL_LINE_AMOUNT l
            - round2 (line_UNIT_PRICE l * of_int (line_QUANTITY_ORDERED l)
                      * (1 - line_DISCOUNT_PERCENT l / 100))\<bar>
          \<le> \<bar>line_UNIT_PRICE l * of_int (line_QUANTITY_ORDERED l)\<bar> / 20000 + 1 / 100)"
proof (rule results_weaken[OF order_row_results], goal_cases)
  case (1 res)
  obtain order lines where res: "res = (order, lines)" by (cases res)
  have "0 \<le> line_DISCOUNT_PERCENT l \<and> line_DISCOUNT_PERCENT l \<le> 20
       \<and> (\<exists>d. 0 \<le> d \<and> d \<le> 2 / 10
             \<and> line_DISCOUNT_PERCENT l = round2 (d * 100)
             \<and> line_TOTAL_LINE_AMOUNT l
                 = round2 (line_UNIT_PRICE l * of_int (line_QUANTITY_ORDERED l) * (1 - d)))
       \<and> \<bar>line_TOTAL_LINE_AMOUNT l
            - round2 (line_UNIT_PRICE l * of_int (line_QUANTITY_ORDERED l)
                      * (1 - line_DISCOUNT_PERCENT l / 100))\<bar>
          \<le> \<bar>line_UNIT_PRICE l * of_int (line_QUANTITY_ORDERED l)\<bar> / 20000 + 1 / 100"
    if "l \<in> set lines" for l
  proof -
    from 1 that obtain dp where dp: "0 \<le> dp" "dp \<le> 2 / 10"
      and pc: "line_DISCOUNT_PERCENT l = round2 (dp * 100)"
      and am: "line_TOTAL_LINE_AMOUNT l
                 = round2 (line_amount (line_UNIT_PRICE l) (line_QUANTITY_ORDERED l) dp)"
      unfolding res by auto
    from am have am': "line_TOTAL_LINE_AMOUNT l
                 = round2 (line_UNIT_PRICE l * of_int (line_QUANTITY_ORDERED l) * (1 - dp))"
      by (simp add: line_amount_def)
    from discount_percent_range[OF dp] pc
    have rng: "0 \<le> line_DISCOUNT_PERCENT l \<and> line_DISCOUNT_PERCENT l \<le> 20" by simp
    have bound: "\<bar>line_TOTAL_LINE_AMOUNT l
            - round2 (line_UNIT_PRICE l * of_int (line_QUANTITY_ORDERED l)
                      * (1 - line_DISCOUNT_PERCENT l / 100))\<bar>
          \<le> \<bar>line_UNIT_PRICE l * of_int (line_QUANTITY_ORDERED l)\<bar> / 20000 + 1 / 100"
      unfolding am' pc by (rule line_amount_recomputed)
    from rng dp pc am' bound show ?thesis by blast
  qed
  then show ?case unfolding res by simp
qed

subsection \<open>Failing runs and empty tables\<close>

lemma bind_gen_succeeds_fails:
  assumes "succeeds m P" and "\<And>x g'. P x \<Longrightarrow> f x g' = Inl e"
  shows "bind_gen m f g = Inl e"
proof -
  from succeedsD[OF assms(1), of g] obtain x g' where "m g = Inr (x, g')" "P x" by blast
  with assms(2) show ?thesis by (simp add: bind_gen_def)
qed

lemma choice_nothing: "choice [] g = Inl IndexError"
  by (simp add: choice_def raise_gen_def)

lemma for_each_fails: "body i g = Inl e \<Longrightarrow> for_each body (i # rest) g = Inl e"
  by (simp add: bind_gen_def)

lemma employee_row_no_stores: "employee_row today [] i g = Inl IndexError"
  unfolding employee_row_def
  apply (rule bind_gen_succeeds_fails[OF succeeds_choice_any], simp add: first_names_def)
  apply (rule bind_gen_succeeds_fails[OF succeeds_choice_any], simp add: last_names_def)
  apply (rule bind_gen_succeeds_fails[OF succeeds_randint_any], simp)
  apply (rule bind_gen_succeeds_fails[OF succeeds_randint_any], simp)
  apply (rule bind_gen_succeeds_fails[OF succeeds_randint_any], simp)
  apply (rule bind_gen_succeeds_fails[OF succeeds_choice_any], simp add: job_titles_def)
  apply (rule bind_gen_succeeds_fails[OF succeeds_choice_any], simp add: departments_def)
  apply (rule bind_gen_fails)
  apply (rule choice_nothing)
  done

lemma generate_employees_no_stores:
  assumes "0 < n"
  shows "generate_employees today [] n g = Inl IndexError"
proof -
  have "[1..n] = 1 # [2..n]" using assms by (simp add: upto_rec1)
  moreover have "for_each (employee_row today []) (1 # [2..n]) g = Inl IndexError"
    by (rule for_each_fails) (rule employee_row_no_stores)
  ultimately have "for_each (employee_row today []) [1..n] g = Inl IndexError" by simp
  then show ?thesis unfolding generate_employees_def by (rule bind_gen_fails)
qed

lemma store_managers_of_no_employees:
  "for_each (assign_store_manager []) stores g = Inr (stores, g)"
  by (induction stores) (simp_all add: assign_store_manager_def bind_gen_def return_gen_def)

lemma generate_employees_no_count:
  assumes "n \<le> 0"
  shows "generate_employees today stores n g = Inr (([], stores), g)"
  using assms
  by (simp add: generate_employees_def bind_gen_def return_gen_def
      store_managers_of_no_employees)

lemma generate_orders_no_count:
  assumes "n \<le> 0"
  shows "generate_orders today customers stores employees products n g = Inr (([], []), g)"
  using assms by (simp add: generate_orders_def bind_gen_def return_gen_def)

lemma frac_six_tenths: "frac (6 / 10 :: real) = 6 / 10"
  by (simp add: frac_def)

lemma order_row_no_employee:
  "order_row 0 [customer_1] [store_1, store_2] [employee_1] [product_1] 1 ([], 6 / 10)
     = Inl IndexError"
  unfolding order_row_def
  apply (rule bind_gen_eval, rule choice_steady, simp)
  apply (rule bind_gen_eval, rule choice_steady, simp)
  apply (simp add: frac_six_tenths store_1_def store_2_def employee_1_def)
  apply (rule bind_gen_fails)
  apply (rule choice_nothing)
  done

lemma generate_orders_no_employee:
  "generate_orders 0 [customer_1] [store_1, store_2] [employee_1] [product_1] 1 ([], 6 / 10)
     = Inl IndexError"
proof -
  have "[1..1::int] = [1]" by (simp add: upto_rec1)
  moreover have "for_each (order_row 0 [customer_1] [store_1, store_2] [employee_1] [product_1])
                   [1] ([], 6 / 10) = Inl IndexError"
    by (rule for_each_fails) (rule order_row_no_employee)
  ultimately show ?thesis unfolding generate_orders_def by (intro bind_gen_fails) simp
qed

subsection \<open>The flattened view\<close>

lemma find_first:
  "find P xs = Some x
     \<Longrightarrow> \<exists>before after. xs = before @ x # after \<and> (\<forall>y\<in>set before. \<not> P y) \<and> P x"
proof (induction xs)
  case Nil
  then show ?case by simp
next
  case (Cons a xs)
  show ?case
  proof (cases "P a")
    case True
    with Cons.prems have "a = x" by simp
    with True show ?thesis by (intro exI[of _ "[]"] exI[of _ xs]) simp
  next
    case False
    with Cons.prems have "find P xs = Some x" by simp
    from Cons.IH[OF this] obtain before after
      where "xs = before @ x # after" "\<forall>y\<in>set before. \<not> P y" "P x" by blast
    with False show ?thesis by (intro exI[of _ "a # before"] exI[of _ after]) simp
  qed
qed

lemma sales_rows_of_first_line:
  "length (sales_rows_of customers products stores employees details order) \<le> 1
   \<and> (\<forall>r\<in>set (sales_rows_of customers products stores employees details order).
         \<exists>l before after.
           details = before @ l # after
           \<and> (\<forall>x\<in>set before. line_ORDER_ID x \<noteq> ord_ORDER_ID order)
           \<and> line_ORDER_ID l = ord_ORDER_ID order
           \<and> sale_ORDER_ID r = ord_ORDER_ID order
           \<and> sale_PRODUCT_ID r = line_PRODUCT_ID l
           \<and> sale_QUANTITY_ORDERED r = line_QUANTITY_ORDERED l
           \<and> sale_UNIT_PRICE r = line_UNIT_PRICE l
           \<and> sale_DISCOUNT_PERCENT r = line_DISCOUNT_PERCENT l
           \<and> sale_TOTAL_AMOUNT r = line_TOTAL_LINE_AMOUNT l)"
proof (cases "find (\<lambda>od. line_ORDER_ID od = ord_ORDER_ID order) details")
  case None
  then show ?thesis by (simp add: sales_rows_of_def)
next
  case (Some l)
  from find_first[OF Some] obtain before after
    where first: "details = before @ l # after"
      "\<forall>x\<in>set before. line_ORDER_ID x \<noteq> ord_ORDER_ID order"
      "line_ORDER_ID l = ord_ORDER_ID order" by blast
  have len: "length (sales_rows_of customers products stores employees details order) \<le> 1"
    by (simp add: sales_rows_of_def Some Let_def)
  have fields: "sale_ORDER_ID r = ord_ORDER_ID order
           \<and> sale_PRODUCT_ID r = line_PRODUCT_ID l
           \<and> sale_QUANTITY_ORDERED r = line_QUANTITY_ORDERED l
           \<and> sale_UNIT_PRICE r = line_UNIT_PRICE l
           \<and> sale_DISCOUNT_PERCENT r = line_DISCOUNT_PERCENT l
           \<and> sale_TOTAL_AMOUNT r = line_TOTAL_LINE_AMOUNT l"
    if "r \<in> set (sales_rows_of customers products stores employees details order)" for r
    using that by (simp add: sales_rows_of_def Some Let_def split: if_splits)
  have "\<exists>l before after.
           details = before @ l # after
           \<and> (\<forall>x\<in>set before. line_ORDER_ID x \<noteq> ord_ORDER_ID order)
           \<and> line_ORDER_ID l = ord_ORDER_ID order
           \<and> sale_ORDER_ID r = ord_ORDER_ID order
           \<and> sale_PRODUCT_ID r = line_PRODUCT_ID l
           \<and> sale_QUANTITY_ORDERED r = line_QUANTITY_ORDERED l
           \<and> sale_UNIT_PRICE r = line_UNIT_PRICE l
           \<and> sale_DISCOUNT_PERCENT r = line_DISCOUNT_PERCENT l
           \<and> sale_TOTAL_AMOUNT r = line_TOTAL_LINE_AMOUNT l"
    if "r \<in> set (sales_rows_of customers products stores employees details order)" for r
    apply (rule exI[of _ l], rule exI[of _ before], rule exI[of _ after])
    using first fields[OF that] apply simp
    done
  with len show ?thesis by blast
qed

lemma list_all2_map_right: "(\<And>x. x \<in> set xs \<Longrightarrow> Q x (f x)) \<Longrightarrow> list_all2 Q xs (map f xs)"
  by (induction xs) auto

lemma sales_data_of_first_lines:
  "\<exists>rows. sales_data_of customers products stores employees orders details = concat rows
     \<and> list_all2 (\<lambda>order rs. length rs \<le> 1
          \<and> (\<forall>r\<in>set rs. \<exists>l before after.
                details = before @ l # after
                \<and> (\<forall>x\<in>set before. line_ORDER_ID x \<noteq> ord_ORDER_ID order)
                \<and> line_ORDER_ID l = ord_ORDER_ID order
                \<and> sale_ORDER_ID r = ord_ORDER_ID order
                \<and> sale_PRODUCT_ID r = line_PRODUCT_ID l
                \<and> sale_QUANTITY_ORDERED r = line_QUANTITY_ORDERED l
                \<and> sale_UNIT_PRICE r = line_UNIT_PRICE l
                \<and> sale_DISCOUNT_PERCENT r = line_DISCOUNT_PERCENT l
                \<and> sale_TOTAL_AMOUNT r = line_TOTAL_LINE_AMOUNT l)) orders rows"
  unfolding sales_data_of_def
  apply (rule exI[of _ "map (sales_rows_of customers products stores employees details) orders"])
  apply (rule conjI, rule refl)
  apply (rule list_all2_map_right)
  apply (rule sales_rows_of_first_line)
  done

subsection \<open>Runs evaluated at the second store and without products\<close>

lemma frac_three_fifths: "frac (3 / 5 :: real) = 3 / 5"
  by (simp add: frac_def)

lemma order_lines_at_store_2:
  "order_lines [product_2, product_1] 1 0 0 ([], 3 / 5)
     = Inr (([first_line_at_store_2, second_line_at_store_2], 352000, 48000), ([], 3 / 5))"
  by (simp add: bind_gen_def return_gen_def randint_steady uniform_steady frac_three_fifths
      product_1_def product_2_def first_line_at_store_2_def second_line_at_store_2_def
      line_amount_def line_discount_def round2_def Let_def)

lemma sample_both_products:
  "sample [product_1, product_2] 2 ([], 3 / 5) = Inr ([product_2, product_1], ([], 3 / 5))"
  by (simp add: sample_def numeral_2_eq_2 bind_gen_def return_gen_def randbelow_steady
      remove_nth_def frac_three_fifths)

lemma ship_date_of_at_store_2: "ship_date_of 562 ([], 3 / 5) = Inr (Some 567, ([], 3 / 5))"
  by (simp add: ship_date_of_def bind_gen_def return_gen_def random_random_steady
      randint_steady frac_three_fifths)

lemma order_status_of_at_store_2:
  "order_status_of 1000 (Some 567) ([], 3 / 5) = Inr (''Shipped'', ([], 3 / 5))"
  by (simp add: order_status_of_def choice_steady frac_three_fifths)

lemma order_row_at_store_2:
  "order_row 1000 [customer_1, customer_2] [store_1, store_2]
     [employee_2, employee_1, employee_3] [product_1, product_2] 1 ([], 3 / 5)
     = Inr ((order_at_store_2, [first_line_at_store_2, second_line_at_store_2]), ([], 3 / 5))"
  unfolding order_row_def
  apply (rule bind_gen_eval, rule choice_steady, simp)
  apply (rule bind_gen_eval, rule choice_steady, simp)
  apply (simp add: frac_three_fifths store_1_def store_2_def employee_1_def employee_2_def
      employee_3_def customer_1_def customer_2_def)
  apply (rule bind_gen_eval, rule choice_steady, simp)
  apply (rule bind_gen_eval, rule randint_steady, simp)
  apply (rule bind_gen_eval, rule randint_steady, simp)
  apply (simp add: frac_three_fifths)
  apply (rule bind_gen_eval, rule ship_date_of_at_store_2)
  apply (rule bind_gen_eval, rule order_status_of_at_store_2)
  apply (rule bind_gen_eval, rule randint_steady, simp)
  apply (simp add: frac_three_fifths)
  apply (rule bind_gen_eval, rule sample_both_products)
  apply (rule bind_gen_eval, rule randint_steady, simp)
  apply (rule bind_gen_eval, rule order_lines_at_store_2)
  apply (simp add: frac_three_fifths)
  apply (rule bind_gen_eval, rule choice_steady, simp add: shipping_methods_def)
  apply (rule bind_gen_eval, rule choice_steady, simp add: payment_methods_def)
  apply (simp add: return_gen_def frac_three_fifths shipping_methods_def payment_methods_def
      order_at_store_2_def round2_def Let_def)
  done

lemma generate_orders_at_store_2:
  "generate_orders 1000 [customer_1, customer_2] [store_1, store_2]
     [employee_2, employee_1, employee_3] [product_1, product_2] 1 ([], 3 / 5)
     = Inr (([order_at_store_2], [first_line_at_store_2, second_line_at_store_2]),
            ([], 3 / 5))"
  by (simp add: generate_orders_def upto_rec1 bind_gen_def return_gen_def order_row_at_store_2)

lemma sales_data_at_store_2:
  "sales_data_of [customer_1, customer_2] [product_1, product_2] [store_1, store_2]
     [employee_2, employee_1, employee_3] [order_at_store_2]
     [first_line_at_store_2, second_line_at_store_2] = [sale_at_store_2]"
  by (simp add: sales_data_of_def sales_rows_of_def order_at_store_2_def
      first_line_at_store_2_def second_line_at_store_2_def sale_at_store_2_def
      customer_1_def customer_2_def product_1_def product_2_def store_1_def store_2_def
      employee_1_def employee_2_def employee_3_def Let_def)

lemma order_lines_no_products:
  "order_lines [] 1 0 0 g = Inr (([], 0, 0), g)"
  by (simp add: return_gen_def)

lemma sample_no_products: "sample [] 0 g = Inr ([], g)"
  by (simp add: sample_def return_gen_def)

lemma order_row_no_products:
  "order_row 0 [customer_1] [store_1] [employee_1] [] 1 ([], 1 / 1024)
     = Inr ((order_without_lines, []), ([], 1 / 1024))"
  unfolding order_row_def
  apply (rule bind_gen_eval, rule choice_steady, simp)
  apply (rule bind_gen_eval, rule choice_steady, simp)
  apply (simp add: store_1_def employee_1_def customer_1_def)
  apply (rule bind_gen_eval, rule choice_steady, simp)
  apply (rule bind_gen_eval, rule randint_steady, simp)
  apply (rule bind_gen_eval, rule randint_steady, simp)
  apply (simp add: frac_1024)
  apply (rule bind_gen_eval, rule ship_date_of_sample)
  apply (rule bind_gen_eval, rule order_status_of_sample)
  apply (rule bind_gen_eval, rule randint_steady, simp)
  apply (simp add: frac_1024)
  apply (rule bind_gen_eval, rule sample_no_products)
  apply (rule bind_gen_eval, rule randint_steady, simp)
  apply (rule bind_gen_eval, rule order_lines_no_products)
  apply (simp add: frac_1024)
  apply (rule bind_gen_eval, rule choice_steady, simp add: shipping_methods_def)
  apply (rule bind_gen_eval, rule choice_steady, simp add: payment_methods_def)
  apply (simp add: return_gen_def frac_1024 shipping_methods_def payment_methods_def
      order_without_lines_def sample_order_def Let_def)
  done

lemma generate_orders_no_products:
  "generate_orders 0 [customer_1] [store_1] [employee_1] [] 1 ([], 1 / 1024)
     = Inr (([order_without_lines], []), ([], 1 / 1024))"
  by (simp add: generate_orders_def upto_rec1 bind_gen_def return_gen_def
      order_row_no_products)

subsection \<open>Addresses of one customer\<close>

lemma addresses_per_customer:
  assumes "distinct (map cust_CUSTOMER_ID cs)"
  shows "succeeds (generate_customer_addresses cs)
           (\<lambda>rows. (\<forall>c\<in>set cs.
              let mine = filter (\<lambda>a. addr_CUSTOMER_ID a = cust_CUSTOMER_ID c) rows
              in (length mine = 1 \<or> length mine = 2)
                 \<and> map addr_IS_DEFAULT mine = True # replicate (length mine - 1) False)
              \<and> map addr_ADDRESS_ID rows = [1..int (length rows)])"
proof (rule succeeds_weaken[OF generate_customer_addresses_succeeds], goal_cases)
  case (1 rows)
  define B :: "customer \<Rightarrow> address list \<Rightarrow> bool" where "B = (\<lambda>c b. (length b = 1 \<or> length b = 2)
                          \<and> map addr_IS_DEFAULT b = True # replicate (length b - 1) False
                          \<and> (\<forall>a\<in>set b. addr_CUSTOMER_ID a = cust_CUSTOMER_ID c))"
  from 1 have ids: "map addr_ADDRESS_ID rows = [1..int (length rows)]" by (rule conjunct2)
  from 1 have "\<exists>blocks. rows = concat blocks \<and> list_all2 B cs blocks"
    unfolding B_def by (rule conjunct1)
  then obtain blocks where rows: "rows = concat blocks" and all: "list_all2 B cs blocks"
    by (elim exE conjE)
  have keys: "list_all2 (\<lambda>c b. \<forall>a\<in>set b. addr_CUSTOMER_ID a = cust_CUSTOMER_ID c) cs blocks"
    by (rule list_all2_mono[OF all]) (simp add: B_def)
  have "let mine = filter (\<lambda>a. addr_CUSTOMER_ID a = cust_CUSTOMER_ID c) rows
          in (length mine = 1 \<or> length mine = 2)
             \<and> map addr_IS_DEFAULT mine = True # replicate (length mine - 1) False"
    if "c \<in> set cs" for c
  proof -
    from list_all2_nthD2[OF all that] obtain k
      where k: "k < length cs" "cs ! k = c" "B c (blocks ! k)"
      by (elim exE conjE)
    from filter_concat_block[OF keys assms k(1)] k(2)
    have "filter (\<lambda>a. addr_CUSTOMER_ID a = cust_CUSTOMER_ID c) rows = blocks ! k"
      unfolding rows by simp
    with k(3) show ?thesis unfolding Let_def B_def by simp
  qed
  with ids show ?case by simp
qed

subsection \<open>Every customer gets an address\<close>

lemma blocks_cover_customers:
  fixes cs :: "customer list" and blocks :: "address list list"
  assumes "list_all2 (\<lambda>c b. (length b = 1 \<or> length b = 2)
                          \<and> map addr_IS_DEFAULT b = True # replicate (length b - 1) False
                          \<and> (\<forall>a\<in>set b. addr_CUSTOMER_ID a = cust_CUSTOMER_ID c)) cs blocks"
  shows "length cs \<le> length (concat blocks) \<and> length (concat blocks) \<le> 2 * length cs
         \<and> (\<forall>c\<in>set cs. \<exists>a\<in>set (concat blocks). addr_CUSTOMER_ID a = cust_CUSTOMER_ID c)"
  using assms
proof (induction cs blocks rule: list_all2_induct)
  case Nil
  show ?case by simp
next
  case (Cons c cs b blocks)
  from Cons.hyps(1) have len: "length b = 1 \<or> length b = 2"
    and own: "\<forall>a\<in>set b. addr_CUSTOMER_ID a = cust_CUSTOMER_ID c" by simp_all
  from len obtain a where a: "a \<in> set b" by (cases b) auto
  with own have "addr_CUSTOMER_ID a = cust_CUSTOMER_ID c" by simp
  with a have first: "\<exists>a\<in>set (concat (b # blocks)). addr_CUSTOMER_ID a = cust_CUSTOMER_ID c"
    by auto
  have sub: "set (concat blocks) \<subseteq> set (concat (b # blocks))" by auto
  note ih = Cons.IH[THEN conjunct2, THEN conjunct2]
  have rest: "\<forall>c'\<in>set cs. \<exists>a\<in>set (concat (b # blocks)).
                              addr_CUSTOMER_ID a = cust_CUSTOMER_ID c'"
  proof
    fix c' assume "c' \<in> set cs"
    with ih obtain a where "a \<in> set (concat blocks)"
      "addr_CUSTOMER_ID a = cust_CUSTOMER_ID c'" by blast
    with sub show "\<exists>a\<in>set (concat (b # blocks)). addr_CUSTOMER_ID a = cust_CUSTOMER_ID c'"
      by blast
  qed
  from Cons.IH len have "length (c # cs) \<le> length (concat (b # blocks))"
    and "length (concat (b # blocks)) \<le> 2 * length (c # cs)" by auto
  with first rest show ?case by simp
qed

lemma generate_customer_addresses_covers:
  "succeeds (generate_customer_addresses cs)
     (\<lambda>rows. length cs \<le> length rows \<and> length rows \<le> 2 * length cs
        \<and> (\<forall>c\<in>set cs. \<exists>a\<in>set rows. addr_CUSTOMER_ID a = cust_CUSTOMER_ID c)
        \<and> map addr_ADDRESS_ID rows = [1..int (length rows)])"
proof (rule succeeds_weaken[OF generate_customer_addresses_succeeds], goal_cases)
  case (1 rows)
  then obtain blocks :: "address list list" where rows: "rows = concat blocks"
    and all: "list_all2 (\<lambda>c b. (length b = 1 \<or> length b = 2)
                          \<and> map addr_IS_DEFAULT b = True # replicate (length b - 1) False
                          \<and> (\<forall>a\<in>set b. addr_CUSTOMER_ID a = cust_CUSTOMER_ID c)) cs blocks"
    and ids: "map addr_ADDRESS_ID rows = [1..int (length rows)]"
    by (elim exE conjE)
  from blocks_cover_customers[OF all] ids show ?case unfolding rows by simp
qed

lemma steady_two_addresses:
  "steady (9 / 10) (choices [1, 2] [8 / 10, 2 / 10]) (\<lambda>n::int. n = 2)"
  by (simp add: steady_def choices_def bind_gen_def random_random_def return_gen_def
      bisect_def frac_def Let_def)

lemma addresses_loop_steady:
  "steady (9 / 10) (addresses_loop cs address_id)
     (\<lambda>rows. map addr_CUSTOMER_ID rows
                = concat (map (\<lambda>c. [cust_CUSTOMER_ID c, cust_CUSTOMER_ID c]) cs)
        \<and> map addr_IS_DEFAULT rows = concat (map (\<lambda>c. [True, False]) cs))"
proof (induction cs arbitrary: address_id)
  case Nil
  show ?case by (simp add: steady_return)
next
  case (Cons c cs)
  have idx: "[0..(2::int) - 1] = [0, 1]" by (simp add: upto_rec1)
  show ?case
    unfolding addresses_loop.simps
  proof (rule steady_bind[OF steady_two_addresses], goal_cases)
    case (1 num)
    show ?case
      unfolding 1 idx
    proof (rule steady_bind[OF succeeds_steady[OF address_rows_succeeds]], goal_cases)
      case (1 res)
      obtain rows aid where res: "res = (rows, aid)" by (cases res)
      from 1 have dflt: "map addr_IS_DEFAULT rows = [True, False]"
        and own: "\<forall>a\<in>set rows. addr_CUSTOMER_ID a = cust_CUSTOMER_ID c"
        unfolding res by simp_all
      from dflt have "length rows = 2" by (auto dest: arg_cong[where f = length])
      then obtain a b where ab: "rows = [a, b]"
        by (auto simp: length_Suc_conv numeral_2_eq_2)
      with own have cust: "map addr_CUSTOMER_ID rows = [cust_CUSTOMER_ID c, cust_CUSTOMER_ID c]"
        by simp
      show ?case
        unfolding res prod.case
        by (rule steady_bind[OF Cons.IH], rule steady_return) (use cust dflt in simp)
    qed
  qed
qed

lemma generate_customer_addresses_steady:
  "steady (9 / 10) (generate_customer_addresses cs)
     (\<lambda>rows. map addr_CUSTOMER_ID rows
                = concat (map (\<lambda>c. [cust_CUSTOMER_ID c, cust_CUSTOMER_ID c]) cs)
        \<and> map addr_IS_DEFAULT rows = concat (map (\<lambda>c. [True, False]) cs))"
  unfolding generate_customer_addresses_def by (rule addresses_loop_steady)

lemma sample_addresses_run:
  "\<exists>addresses.
     generate_customer_addresses [customer_1, customer_2] ([], 9 / 10)
       = Inr (addresses, ([], 9 / 10))
     \<and> map addr_ADDRESS_ID addresses = [1, 2, 3, 4]
     \<and> map addr_CUSTOMER_ID addresses = [1, 1, 2, 2]
     \<and> map addr_IS_DEFAULT addresses = [True, False, True, False]"
proof -
  from steadyD[OF steady_and_results[OF generate_customer_addresses_steady
        succeeds_results[OF generate_customer_addresses_covers]],
      of "[customer_1, customer_2]"]
  obtain addresses where run: "generate_customer_addresses [customer_1, customer_2] ([], 9 / 10)
       = Inr (addresses, ([], 9 / 10))"
    and cust0: "map addr_CUSTOMER_ID addresses
                 = concat (map (\<lambda>c. [cust_CUSTOMER_ID c, cust_CUSTOMER_ID c])
                             [customer_1, customer_2])"
    and dflt0: "map addr_IS_DEFAULT addresses
                 = concat (map (\<lambda>c. [True, False]) [customer_1, customer_2])"
    and ids: "map addr_ADDRESS_ID addresses = [1..int (length addresses)]"
    by (elim exE conjE)
  from cust0 have cust: "map addr_CUSTOMER_ID addresses = [1, 1, 2, 2]"
    by (simp add: customer_1_def customer_2_def)
  from dflt0 have dflt: "map addr_IS_DEFAULT addresses = [True, False, True, False]"
    by simp
  from arg_cong[OF cust, of length] have "length addresses = 4" by simp
  with ids have "map addr_ADDRESS_ID addresses = [1, 2, 3, 4]" by (simp add: upto_rec1)
  with run cust dflt show ?thesis by (intro exI[of _ addresses]) simp
qed

subsection \<open>Empty tables\<close>

lemma generate_customer_addresses_nobody: "generate_customer_addresses [] g = Inr ([], g)"
  by (simp add: generate_customer_addresses_def return_gen_def)

lemma order_row_no_customers:
  "order_row today [] stores employees products i g = Inl IndexError"
  unfolding order_row_def by (rule bind_gen_fails) (rule choice_nothing)

lemma order_row_no_stores:
  assumes "customers \<noteq> []"
  shows "order_row today customers [] employees products i g = Inl IndexError"
  unfolding order_row_def
  apply (rule bind_gen_succeeds_fails[OF succeeds_choice_any[OF assms]])
  apply (rule bind_gen_fails)
  apply (rule choice_nothing)
  done

lemma generate_orders_fails_first:
  assumes "0 < n" and "\<And>i. order_row today customers stores employees products i g = Inl e"
  shows "generate_orders today customers stores employees products n g = Inl e"
proof -
  have "[1..n] = 1 # [2..n]" using assms(1) by (simp add: upto_rec1)
  moreover have "for_each (order_row today customers stores employees products) (1 # [2..n]) g
                   = Inl e"
    by (rule for_each_fails) (rule assms(2))
  ultimately have "for_each (order_row today customers stores employees products) [1..n] g
                     = Inl e" by simp
  then show ?thesis unfolding generate_orders_def by (rule bind_gen_fails)
qed

lemma results_sample: "results (sample population k) (\<lambda>xs. set xs \<subseteq> set population)"
proof (cases "0 \<le> k \<and> k \<le> int (length population)")
  case True
  then show ?thesis
    by (intro results_weaken[OF succeeds_results[OF sample_succeeds]]) auto
next
  case False
  then show ?thesis by (auto simp: sample_def results_raise)
qed

lemma order_row_no_products_results:
  "results (order_row today customers stores employees [] i)
     (\<lambda>(order, lines). lines = [] \<and> ord_TOTAL_AMOUNT order = 0)"
  unfolding order_row_def Let_def
proof (rule results_bind[OF results_any], rule results_bind[OF results_any],
    rule results_bind[OF results_any], rule results_bind[OF results_any],
    rule results_bind[OF results_any], rule results_bind[OF results_any],
    rule results_bind[OF results_any], rule results_bind[OF results_any],
    rule results_bind[OF results_sample], rule results_bind[OF results_any], goal_cases)
  case (1 customer store employee order_days required_days ship_date order_status
      num_products order_products shipping_cost)
  from 1(9) have none: "order_products = []" by simp
  show ?case
    unfolding none order_lines.simps
    by (auto simp: bind_gen_def return_gen_def results_def split: sum.splits)
qed

lemma generate_orders_no_products_results:
  "results (generate_orders today customers stores employees [] n)
     (\<lambda>(orders, details). details = []
        \<and> (\<forall>order\<in>set orders. ord_TOTAL_AMOUNT order = 0))"
proof -
  have row: "results (order_row today customers stores employees [] i)
               (\<lambda>(order, lines). ord_ORDER_ID order = i
                  \<and> (lines = [] \<and> ord_TOTAL_AMOUNT order = 0))" for i
    by (rule results_weaken[OF results_conj[OF order_row_results
            order_row_no_products_results]]) auto
  show ?thesis
  proof (rule results_weaken[OF generate_orders_results[OF row]], goal_cases)
    case (1 res)
    obtain orders details where res: "res = (orders, details)" by (cases res)
    from 1 obtain blocks :: "order_detail list list"
      where details: "details = concat blocks"
        and all: "list_all2 (\<lambda>order lines. lines = [] \<and> ord_TOTAL_AMOUNT order = 0)
                    orders blocks"
      unfolding res by auto
    from all have "concat blocks = [] \<and> (\<forall>order\<in>set orders. ord_TOTAL_AMOUNT order = 0)"
      by (induction orders blocks rule: list_all2_induct) auto
    then show ?case unfolding res details by simp
  qed
qed

subsection \<open>Rows of the flattened view and steady customers\<close>

lemma find_found: "\<exists>x\<in>set xs. P x \<Longrightarrow> find P xs \<noteq> None"
  by (auto simp: find_None_iff)

lemma sales_rows_of_none:
  assumes "\<forall>l\<in>set details. line_ORDER_ID l \<noteq> ord_ORDER_ID order"
  shows "sales_rows_of customers products stores employees details order = []"
proof -
  have "find (\<lambda>od. line_ORDER_ID od = ord_ORDER_ID order) details = None"
    using assms by (simp add: find_None_iff)
  then show ?thesis by (simp add: sales_rows_of_def)
qed

lemma sales_rows_of_one:
  assumes "\<exists>l\<in>set details. line_ORDER_ID l = ord_ORDER_ID order"
    and "\<forall>l\<in>set details. line_PRODUCT_ID l \<in> prod_PRODUCT_ID ` set products"
    and "ord_CUSTOMER_ID order \<in> cust_CUSTOMER_ID ` set customers"
    and "ord_STORE_ID order \<in> store_STORE_ID ` set stores"
    and "ord_EMPLOYEE_ID order \<in> emp_EMPLOYEE_ID ` set employees"
  shows "length (sales_rows_of customers products stores employees details order) = 1"
proof -
  from find_found[of details "\<lambda>od. line_ORDER_ID od = ord_ORDER_ID order"] assms(1)
  obtain l where l: "find (\<lambda>od. line_ORDER_ID od = ord_ORDER_ID order) details = Some l"
    by auto
  from find_first[OF l] have "l \<in> set details" by auto
  with assms(2) have "line_PRODUCT_ID l \<in> prod_PRODUCT_ID ` set products" by blast
  then have "\<exists>p\<in>set products. prod_PRODUCT_ID p = line_PRODUCT_ID l" by (metis imageE)
  then have p: "find (\<lambda>p. prod_PRODUCT_ID p = line_PRODUCT_ID l) products \<noteq> None"
    by (rule find_found)
  from assms(3) have "\<exists>c\<in>set customers. cust_CUSTOMER_ID c = ord_CUSTOMER_ID order"
    by (metis imageE)
  then have c: "find (\<lambda>c. cust_CUSTOMER_ID c = ord_CUSTOMER_ID order) customers \<noteq> None"
    by (rule find_found)
  from assms(4) have "\<exists>s\<in>set stores. store_STORE_ID s = ord_STORE_ID order"
    by (metis imageE)
  then have s: "find (\<lambda>s. store_STORE_ID s = ord_STORE_ID order) stores \<noteq> None"
    by (rule find_found)
  from assms(5) have "\<exists>e\<in>set employees. emp_EMPLOYEE_ID e = ord_EMPLOYEE_ID order"
    by (metis imageE)
  then have e: "find (\<lambda>e. emp_EMPLOYEE_ID e = ord_EMPLOYEE_ID order) employees \<noteq> None"
    by (rule find_found)
  show ?thesis
    unfolding sales_rows_of_def l option.case Let_def using p c s e by simp
qed

lemma sales_data_of_rows:
  "\<exists>rows. sales_data_of customers products stores employees orders details = concat rows
     \<and> list_all2 (\<lambda>order rs.
          length rs \<le> 1
          \<and> (\<forall>r\<in>set rs. \<exists>l before after.
                details = before @ l # after
                \<and> (\<forall>x\<in>set before. line_ORDER_ID x \<noteq> ord_ORDER_ID order)
                \<and> line_ORDER_ID l = ord_ORDER_ID order
                \<and> sale_ORDER_ID r = ord_ORDER_ID order
                \<and> sale_PRODUCT_ID r = line_PRODUCT_ID l
                \<and> sale_QUANTITY_ORDERED r = line_QUANTITY_ORDERED l
                \<and> sale_UNIT_PRICE r = line_UNIT_PRICE l
                \<and> sale_DISCOUNT_PERCENT r = line_DISCOUNT_PERCENT l
                \<and> sale_TOTAL_AMOUNT r = line_TOTAL_LINE_AMOUNT l)
          \<and> ((\<exists>l\<in>set details. line_ORDER_ID l = ord_ORDER_ID order)
               \<and> (\<forall>l\<in>set details. line_PRODUCT_ID l \<in> prod_PRODUCT_ID ` set products)
               \<and> ord_CUSTOMER_ID order \<in> cust_CUSTOMER_ID ` set customers
               \<and> ord_STORE_ID order \<in> store_STORE_ID ` set stores
               \<and> ord_EMPLOYEE_ID order \<in> emp_EMPLOYEE_ID ` set employees
               \<longrightarrow> length rs = 1)
          \<and> ((\<forall>l\<in>set details. line_ORDER_ID l \<noteq> ord_ORDER_ID order) \<longrightarrow> rs = []))
        orders rows"
  unfolding sales_data_of_def
  apply (rule exI[of _ "map (sales_rows_of customers products stores employees details) orders"])
  apply (rule conjI, rule refl)
  apply (rule list_all2_map_right)
  apply (intro conjI impI)
     apply (rule sales_rows_of_first_line[THEN conjunct1])
    apply (rule sales_rows_of_first_line[THEN conjunct2])
   apply (rule sales_rows_of_one; blast)
  apply (rule sales_rows_of_none, assumption)
  done

lemma steady_birth_year: "steady (9 / 10) (randint 1944 2006) (\<lambda>k. k = 2000)"
  by (simp add: steady_def randint_steady frac_def)

lemma customer_row_steady:
  "steady (9 / 10) (customer_row today i) (\<lambda>c. year (cust_DATE_OF_BIRTH c) = 2000)"
  unfolding customer_row_def
  apply (rule steady_bind[OF succeeds_steady[OF succeeds_choice_any]], simp add: first_names_def)
  apply (rule steady_bind[OF succeeds_steady[OF succeeds_choice_any]], simp add: last_names_def)
  apply (rule steady_bind[OF succeeds_steady[OF succeeds_choice_any]], simp)
  apply (rule steady_bind[OF succeeds_steady[OF succeeds_randint]], simp)
  apply (rule steady_bind[OF succeeds_steady[OF succeeds_randint]], simp)
  apply (rule steady_bind[OF steady_birth_year])
  apply (rule steady_bind[OF succeeds_steady[OF succeeds_randint]], simp)
  apply (rule steady_bind[OF succeeds_steady[OF succeeds_randint]], simp)
  apply (rule steady_bind[OF succeeds_steady[OF succeeds_datetime_date]], simp_all)[1]
  apply (rule steady_bind[OF succeeds_steady[OF succeeds_randint]], simp)
  apply (rule steady_bind[OF succeeds_steady[OF succeeds_choices_any]],
         simp add: customer_segments_def, simp add: customer_segments_def)
  apply (rule steady_bind[OF succeeds_steady[OF succeeds_annual_income]])
  apply (rule steady_bind[OF succeeds_steady[OF succeeds_choice_any]], simp add: genders_def)
  apply (rule steady_bind[OF succeeds_steady[OF succeeds_choice_any]],
         simp add: marital_statuses_def)
  apply (rule steady_bind[OF succeeds_steady[OF succeeds_choice_any]],
         simp add: education_levels_def)
  apply (rule steady_bind[OF succeeds_steady[OF succeeds_choice_any]], simp)
  apply (rule steady_return)
  apply simp
  done

lemma list_all2_const_map:
  "list_all2 (\<lambda>i x. f x = v) idx xs \<Longrightarrow> map f xs = replicate (length idx) v"
  by (induction idx xs rule: list_all2_induct) auto

lemma generate_customers_steady:
  "steady (9 / 10) (generate_customers today n)
     (\<lambda>cs. map (\<lambda>c. year (cust_DATE_OF_BIRTH c)) cs = replicate (length [1..n]) 2000)"
  unfolding generate_customers_def
  by (rule steady_weaken[OF steady_for_each[OF customer_row_steady]])
     (rule list_all2_const_map)

lemma steady_one_address:
  "steady (1 / 2) (choices [1, 2] [8 / 10, 2 / 10]) (\<lambda>n::int. n = 1)"
  by (simp add: steady_def choices_def bind_gen_def random_random_def return_gen_def
      bisect_def frac_def Let_def)

lemma addresses_loop_steady_one:
  "steady (1 / 2) (addresses_loop cs address_id)
     (\<lambda>rows. map addr_CUSTOMER_ID rows = map cust_CUSTOMER_ID cs
        \<and> map addr_IS_DEFAULT rows = map (\<lambda>c. True) cs)"
proof (induction cs arbitrary: address_id)
  case Nil
  show ?case by (simp add: steady_return)
next
  case (Cons c cs)
  have idx: "[0..(1::int) - 1] = [0]" by (simp add: upto_rec1)
  show ?case
    unfolding addresses_loop.simps
  proof (rule steady_bind[OF steady_one_address], goal_cases)
    case (1 num)
    show ?case
      unfolding 1 idx
    proof (rule steady_bind[OF succeeds_steady[OF address_rows_succeeds]], goal_cases)
      case (1 res)
      obtain rows aid where res: "res = (rows, aid)" by (cases res)
      from 1 have dflt: "map addr_IS_DEFAULT rows = [True]"
        and own: "\<forall>a\<in>set rows. addr_CUSTOMER_ID a = cust_CUSTOMER_ID c"
        unfolding res by simp_all
      from dflt have "length rows = 1" by (auto dest: arg_cong[where f = length])
      then obtain a where ab: "rows = [a]"
        by (auto simp: length_Suc_conv)
      with own have cust: "map addr_CUSTOMER_ID rows = [cust_CUSTOMER_ID c]"
        by simp
      show ?case
        unfolding res prod.case
        by (rule steady_bind[OF Cons.IH], rule steady_return) (use cust dflt in simp)
    qed
  qed
qed

lemma generate_customer_addresses_steady_one:
  "steady (1 / 2) (generate_customer_addresses cs)
     (\<lambda>rows. map addr_CUSTOMER_ID rows = map cust_CUSTOMER_ID cs
        \<and> map addr_IS_DEFAULT rows = map (\<lambda>c. True) cs)"
  unfolding generate_customer_addresses_def by (rule addresses_loop_steady_one)

subsection \<open>Customers and addresses on a steady tape\<close>

lemma sample_customers_run:
  "\<exists>customers addresses.
     generate_customers 0 2 ([], 9 / 10) = Inr (customers, ([], 9 / 10))
     \<and> map cust_CUSTOMER_ID customers = [1, 2]
     \<and> map (\<lambda>c. year (cust_DATE_OF_BIRTH c)) customers = [2000, 2000]
     \<and> generate_customer_addresses customers ([], 9 / 10) = Inr (addresses, ([], 9 / 10))
     \<and> map addr_CUSTOMER_ID addresses = [1, 1, 2, 2]
     \<and> map addr_IS_DEFAULT addresses = [True, False, True, False]"
proof -
  have u: "[1..2::int] = [1, 2]" by (simp add: upto_rec1)
  from steadyD[OF steady_and_results[OF generate_customers_steady
        succeeds_results[OF generate_customers_succeeds]], of 0 2]
  obtain customers where c: "generate_customers 0 2 ([], 9 / 10) = Inr (customers, ([], 9 / 10))"
    and years0: "map (\<lambda>c. year (cust_DATE_OF_BIRTH c)) customers
                  = replicate (length [1..2::int]) 2000"
    and ids0: "map cust_CUSTOMER_ID customers = [1..2]"
    by (elim exE conjE)
  from ids0 have ids: "map cust_CUSTOMER_ID customers = [1, 2]" unfolding u .
  from years0 have years: "map (\<lambda>c. year (cust_DATE_OF_BIRTH c)) customers = [2000, 2000]"
    unfolding u by (simp add: numeral_2_eq_2)
  from ids obtain c1 c2 where cs: "customers = [c1, c2]"
    "cust_CUSTOMER_ID c1 = 1" "cust_CUSTOMER_ID c2 = 2"
    by (auto simp: map_eq_Cons_conv)
  from steadyD[OF generate_customer_addresses_steady, of customers]
  obtain addresses
    where a: "generate_customer_addresses customers ([], 9 / 10) = Inr (addresses, ([], 9 / 10))"
      and cust0: "map addr_CUSTOMER_ID addresses
                 = concat (map (\<lambda>c. [cust_CUSTOMER_ID c, cust_CUSTOMER_ID c]) customers)"
      and dflt0: "map addr_IS_DEFAULT addresses = concat (map (\<lambda>c. [True, False]) customers)"
    by (elim exE conjE)
  from cust0 have cust: "map addr_CUSTOMER_ID addresses = [1, 1, 2, 2]"
    unfolding cs(1) by (simp add: cs)
  from dflt0 have dflt: "map addr_IS_DEFAULT addresses = [True, False, True, False]"
    unfolding cs(1) by simp
  show ?thesis
    apply (rule exI[of _ customers], rule exI[of _ addresses])
    using c ids years a cust dflt apply simp
    done
qed

lemma sample_single_addresses_run:
  "\<exists>addresses.
     generate_customer_addresses [customer_1, customer_2] ([], 1 / 2)
       = Inr (addresses, ([], 1 / 2))
     \<and> map addr_CUSTOMER_ID addresses = [1, 2]
     \<and> map addr_IS_DEFAULT addresses = [True, True]"
proof -
  from steadyD[OF generate_customer_addresses_steady_one, of "[customer_1, customer_2]"]
  obtain addresses
    where a: "generate_customer_addresses [customer_1, customer_2] ([], 1 / 2)
                = Inr (addresses, ([], 1 / 2))"
      and cust0: "map addr_CUSTOMER_ID addresses = map cust_CUSTOMER_ID [customer_1, customer_2]"
      and dflt0: "map addr_IS_DEFAULT addresses = map (\<lambda>c. True) [customer_1, customer_2]"
    by (elim exE conjE)
  from cust0 have cust: "map addr_CUSTOMER_ID addresses = [1, 2]"
    by (simp add: customer_1_def customer_2_def)
  from dflt0 have dflt: "map addr_IS_DEFAULT addresses = [True, True]" by simp
  show ?thesis
    apply (rule exI[of _ addresses])
    using a cust dflt apply simp
    done
qed

subsection \<open>Integrity of the generated orders\<close>

lemma results_sample_length:
  "results (sample population k) (\<lambda>xs. int (length xs) = k \<and> set xs \<subseteq> set population)"
proof (cases "0 \<le> k \<and> k \<le> int (length population)")
  case True
  then show ?thesis
    by (intro succeeds_results[OF sample_succeeds]) auto
next
  case False
  then show ?thesis by (auto simp: sample_def results_raise)
qed

lemma order_lines_products:
  "results (order_lines products i t0 d0) (\<lambda>(lines, t, d).
     map line_PRODUCT_ID lines = map prod_PRODUCT_ID products)"
  by (rule results_weaken[OF order_lines_results]) auto

lemma order_row_products:
  "results (order_row today customers stores employees products i) (\<lambda>(order, lines).
     (products \<noteq> [] \<longrightarrow> lines \<noteq> [])
     \<and> (\<forall>l\<in>set lines. line_PRODUCT_ID l \<in> prod_PRODUCT_ID ` set products))"
  unfolding order_row_def Let_def
proof (rule results_bind[OF results_any], rule results_bind[OF results_any],
    rule results_bind[OF results_any], rule results_bind[OF results_any],
    rule results_bind[OF results_any], rule results_bind[OF results_any],
    rule results_bind[OF results_any], rule results_bind[OF results_randint],
    rule results_bind[OF results_sample_length], rule results_bind[OF results_any],
    rule results_bind[OF order_lines_products], goal_cases)
  case (1 customer store employee order_days required_days ship_date order_status
      num_products order_products shipping_cost res)
  obtain lines t d where res: "res = (lines, t, d)" by (cases res)
  from 1(11) have ids: "map line_PRODUCT_ID lines = map prod_PRODUCT_ID order_products"
    unfolding res by simp
  from 1(9) have len: "int (length order_products) = min num_products (int (length products))"
    and sub: "set order_products \<subseteq> set products" by simp_all
  from 1(8) have pos: "1 \<le> num_products" by simp
  have ne: "lines \<noteq> []" if "products \<noteq> []"
  proof -
    from that have "1 \<le> int (length products)" by (cases products) auto
    with pos len have "1 \<le> int (length order_products)" by simp
    then have "order_products \<noteq> []" by auto
    with ids show ?thesis by auto
  qed
  have mem: "\<forall>l\<in>set lines. line_PRODUCT_ID l \<in> prod_PRODUCT_ID ` set products"
  proof
    fix l assume "l \<in> set lines"
    then have "line_PRODUCT_ID l \<in> set (map line_PRODUCT_ID lines)" by simp
    then have "line_PRODUCT_ID l \<in> prod_PRODUCT_ID ` set order_products"
      unfolding ids by simp
    with sub show "line_PRODUCT_ID l \<in> prod_PRODUCT_ID ` set products" by blast
  qed
  show ?case
    unfolding res prod.case
    by (rule results_bind[OF results_any], rule results_bind[OF results_any],
        rule results_return) (use ne mem in simp)
qed

lemma order_row_integrity:
  "results (order_row today customers stores employees products i) (\<lambda>(order, lines).
     ord_ORDER_ID order = i
     \<and> (products \<noteq> [] \<longrightarrow> lines \<noteq> [])
     \<and> (\<forall>l\<in>set lines. line_ORDER_ID l = ord_ORDER_ID order
           \<and> line_PRODUCT_ID l \<in> prod_PRODUCT_ID ` set products)
     \<and> ord_CUSTOMER_ID order \<in> cust_CUSTOMER_ID ` set customers
     \<and> ord_STORE_ID order \<in> store_STORE_ID ` set stores
     \<and> ord_EMPLOYEE_ID order \<in> emp_EMPLOYEE_ID ` set employees)"
proof (rule results_weaken[OF results_conj[OF order_row_results order_row_products]], goal_cases)
  case (1 res)
  obtain order lines where res: "res = (order, lines)" by (cases res)
  from 1 show ?case unfolding res prod.case by (elim conjE) (intro conjI; force)
qed

lemma generate_orders_integrity:
  "results (generate_orders today customers stores employees products n)
     (\<lambda>(orders, details). map ord_ORDER_ID orders = [1..n]
        \<and> (\<exists>blocks. details = concat blocks
             \<and> list_all2 (\<lambda>order lines.
                  (products \<noteq> [] \<longrightarrow> lines \<noteq> [])
                  \<and> (\<forall>l\<in>set lines. line_ORDER_ID l = ord_ORDER_ID order
                        \<and> line_PRODUCT_ID l \<in> prod_PRODUCT_ID ` set products)
                  \<and> ord_CUSTOMER_ID order \<in> cust_CUSTOMER_ID ` set customers
                  \<and> ord_STORE_ID order \<in> store_STORE_ID ` set stores
                  \<and> ord_EMPLOYEE_ID order \<in> emp_EMPLOYEE_ID ` set employees) orders blocks))"
  by (rule generate_orders_results) (rule order_row_integrity)


lemma generate_all_data_integrity:
  "results (generate_all_data today nc np ns ne no)
     (\<lambda>data. map ord_ORDER_ID (data_orders data) = [1..no]
        \<and> map prod_PRODUCT_ID (data_products data) = [1..np]
        \<and> (\<exists>blocks. data_order_details data = concat blocks
             \<and> list_all2 (\<lambda>order lines.
                  (data_products data \<noteq> [] \<longrightarrow> lines \<noteq> [])
                  \<and> (\<forall>l\<in>set lines. line_ORDER_ID l = ord_ORDER_ID order
                        \<and> line_PRODUCT_ID l \<in> prod_PRODUCT_ID ` set (data_products data))
                  \<and> ord_CUSTOMER_ID order \<in> cust_CUSTOMER_ID ` set (data_customers data)
                  \<and> ord_STORE_ID order \<in> store_STORE_ID ` set (data_stores data)
                  \<and> ord_EMPLOYEE_ID order \<in> emp_EMPLOYEE_ID ` set (data_employees data))
                (data_orders data) blocks))"
  unfolding generate_all_data_def
proof (rule results_bind[OF results_any], rule results_bind[OF results_any],
    rule results_bind[OF succeeds_results[OF generate_products_succeeds]],
    rule results_bind[OF results_any], rule results_bind[OF results_any], goal_cases)
  case (1 customers customer_addresses products stores0 res)
  obtain employees stores where res: "res = (employees, stores)" by (cases res)
  from 1(3) have ids: "map prod_PRODUCT_ID products = [1..np]" by simp
  show ?case
    unfolding res prod.case
  proof (rule results_bind[OF generate_orders_integrity], goal_cases)
    case (1 res')
    obtain orders details where res': "res' = (orders, details)" by (cases res')
    show ?case
      unfolding res' prod.case
      by (rule results_return) (use 1 res' ids in simp)
  qed
qed

lemma blocks_order_facts:
  assumes "list_all2 (\<lambda>order lines.
              (products \<noteq> [] \<longrightarrow> lines \<noteq> [])
              \<and> (\<forall>l\<in>set lines. line_ORDER_ID l = ord_ORDER_ID order
                    \<and> line_PRODUCT_ID l \<in> prod_PRODUCT_ID ` set products)
              \<and> ord_CUSTOMER_ID order \<in> cust_CUSTOMER_ID ` set customers
              \<and> ord_STORE_ID order \<in> store_STORE_ID ` set stores
              \<and> ord_EMPLOYEE_ID order \<in> emp_EMPLOYEE_ID ` set employees) orders blocks"
  shows "(\<forall>l\<in>set (concat blocks). line_PRODUCT_ID l \<in> prod_PRODUCT_ID ` set products)
     \<and> (\<forall>order\<in>set orders.
           (products \<noteq> [] \<longrightarrow> (\<exists>l\<in>set (concat blocks). line_ORDER_ID l = ord_ORDER_ID order))
           \<and> ord_CUSTOMER_ID order \<in> cust_CUSTOMER_ID ` set customers
           \<and> ord_STORE_ID order \<in> store_STORE_ID ` set stores
           \<and> ord_EMPLOYEE_ID order \<in> emp_EMPLOYEE_ID ` set employees)"
  using assms
proof (induction orders blocks rule: list_all2_induct)
  case Nil
  show ?case by simp
next
  case (Cons order orders lines blocks)
  from Cons.hyps(1) have here: "products \<noteq> [] \<longrightarrow> lines \<noteq> []"
    and mine: "\<forall>l\<in>set lines. line_ORDER_ID l = ord_ORDER_ID order"
    and prods: "\<forall>l\<in>set lines. line_PRODUCT_ID l \<in> prod_PRODUCT_ID ` set products"
    and refs: "ord_CUSTOMER_ID order \<in> cust_CUSTOMER_ID ` set customers"
      "ord_STORE_ID order \<in> store_STORE_ID ` set stores"
      "ord_EMPLOYEE_ID order \<in> emp_EMPLOYEE_ID ` set employees"
    by simp_all
  have first: "\<exists>l\<in>set lines. line_ORDER_ID l = ord_ORDER_ID order" if "products \<noteq> []"
  proof -
    from here that obtain l where "l \<in> set lines" by (cases lines) auto
    with mine show ?thesis by blast
  qed
  from Cons.IH have ih1: "\<forall>l\<in>set (concat blocks). line_PRODUCT_ID l \<in> prod_PRODUCT_ID ` set products"
    and ih2: "\<forall>order\<in>set orders.
           (products \<noteq> [] \<longrightarrow> (\<exists>l\<in>set (concat blocks). line_ORDER_ID l = ord_ORDER_ID order))
           \<and> ord_CUSTOMER_ID order \<in> cust_CUSTOMER_ID ` set customers
           \<and> ord_STORE_ID order \<in> store_STORE_ID ` set stores
           \<and> ord_EMPLOYEE_ID order \<in> emp_EMPLOYEE_ID ` set employees"
    by blast+
  have c1: "\<forall>l\<in>set (concat (lines # blocks)). line_PRODUCT_ID l \<in> prod_PRODUCT_ID ` set products"
    using prods ih1 by auto
  have c2: "(products \<noteq> [] \<longrightarrow> (\<exists>l\<in>set (concat (lines # blocks)). line_ORDER_ID l = ord_ORDER_ID x))
           \<and> ord_CUSTOMER_ID x \<in> cust_CUSTOMER_ID ` set customers
           \<and> ord_STORE_ID x \<in> store_STORE_ID ` set stores
           \<and> ord_EMPLOYEE_ID x \<in> emp_EMPLOYEE_ID ` set employees"
    if "x \<in> set (order # orders)" for x
  proof (cases "x = order")
    case True
    with first refs show ?thesis by auto
  next
    case False
    with that have "x \<in> set orders" by simp
    with ih2 have "(products \<noteq> [] \<longrightarrow> (\<exists>l\<in>set (concat blocks). line_ORDER_ID l = ord_ORDER_ID x))
           \<and> ord_CUSTOMER_ID x \<in> cust_CUSTOMER_ID ` set customers
           \<and> ord_STORE_ID x \<in> store_STORE_ID ` set stores
           \<and> ord_EMPLOYEE_ID x \<in> emp_EMPLOYEE_ID ` set employees" by blast
    then show ?thesis by auto
  qed
  from c1 c2 show ?case by blast
qed

lemma sales_rows_of_order_id:
  "\<forall>r\<in>set (sales_rows_of customers products stores employees details order).
     sale_ORDER_ID r = ord_ORDER_ID order"
  using sales_rows_of_first_line[of customers products stores employees details order] by blast

lemma sales_data_of_per_order:
  assumes "distinct (map ord_ORDER_ID orders)" and "order \<in> set orders"
  shows "filter (\<lambda>r. sale_ORDER_ID r = ord_ORDER_ID order)
           (sales_data_of customers products stores employees orders details)
         = sales_rows_of customers products stores employees details order"
proof -
  from assms(2) obtain k where k: "k < length orders" "orders ! k = order"
    by (auto simp: in_set_conv_nth)
  have all: "list_all2 (\<lambda>order rs. \<forall>r\<in>set rs. sale_ORDER_ID r = ord_ORDER_ID order) orders
               (map (sales_rows_of customers products stores employees details) orders)"
    by (rule list_all2_map_right) (rule sales_rows_of_order_id)
  from filter_concat_block[OF all assms(1) k(1)] k show ?thesis
    by (simp add: sales_data_of_def)
qed


lemma sales_data_of_length:
  assumes "distinct (map ord_ORDER_ID orders)"
  shows "length (sales_data_of customers products stores employees orders details)
         = sum_list (map (\<lambda>order. length (filter (\<lambda>r. sale_ORDER_ID r = ord_ORDER_ID order)
               (sales_data_of customers products stores employees orders details))) orders)"
proof -
  have "map (\<lambda>order. length (filter (\<lambda>r. sale_ORDER_ID r = ord_ORDER_ID order)
               (sales_data_of customers products stores employees orders details))) orders
        = map (\<lambda>order. length (sales_rows_of customers products stores employees details order))
            orders"
    by (rule map_cong[OF refl]) (simp add: sales_data_of_per_order[OF assms])
  then show ?thesis
    by (simp only:) (simp add: sales_data_of_def length_concat comp_def)
qed

lemma steady_num_products: "steady (4 / 10) (randint 1 5) (\<lambda>k. k = 3)"
  by (simp add: steady_def randint_steady frac_def)

lemma order_row_steady_lines:
  assumes "customers \<noteq> []" "stores \<noteq> []"
    and "\<forall>s\<in>set stores. \<exists>e\<in>set employees. emp_STORE_ID e = store_STORE_ID s"
  shows "steady (4 / 10) (order_row today customers stores employees products i)
           (\<lambda>(order, lines). int (length lines) = min 3 (int (length products)))"
  unfolding order_row_def Let_def
proof (rule steady_bind[OF succeeds_steady[OF succeeds_choice_any[OF assms(1)]]],
    rule steady_bind[OF succeeds_steady[OF succeeds_choice[OF assms(2)]]], goal_cases)
  case (1 customer store)
  from 1(2) assms(3) have ne: "filter (\<lambda>e. emp_STORE_ID e = store_STORE_ID store) employees \<noteq> []"
    by (auto simp: filter_empty_conv)
  have r1: "succeeds (randint 0 730) (\<lambda>x. True)" by (rule succeeds_randint_any) simp
  have r2: "succeeds (randint 1 14) (\<lambda>x. True)" by (rule succeeds_randint_any) simp
  have r3: "succeeds (randint 0 500) (\<lambda>x. True)" by (rule succeeds_randint_any) simp
  show ?case
  proof (rule steady_bind[OF succeeds_steady[OF succeeds_choice_any[OF ne]]],
      rule steady_bind[OF succeeds_steady[OF r1]],
      rule steady_bind[OF succeeds_steady[OF r2]],
      rule steady_bind[OF succeeds_steady[OF ship_date_of_succeeds]],
      rule steady_bind[OF succeeds_steady[OF order_status_of_succeeds]],
      rule steady_bind[OF steady_num_products], goal_cases)
    case (1 employee order_days required_days ship_date order_status num_products)
    have k: "0 \<le> min num_products (int (length products))"
      "min num_products (int (length products)) \<le> int (length products)"
      using 1(6) by simp_all
    show ?case
    proof (rule steady_bind[OF succeeds_steady[OF sample_succeeds[OF k]]],
        rule steady_bind[OF succeeds_steady[OF r3]],
        rule steady_bind[OF succeeds_steady[OF order_lines_succeeds]], goal_cases)
      case (1 order_products shipping_cost res)
      obtain lines t d where res: "res = (lines, t, d)" by (cases res)
      from 1(3) have len: "length lines = length order_products" unfolding res by simp
      from 1(1) \<open>num_products = 3\<close>
      have "int (length order_products) = min 3 (int (length products))" by simp
      with len have post: "int (length lines) = min 3 (int (length products))" by simp
      have c1: "succeeds (choice shipping_methods) (\<lambda>x. True)"
        by (rule succeeds_choice_any) (simp add: shipping_methods_def)
      have c2: "succeeds (choice payment_methods) (\<lambda>x. True)"
        by (rule succeeds_choice_any) (simp add: payment_methods_def)
      show ?case
        unfolding res prod.case
        by (rule steady_bind[OF succeeds_steady[OF c1]],
            rule steady_bind[OF succeeds_steady[OF c2]], rule steady_return)
           (use post in simp)
    qed
  qed
qed

lemma list_all2_rows_length:
  "list_all2 (\<lambda>i (x, y). int (length y) = c) idx rows
     \<Longrightarrow> int (length (concat (map snd rows))) = int (length (map fst rows)) * c"
  by (induction idx rows rule: list_all2_induct) (auto simp: algebra_simps)

lemma generate_orders_steady_lines:
  assumes "customers \<noteq> []" "stores \<noteq> []"
    and "\<forall>s\<in>set stores. \<exists>e\<in>set employees. emp_STORE_ID e = store_STORE_ID s"
  shows "steady (4 / 10) (generate_orders today customers stores employees products n)
           (\<lambda>(orders, details).
              int (length details) = int (length orders) * min 3 (int (length products)))"
  unfolding generate_orders_def
proof (rule steady_bind[OF steady_for_each[OF order_row_steady_lines[OF assms]]],
    rule steady_return, goal_cases)
  case (1 rows)
  from list_all2_rows_length[OF 1] show ?case by simp
qed


lemma generate_all_data_steady_lines:
  assumes "0 < nc" "0 < ne"
  shows "steady (4 / 10) (generate_all_data today nc np 1 ne no)
           (\<lambda>data. int (length (data_order_details data))
                     = int (length (data_orders data))
                       * min 3 (int (length (data_products data))))"
  unfolding generate_all_data_def
proof (rule steady_bind[OF succeeds_steady[OF generate_customers_succeeds]],
    rule steady_bind[OF succeeds_steady[OF generate_customer_addresses_succeeds]],
    rule steady_bind[OF succeeds_steady[OF generate_products_succeeds]],
    rule steady_bind[OF succeeds_steady[OF generate_stores_succeeds]], goal_cases)
  case (1 customers customer_addresses products stores0)
  from 1(1) assms(1) have cust: "customers \<noteq> []"
    using upto_nonempty[of nc] by auto
  from 1(4) have ids0: "map store_STORE_ID stores0 = [1]" by (simp add: upto_rec1)
  then have ne0: "stores0 \<noteq> []" by auto
  show ?case
  proof (rule steady_bind[OF steady_and_results[OF generate_employees_steady[OF ne0]
            generate_employees_results]], goal_cases)
    case (1 res)
    obtain employees stores where res: "res = (employees, stores)" by (cases res)
    from 1 have eids: "map emp_EMPLOYEE_ID employees = [1..ne]"
      and est: "\<forall>e\<in>set employees. \<exists>s\<in>set stores0. emp_STORE_ID e = store_STORE_ID s"
      and sids: "map store_STORE_ID stores = map store_STORE_ID stores0"
      unfolding res by simp_all
    from eids assms(2) obtain e where e: "e \<in> set employees"
      using upto_nonempty[of ne] by (cases employees) auto
    have set0: "store_STORE_ID ` set stores0 = {1}"
      using arg_cong[OF ids0, of set] by simp
    with est e have e1: "emp_STORE_ID e = 1" by auto
    have set1: "store_STORE_ID ` set stores = {1}"
      using arg_cong[OF sids, of set] set0 by simp
    from sids ne0 have ne1: "stores \<noteq> []" by auto
    have every: "\<forall>s\<in>set stores. \<exists>e\<in>set employees. emp_STORE_ID e = store_STORE_ID s"
    proof
      fix s assume "s \<in> set stores"
      then have "store_STORE_ID s \<in> store_STORE_ID ` set stores" by (rule imageI)
      then have "store_STORE_ID s = 1" unfolding set1 by simp
      with e e1 show "\<exists>e\<in>set employees. emp_STORE_ID e = store_STORE_ID s" by auto
    qed
    show ?case
      unfolding res prod.case
    proof (rule steady_bind[OF generate_orders_steady_lines[OF cust ne1 every]], goal_cases)
      case (1 res')
      obtain orders details where res': "res' = (orders, details)" by (cases res')
      show ?case
        unfolding res' prod.case
        by (rule steady_return) (use 1 res' in simp)
    qed
  qed
qed

lemma sample_data_lines_run:
  "\<exists>data. generate_all_data 0 2 3 1 2 2 ([], 4 / 10) = Inr (data, ([], 4 / 10))
     \<and> map ord_ORDER_ID (data_orders data) = [1, 2]
     \<and> map prod_PRODUCT_ID (data_products data) = [1, 2, 3]
     \<and> length (data_order_details data) = 6"
proof -
  have pos: "0 < (2::int)" by simp
  from steadyD[OF steady_and_results[OF generate_all_data_steady_lines[OF pos pos]
        generate_all_data_integrity], of 0 3 2]
  obtain data where run: "generate_all_data 0 2 3 1 2 2 ([], 4 / 10) = Inr (data, ([], 4 / 10))"
    and len: "int (length (data_order_details data))
                = int (length (data_orders data)) * min 3 (int (length (data_products data)))"
    and oids: "map ord_ORDER_ID (data_orders data) = [1..2]"
    and pids: "map prod_PRODUCT_ID (data_products data) = [1..3]"
    by (elim exE conjE)
  from oids have o2: "map ord_ORDER_ID (data_orders data) = [1, 2]" by (simp add: upto_rec1)
  from pids have p3: "map prod_PRODUCT_ID (data_products data) = [1, 2, 3]"
    by (simp add: upto_rec1)
  from arg_cong[OF o2, of length] have lo: "length (data_orders data) = 2" by simp
  from arg_cong[OF p3, of length] have lp: "length (data_products data) = 3" by simp
  from len have "int (length (data_order_details data)) = 6" unfolding lo lp by simp
  then have l6: "length (data_order_details data) = 6" by simp
  show ?thesis
    by (rule exI[of _ data]) (simp only: run o2 p3 l6 simp_thms)
qed

section \<open>Identifiers are dense\<close>

lemma distinct_upto: "distinct [i..j]"
  by simp

text \<open>
  C7. For every positive count, \<open>generate_customers\<close> returns, and returns exactly that many
  customers, whose \<open>CUSTOMER_ID\<close>s are the integers from 1 to the count in order (so they
  are distinct and without gaps); \<open>generate_customer_addresses\<close> returns on every list of
  customers, with at least one address and at most two for each customer of the list, and
  the \<open>ADDRESS_ID\<close>s it assigns are the integers from 1 to the number of addresses, in
  order.
\<close>

theorem generate_customers_sequential_ids:
  assumes "0 < n"
  shows "\<exists>customers g1 addresses g2.
           generate_customers today n g = Inr (customers, g1)
           \<and> int (length customers) = n
           \<and> map cust_CUSTOMER_ID customers = [1..n]
           \<and> distinct (map cust_CUSTOMER_ID customers)
           \<and> generate_customer_addresses cs g' = Inr (addresses, g2)
           \<and> length cs \<le> length addresses \<and> length addresses \<le> 2 * length cs
           \<and> (\<forall>c\<in>set cs. \<exists>a\<in>set addresses. addr_CUSTOMER_ID a = cust_CUSTOMER_ID c)
           \<and> map addr_ADDRESS_ID addresses = [1..int (length addresses)]
           \<and> distinct (map addr_ADDRESS_ID addresses)"
proof -
  from succeedsD[OF generate_customers_succeeds, of today n g]
  obtain customers g1 where c: "generate_customers today n g = Inr (customers, g1)"
    and ids: "map cust_CUSTOMER_ID customers = [1..n]" by blast
  from succeedsD[OF generate_customer_addresses_covers, of cs g']
  obtain addresses g2 where a: "generate_customer_addresses cs g' = Inr (addresses, g2)"
    and lo: "length cs \<le> length addresses" and hi: "length addresses \<le> 2 * length cs"
    and each: "\<forall>c\<in>set cs. \<exists>a\<in>set addresses. addr_CUSTOMER_ID a = cust_CUSTOMER_ID c"
    and aids: "map addr_ADDRESS_ID addresses = [1..int (length addresses)]"
    by (elim exE conjE)
  have "length (map cust_CUSTOMER_ID customers) = length [1..n]" using ids by simp
  then have len: "int (length customers) = n" using assms by simp
  have d1: "distinct (map cust_CUSTOMER_ID customers)" unfolding ids by simp
  have d2: "distinct (map addr_ADDRESS_ID addresses)"
    using aids distinct_upto[of 1 "int (length addresses)"] by simp
  show ?thesis
    apply (rule exI[of _ customers], rule exI[of _ g1], rule exI[of _ addresses],
        rule exI[of _ g2])
    using c len ids d1 a lo hi each aids d2 apply simp
    done
qed

theorem generate_customers_sequential_ids_witness:
  "(0::int) < 3 \<and>
   (\<exists>customers g1 addresses.
      generate_customers 0 3 ([], 0) = Inr (customers, g1)
      \<and> int (length customers) = 3
      \<and> map cust_CUSTOMER_ID customers = [1, 2, 3]
      \<and> distinct (map cust_CUSTOMER_ID customers)
      \<and> generate_customer_addresses [customer_1, customer_2] ([], 9 / 10)
          = Inr (addresses, ([], 9 / 10))
      \<and> length [customer_1, customer_2] \<le> length addresses
      \<and> length addresses \<le> 2 * length [customer_1, customer_2]
      \<and> (\<forall>c\<in>set [customer_1, customer_2].
            \<exists>a\<in>set addresses. addr_CUSTOMER_ID a = cust_CUSTOMER_ID c)
      \<and> map addr_ADDRESS_ID addresses = [1, 2, 3, 4]
      \<and> map addr_CUSTOMER_ID addresses = [1, 1, 2, 2]
      \<and> distinct (map addr_ADDRESS_ID addresses))"
proof -
  have h: "(0::int) < 3" by simp
  have u: "[1..3::int] = [1, 2, 3]" by (simp add: upto_rec1)
  from generate_customers_sequential_ids[OF h, of 0 "([], 0)" "[customer_1, customer_2]"
      "([], 9 / 10)"]
  obtain customers g1 addresses g2
    where c: "generate_customers 0 3 ([], 0) = Inr (customers, g1)"
      "int (length customers) = 3" "map cust_CUSTOMER_ID customers = [1..3]"
      "distinct (map cust_CUSTOMER_ID customers)"
    and a: "generate_customer_addresses [customer_1, customer_2] ([], 9 / 10)
              = Inr (addresses, g2)"
      "length [customer_1, customer_2] \<le> length addresses"
      "length addresses \<le> 2 * length [customer_1, customer_2]"
      "\<forall>c\<in>set [customer_1, customer_2].
         \<exists>a\<in>set addresses. addr_CUSTOMER_ID a = cust_CUSTOMER_ID c"
      "map addr_ADDRESS_ID addresses = [1..int (length addresses)]"
      "distinct (map addr_ADDRESS_ID addresses)"
    by (elim exE conjE)
  from sample_addresses_run obtain addresses'
    where r: "generate_customer_addresses [customer_1, customer_2] ([], 9 / 10)
                = Inr (addresses', ([], 9 / 10))"
      "map addr_ADDRESS_ID addresses' = [1, 2, 3, 4]"
      "map addr_CUSTOMER_ID addresses' = [1, 1, 2, 2]"
    by (elim exE conjE)
  from a(1) r(1) have same: "addresses' = addresses" "g2 = ([], 9 / 10)" by simp_all
  show ?thesis
    apply (rule conjI, rule h)
    apply (rule exI[of _ customers], rule exI[of _ g1], rule exI[of _ addresses])
    using c a r unfolding same u apply simp
    done
qed

section \<open>Prices of a product\<close>

text \<open>
  C8: for every product produced by \<open>generate_products\<close> the stored, rounded prices
  satisfy \<open>UNIT_COST < UNIT_PRICE\<close> and \<open>UNIT_PRICE \<le> MSRP\<close>. The cost is drawn at 60 to
  80 percent of the base price and the recommended price at 110 to 130 percent of it; as the
  base price is at least 500, rounding to the hundredth cannot close either gap, so the order
  holds on every tape, not only with high probability. The generator returns on every tape,
  with one product per identifier from 1 to \<open>n\<close>.
\<close>

theorem generate_products_price_order:
  "\<exists>products g'.
     generate_products n g = Inr (products, g')
     \<and> map prod_PRODUCT_ID products = [1..n]
     \<and> (\<forall>p\<in>set products. prod_UNIT_COST p < prod_UNIT_PRICE p
            \<and> prod_UNIT_PRICE p \<le> prod_MSRP p)"
  using succeedsD[OF generate_products_succeeds, of n g] by blast

theorem generate_products_price_order_witness:
  "\<exists>products g'.
     generate_products 2 ([7 / 10, 1 / 3], 9 / 10) = Inr (products, g')
     \<and> map prod_PRODUCT_ID products = [1, 2]
     \<and> (\<forall>p\<in>set products. prod_UNIT_COST p < prod_UNIT_PRICE p
            \<and> prod_UNIT_PRICE p \<le> prod_MSRP p)"
  using generate_products_price_order[of 2 "([7 / 10, 1 / 3], 9 / 10)"]
  by (simp add: upto_rec1)

section \<open>References between the tables\<close>

text \<open>
  C2: every employee produced by \<open>generate_employees\<close> carries the \<open>STORE_ID\<close> of a store
  of the table passed in (the same identifiers are those of the table as the generator leaves
  it, with the managers filled in); and every order produced by \<open>generate_orders\<close> carries
  the \<open>EMPLOYEE_ID\<close> of an employee whose \<open>STORE_ID\<close> is the order's \<open>STORE_ID\<close>: the
  employee is chosen among those of the store chosen.
\<close>

theorem employees_and_orders_reference_stores:
  "(generate_employees today stores n g = Inr ((employees, stores'), g')
      \<longrightarrow> (\<forall>e\<in>set employees. \<exists>s\<in>set stores. store_STORE_ID s = emp_STORE_ID e)
          \<and> (\<forall>e\<in>set employees. \<exists>s\<in>set stores'. store_STORE_ID s = emp_STORE_ID e))
   \<and> (generate_orders today customers order_stores order_employees products m h
         = Inr ((orders, details), h')
      \<longrightarrow> (\<forall>order\<in>set orders. \<exists>e\<in>set order_employees.
             emp_EMPLOYEE_ID e = ord_EMPLOYEE_ID order
             \<and> emp_STORE_ID e = ord_STORE_ID order))"
proof (intro conjI impI)
  assume run: "generate_employees today stores n g = Inr ((employees, stores'), g')"
  from resultsD[OF generate_employees_results run]
  have st: "\<forall>e\<in>set employees. \<exists>s\<in>set stores. emp_STORE_ID e = store_STORE_ID s"
    and ids: "map store_STORE_ID stores' = map store_STORE_ID stores" by simp_all
  from st show "\<forall>e\<in>set employees. \<exists>s\<in>set stores. store_STORE_ID s = emp_STORE_ID e"
    by metis
  have "store_STORE_ID ` set stores' = store_STORE_ID ` set stores"
    using arg_cong[OF ids, of set] by simp
  with st show "\<forall>e\<in>set employees. \<exists>s\<in>set stores'. store_STORE_ID s = emp_STORE_ID e"
    by (metis (no_types, lifting) imageE imageI)
next
  assume run: "generate_orders today customers order_stores order_employees products m h
                 = Inr ((orders, details), h')"
  have row: "results (order_row today customers order_stores order_employees products i)
     (\<lambda>(order, lines). \<exists>e\<in>set order_employees. emp_EMPLOYEE_ID e = ord_EMPLOYEE_ID order
             \<and> emp_STORE_ID e = ord_STORE_ID order)" for i
    by (rule results_weaken[OF order_row_results]) auto
  from resultsD[OF generate_orders_each[OF row] run]
  show "\<forall>order\<in>set orders. \<exists>e\<in>set order_employees.
             emp_EMPLOYEE_ID e = ord_EMPLOYEE_ID order
             \<and> emp_STORE_ID e = ord_STORE_ID order" by simp
qed

text \<open>
  The order half is run on two stores and three employees, of whom only \<open>employee_2\<close> is at
  the second store. The draw \<open>3 / 5\<close> picks the second store; the same draw on the whole
  list of employees would pick \<open>employee_1\<close>, of the first store, and the order carries
  \<open>employee_2\<close>.
\<close>

theorem employees_and_orders_reference_stores_witness:
  "(\<exists>employees stores'.
      generate_employees 1000 [store_1, store_2] 3 ([], 4 / 10)
        = Inr ((employees, stores'), ([], 4 / 10))
      \<and> map emp_EMPLOYEE_ID employees = [1, 2, 3]
      \<and> (\<forall>e\<in>set employees. \<exists>s\<in>set [store_1, store_2]. store_STORE_ID s = emp_STORE_ID e)
      \<and> (\<forall>e\<in>set employees. \<exists>s\<in>set stores'. store_STORE_ID s = emp_STORE_ID e))
   \<and> generate_orders 1000 [customer_1, customer_2] [store_1, store_2]
         [employee_2, employee_1, employee_3] [product_1, product_2] 1 ([], 3 / 5)
       = Inr (([order_at_store_2], [first_line_at_store_2, second_line_at_store_2]),
              ([], 3 / 5))
   \<and> map emp_STORE_ID [employee_2, employee_1, employee_3] = [2, 1, 1]
   \<and> map emp_EMPLOYEE_ID [employee_2, employee_1, employee_3] = [2, 1, 3]
   \<and> [employee_2, employee_1, employee_3] ! nat \<lfloor>frac (3 / 5 :: real) * 3\<rfloor> = employee_1
   \<and> ord_STORE_ID order_at_store_2 = 2
   \<and> ord_EMPLOYEE_ID order_at_store_2 = 2
   \<and> (\<exists>e\<in>set [employee_2, employee_1, employee_3].
         emp_EMPLOYEE_ID e = ord_EMPLOYEE_ID order_at_store_2
         \<and> emp_STORE_ID e = ord_STORE_ID order_at_store_2)"
proof -
  have "[store_1, store_2] \<noteq> []" by simp
  from steadyD[OF steady_and_results[OF generate_employees_steady[OF this]
        generate_employees_results], of 1000 3]
  obtain employees stores'
    where e: "generate_employees 1000 [store_1, store_2] 3 ([], 4 / 10)
                = Inr ((employees, stores'), ([], 4 / 10))"
      "map emp_EMPLOYEE_ID employees = [1, 2, 3]"
    by (auto simp: upto_rec1)
  note t = employees_and_orders_reference_stores[where today = 1000
      and stores = "[store_1, store_2]" and n = 3 and g = "([], 4 / 10)"
      and employees = employees and stores' = stores' and g' = "([], 4 / 10)"
      and customers = "[customer_1, customer_2]" and order_stores = "[store_1, store_2]"
      and order_employees = "[employee_2, employee_1, employee_3]"
      and products = "[product_1, product_2]" and m = 1
      and h = "([], 3 / 5)" and orders = "[order_at_store_2]"
      and details = "[first_line_at_store_2, second_line_at_store_2]" and h' = "([], 3 / 5)"]
  from t e(1) generate_orders_at_store_2
  have facts: "(\<forall>e\<in>set employees. \<exists>s\<in>set [store_1, store_2]. store_STORE_ID s = emp_STORE_ID e)
     \<and> (\<forall>e\<in>set employees. \<exists>s\<in>set stores'. store_STORE_ID s = emp_STORE_ID e)
     \<and> (\<forall>order\<in>set [order_at_store_2]. \<exists>e\<in>set [employee_2, employee_1, employee_3].
           emp_EMPLOYEE_ID e = ord_EMPLOYEE_ID order \<and> emp_STORE_ID e = ord_STORE_ID order)"
    by simp
  have first: "\<exists>employees stores'.
      generate_employees 1000 [store_1, store_2] 3 ([], 4 / 10)
        = Inr ((employees, stores'), ([], 4 / 10))
      \<and> map emp_EMPLOYEE_ID employees = [1, 2, 3]
      \<and> (\<forall>e\<in>set employees. \<exists>s\<in>set [store_1, store_2]. store_STORE_ID s = emp_STORE_ID e)
      \<and> (\<forall>e\<in>set employees. \<exists>s\<in>set stores'. store_STORE_ID s = emp_STORE_ID e)"
    using e facts by (intro exI[of _ employees] exI[of _ stores']) simp
  have vals: "map emp_STORE_ID [employee_2, employee_1, employee_3] = [2, 1, 1]"
    "map emp_EMPLOYEE_ID [employee_2, employee_1, employee_3] = [2, 1, 3]"
    "[employee_2, employee_1, employee_3] ! nat \<lfloor>frac (3 / 5 :: real) * 3\<rfloor> = employee_1"
    "ord_STORE_ID order_at_store_2 = 2" "ord_EMPLOYEE_ID order_at_store_2 = 2"
    by (simp_all add: employee_1_def employee_2_def employee_3_def order_at_store_2_def
        frac_three_fifths)
  from facts have last: "\<exists>e\<in>set [employee_2, employee_1, employee_3].
         emp_EMPLOYEE_ID e = ord_EMPLOYEE_ID order_at_store_2
         \<and> emp_STORE_ID e = ord_STORE_ID order_at_store_2"
    by simp
  show ?thesis
    apply (rule conjI, rule first)
    apply (rule conjI, rule generate_orders_at_store_2)
    apply (rule conjI, rule vals(1))
    apply (rule conjI, rule vals(2))
    apply (rule conjI, rule vals(3))
    apply (rule conjI, rule vals(4))
    apply (rule conjI, rule vals(5))
    apply (rule last)
    done
qed

section \<open>The shipping address of an order\<close>

text \<open>
  C10: every order produced by \<open>generate_orders\<close> has \<open>SHIPPING_ADDRESS_ID\<close> \<open>None\<close>, and
  so has every order of the data set returned by \<open>generate_all_data\<close>: no pass fills the
  field in after the order has been built.
\<close>

theorem shipping_address_never_set:
  "(generate_orders today customers stores employees products n g = Inr ((orders, details), g')
      \<longrightarrow> (\<forall>order\<in>set orders. ord_SHIPPING_ADDRESS_ID order = None))
   \<and> (generate_all_data today nc np ns ne no h = Inr (data, h')
      \<longrightarrow> (\<forall>order\<in>set (data_orders data). ord_SHIPPING_ADDRESS_ID order = None))"
proof (intro conjI impI)
  assume run: "generate_orders today customers stores employees products n g
                 = Inr ((orders, details), g')"
  from resultsD[OF generate_orders_shipping run]
  show "\<forall>order\<in>set orders. ord_SHIPPING_ADDRESS_ID order = None" by simp
next
  assume run: "generate_all_data today nc np ns ne no h = Inr (data, h')"
  from resultsD[OF generate_all_data_results run]
  show "\<forall>order\<in>set (data_orders data). ord_SHIPPING_ADDRESS_ID order = None" by simp
qed

theorem shipping_address_never_set_witness:
  "\<exists>orders details g' data.
     generate_orders 0 [customer_1] [store_1] [employee_1] [product_1] 2 ([], 0)
       = Inr ((orders, details), g')
     \<and> map ord_ORDER_ID orders = [1, 2]
     \<and> (\<forall>order\<in>set orders. ord_SHIPPING_ADDRESS_ID order = None)
     \<and> generate_all_data 0 2 3 1 2 2 ([], 4 / 10) = Inr (data, ([], 4 / 10))
     \<and> map ord_ORDER_ID (data_orders data) = [1, 2]
     \<and> (\<forall>order\<in>set (data_orders data). ord_SHIPPING_ADDRESS_ID order = None)"
proof -
  from sample_orders_run obtain orders details g'
    where o: "generate_orders 0 [customer_1] [store_1] [employee_1] [product_1] 2 ([], 0)
                = Inr ((orders, details), g')"
      "map ord_ORDER_ID orders = [1, 2]" by auto
  from sample_data_run obtain data
    where d: "generate_all_data 0 2 3 1 2 2 ([], 4 / 10) = Inr (data, ([], 4 / 10))"
      "map ord_ORDER_ID (data_orders data) = [1, 2]" by auto
  from o d shipping_address_never_set[where today = 0
      and customers = "[customer_1]" and stores = "[store_1]" and employees = "[employee_1]"
      and products = "[product_1]" and n = 2 and g = "([], 0)" and orders = orders
      and details = details and g' = g' and nc = 2 and np = 3 and ns = 1 and ne = 2
      and no = 2 and h = "([], 4 / 10)" and data = data and h' = "([], 4 / 10)"]
  have "(\<forall>order\<in>set orders. ord_SHIPPING_ADDRESS_ID order = None)
     \<and> (\<forall>order\<in>set (data_orders data). ord_SHIPPING_ADDRESS_ID order = None)"
    by simp
  with o d show ?thesis
    by (intro exI[of _ orders] exI[of _ details] exI[of _ g'] exI[of _ data]) simp
qed

section \<open>The amounts of an order\<close>

text \<open>
  C1: for every order produced by \<open>generate_orders\<close> the stored \<open>FINAL_AMOUNT\<close> equals
  \<open>round(TOTAL_AMOUNT - DISCOUNT_AMOUNT + TAX_AMOUNT + SHIPPING_COST, 2)\<close> within rounding
  tolerance: the two differ by at most two hundredths, each of the three stored components
  and the stored final amount being rounded on its own from the unrounded sums.
  \<open>TOTAL_AMOUNT\<close> is the subtotal of the order's lines (the sum of their stored amounts, up to
  half a hundredth per line and for the total), \<open>TAX_AMOUNT\<close> is 15 percent of that subtotal
  (up to a hundredth), and \<open>DISCOUNT_AMOUNT\<close> is the sum of what the discount takes off each
  line, \<open>UNIT_PRICE * QUANTITY_ORDERED\<close> less the line amount (up to half a hundredth per line
  and for the total). The lines of an order are the order lines that carry its \<open>ORDER_ID\<close>.
\<close>

theorem order_final_amount_reconciles:
  assumes "generate_orders today customers stores employees products n g
             = Inr ((orders, details), g')"
    and "order \<in> set orders"
  shows "let lines = filter (\<lambda>l. line_ORDER_ID l = ord_ORDER_ID order) details in
       \<bar>ord_FINAL_AMOUNT order
          - round2 (ord_TOTAL_AMOUNT order - ord_DISCOUNT_AMOUNT order + ord_TAX_AMOUNT order
                    + of_int (ord_SHIPPING_COST order))\<bar> \<le> 2 / 100
     \<and> \<bar>ord_TOTAL_AMOUNT order - sum_list (map line_TOTAL_LINE_AMOUNT lines)\<bar>
          \<le> (of_nat (length lines) + 1) / 200
     \<and> \<bar>ord_TAX_AMOUNT order - 15 / 100 * ord_TOTAL_AMOUNT order\<bar> \<le> 1 / 100
     \<and> \<bar>ord_DISCOUNT_AMOUNT order
          - sum_list (map (\<lambda>l. line_UNIT_PRICE l * of_int (line_QUANTITY_ORDERED l)
                                 - line_TOTAL_LINE_AMOUNT l) lines)\<bar>
          \<le> (of_nat (length lines) + 1) / 200"
  using resultsD[OF generate_orders_lines_of[OF order_row_money] assms(1)] assms(2)
  unfolding Let_def by simp

theorem order_final_amount_reconciles_witness:
  "generate_orders 0 [customer_1] [store_1] [employee_1] [product_1] 1 ([], 1 / 1024)
     = Inr (([sample_order], [sample_line]), ([], 1 / 1024))
   \<and> sample_order \<in> set [sample_order]
   \<and> filter (\<lambda>l. line_ORDER_ID l = ord_ORDER_ID sample_order) [sample_line] = [sample_line]
   \<and> \<bar>ord_FINAL_AMOUNT sample_order
        - round2 (ord_TOTAL_AMOUNT sample_order - ord_DISCOUNT_AMOUNT sample_order
                  + ord_TAX_AMOUNT sample_order + of_int (ord_SHIPPING_COST sample_order))\<bar>
       \<le> 2 / 100
   \<and> \<bar>ord_TOTAL_AMOUNT sample_order - sum_list (map line_TOTAL_LINE_AMOUNT [sample_line])\<bar>
       \<le> (of_nat (length [sample_line]) + 1) / 200
   \<and> \<bar>ord_TAX_AMOUNT sample_order - 15 / 100 * ord_TOTAL_AMOUNT sample_order\<bar> \<le> 1 / 100
   \<and> \<bar>ord_DISCOUNT_AMOUNT sample_order
        - sum_list (map (\<lambda>l. line_UNIT_PRICE l * of_int (line_QUANTITY_ORDERED l)
                               - line_TOTAL_LINE_AMOUNT l) [sample_line])\<bar>
       \<le> (of_nat (length [sample_line]) + 1) / 200"
proof -
  have f: "filter (\<lambda>l. line_ORDER_ID l = ord_ORDER_ID sample_order) [sample_line]
             = [sample_line]"
    by (simp add: sample_order_def sample_line_def)
  have m: "sample_order \<in> set [sample_order]" by simp
  from order_final_amount_reconciles[OF generate_orders_sample m] f m generate_orders_sample
  show ?thesis unfolding Let_def by simp
qed

section \<open>The amount of an order line\<close>

text \<open>
  C4 as the specification states it fails: the stored \<open>TOTAL_LINE_AMOUNT\<close> is not the amount
  recomputed from the stored fields. On the sample rows, with every draw \<open>1 / 1024\<close>, the
  discount drawn is 0.0001953125; the line stores \<open>DISCOUNT_PERCENT\<close> 0.02 and
  \<open>TOTAL_LINE_AMOUNT\<close> 49990.23, where the stored fields give 49990.00.
\<close>

theorem line_amount_not_from_stored_percent:
  "generate_orders 0 [customer_1] [store_1] [employee_1] [product_1] 1 ([], 1 / 1024)
     = Inr (([sample_order], [sample_line]), ([], 1 / 1024))
   \<and> line_DISCOUNT_PERCENT sample_line = 2 / 100
   \<and> line_TOTAL_LINE_AMOUNT sample_line = 4999023 / 100
   \<and> round2 (line_UNIT_PRICE sample_line * of_int (line_QUANTITY_ORDERED sample_line)
              * (1 - line_DISCOUNT_PERCENT sample_line / 100)) = 49990
   \<and> line_TOTAL_LINE_AMOUNT sample_line
       \<noteq> round2 (line_UNIT_PRICE sample_line * of_int (line_QUANTITY_ORDERED sample_line)
                 * (1 - line_DISCOUNT_PERCENT sample_line / 100))"
proof -
  have "line_UNIT_PRICE sample_line * of_int (line_QUANTITY_ORDERED sample_line)
          * (1 - line_DISCOUNT_PERCENT sample_line / 100) = of_int 49990"
    by (simp add: sample_line_def)
  then have "round2 (line_UNIT_PRICE sample_line * of_int (line_QUANTITY_ORDERED sample_line)
              * (1 - line_DISCOUNT_PERCENT sample_line / 100)) = 49990"
    using round2_of_int[of 49990] by simp
  then show ?thesis
    using generate_orders_sample by (simp add: sample_line_def)
qed

text \<open>
  C4, amended: for every order line produced by \<open>generate_orders\<close> the stored
  \<open>DISCOUNT_PERCENT\<close> lies between 0 and 20, and the stored \<open>TOTAL_LINE_AMOUNT\<close> agrees with
  \<open>round(UNIT_PRICE * QUANTITY_ORDERED * (1 - DISCOUNT_PERCENT / 100), 2)\<close>, the amount
  recomputed from the stored fields, up to \<open>|UNIT_PRICE * QUANTITY_ORDERED| / 20000\<close> and a
  hundredth, not exactly: the line amount is computed from the discount as it was drawn and
  the percentage is rounded to two decimals on its own.
\<close>

theorem line_amount_near_stored_percent:
  assumes "generate_orders today customers stores employees products n g
             = Inr ((orders, details), g')"
    and "l \<in> set details"
  shows "0 \<le> line_DISCOUNT_PERCENT l \<and> line_DISCOUNT_PERCENT l \<le> 20
       \<and> \<bar>line_TOTAL_LINE_AMOUNT l
            - round2 (line_UNIT_PRICE l * of_int (line_QUANTITY_ORDERED l)
                      * (1 - line_DISCOUNT_PERCENT l / 100))\<bar>
          \<le> \<bar>line_UNIT_PRICE l * of_int (line_QUANTITY_ORDERED l)\<bar> / 20000 + 1 / 100"
  using resultsD[OF generate_orders_each_line[OF order_row_line_amounts] assms(1)] assms(2)
  by simp

theorem line_amount_near_stored_percent_witness:
  "generate_orders 0 [customer_1] [store_1] [employee_1] [product_1] 1 ([], 1 / 1024)
     = Inr (([sample_order], [sample_line]), ([], 1 / 1024))
   \<and> sample_line \<in> set [sample_line]
   \<and> line_DISCOUNT_PERCENT sample_line = 2 / 100
   \<and> line_TOTAL_LINE_AMOUNT sample_line = 4999023 / 100
   \<and> line_UNIT_PRICE sample_line * of_int (line_QUANTITY_ORDERED sample_line) = 50000
   \<and> 0 \<le> line_DISCOUNT_PERCENT sample_line \<and> line_DISCOUNT_PERCENT sample_line \<le> 20
   \<and> \<bar>line_TOTAL_LINE_AMOUNT sample_line
        - round2 (line_UNIT_PRICE sample_line * of_int (line_QUANTITY_ORDERED sample_line)
                  * (1 - line_DISCOUNT_PERCENT sample_line / 100))\<bar>
      \<le> \<bar>line_UNIT_PRICE sample_line * of_int (line_QUANTITY_ORDERED sample_line)\<bar> / 20000
          + 1 / 100"
proof -
  have m: "sample_line \<in> set [sample_line]" by simp
  have v: "line_DISCOUNT_PERCENT sample_line = 2 / 100"
    "line_TOTAL_LINE_AMOUNT sample_line = 4999023 / 100"
    "line_UNIT_PRICE sample_line * of_int (line_QUANTITY_ORDERED sample_line) = 50000"
    by (simp_all add: sample_line_def)
  note t = line_amount_near_stored_percent[OF generate_orders_sample m]
  show ?thesis
    apply (rule conjI, rule generate_orders_sample)
    apply (rule conjI, rule m)
    apply (rule conjI, rule v(1))
    apply (rule conjI, rule v(2))
    apply (rule conjI, rule v(3))
    apply (rule t)
    done
qed

section \<open>Selections from an empty list\<close>

text \<open>
  C3: the specification asks that the choice of an employee for an order be guarded against
  a store that has no employee. \<open>generate_orders\<close> has no such guard: with two stores, the
  one employee in the first, and the draw that picks the second store, the choice among the
  store's employees is a choice from the empty list and the generator ends with
  \<open>IndexError\<close>. (In \<open>generate_employees\<close> the choice of a store's manager among the same
  employees is guarded by a test for the empty list.)
\<close>

theorem generate_orders_unguarded_selection:
  "generate_orders 0 [customer_1] [store_1, store_2] [employee_1] [product_1] 1 ([], 6 / 10)
     = Inl IndexError"
  by (rule generate_orders_no_employee)

section \<open>Counts that are not positive and empty tables\<close>

text \<open>
  C5 as the specification states it fails, in both halves. A count that is not positive is
  not rejected: \<open>generate_customers\<close> asked for no customer, and \<open>generate_employees\<close> asked
  for \<open>-1\<close> employees, return empty tables. An empty table is not rejected either:
  \<open>generate_customer_addresses\<close> given no customer returns no address, and
  \<open>generate_orders\<close> given no product returns an order without lines, its amounts zero.
\<close>

theorem empty_inputs_return_silently:
  "generate_customers 0 0 ([], 0) = Inr ([], ([], 0))
   \<and> generate_employees 0 [store_1] (- 1) ([], 0) = Inr (([], [store_1]), ([], 0))
   \<and> generate_customer_addresses [] ([], 0) = Inr ([], ([], 0))
   \<and> generate_orders 0 [customer_1] [store_1] [employee_1] [] 1 ([], 1 / 1024)
       = Inr (([order_without_lines], []), ([], 1 / 1024))"
  by (simp add: generate_customers_def return_gen_def generate_employees_no_count
      generate_customer_addresses_nobody generate_orders_no_products)

text \<open>
  C5, amended: no generator checks its count or its tables. For a count that is not
  positive \<open>generate_customers\<close>, \<open>generate_products\<close>, \<open>generate_stores\<close>,
  \<open>generate_employees\<close> and \<open>generate_orders\<close> return empty tables, on every tape and without
  a draw (\<open>generate_employees\<close> returns the stores as they were passed in).
  \<open>generate_customer_addresses\<close> given no customer returns no address. \<open>generate_orders\<close>
  given no product, with customers, stores and an employee at every store, returns the
  orders asked for, without any line and with \<open>TOTAL_AMOUNT\<close> zero. The generators that choose
  from an empty table fail on every tape with \<open>IndexError\<close>, the error of a choice from the
  empty list, and return nothing, when the count is positive: \<open>generate_employees\<close> with no
  store, \<open>generate_orders\<close> with no customer, and \<open>generate_orders\<close> with customers and no
  store. (What \<open>generate_orders\<close> does when a store has no employee is the matter of C3.)
\<close>

theorem generators_on_empty_inputs:
  "(n \<le> 0 \<longrightarrow>
      generate_customers today n g = Inr ([], g)
      \<and> generate_products n g = Inr ([], g)
      \<and> generate_stores today n g = Inr ([], g)
      \<and> generate_employees today stores n g = Inr (([], stores), g)
      \<and> generate_orders today customers stores employees products n g = Inr (([], []), g))
   \<and> generate_customer_addresses [] g = Inr ([], g)
   \<and> (customers \<noteq> [] \<and> stores \<noteq> []
        \<and> (\<forall>s\<in>set stores. \<exists>e\<in>set employees. emp_STORE_ID e = store_STORE_ID s)
      \<longrightarrow> (\<exists>orders g'.
             generate_orders today customers stores employees [] m g = Inr ((orders, []), g')
             \<and> map ord_ORDER_ID orders = [1..m]
             \<and> (\<forall>order\<in>set orders. ord_TOTAL_AMOUNT order = 0)))
   \<and> (0 < m \<longrightarrow>
        generate_employees today [] m g = Inl IndexError
        \<and> generate_orders today [] stores employees products m g = Inl IndexError
        \<and> (customers \<noteq> []
             \<longrightarrow> generate_orders today customers [] employees products m g = Inl IndexError))"
proof (intro conjI impI)
  assume "n \<le> 0"
  then show "generate_customers today n g = Inr ([], g)"
    and "generate_products n g = Inr ([], g)"
    and "generate_stores today n g = Inr ([], g)"
    and "generate_employees today stores n g = Inr (([], stores), g)"
    and "generate_orders today customers stores employees products n g = Inr (([], []), g)"
    by (simp_all add: generate_customers_def generate_products_def generate_stores_def
        return_gen_def generate_employees_no_count generate_orders_no_count)
next
  show "generate_customer_addresses [] g = Inr ([], g)"
    by (rule generate_customer_addresses_nobody)
next
  assume a: "customers \<noteq> [] \<and> stores \<noteq> []
        \<and> (\<forall>s\<in>set stores. \<exists>e\<in>set employees. emp_STORE_ID e = store_STORE_ID s)"
  then have c: "customers \<noteq> []" and s: "stores \<noteq> []"
    and e: "\<forall>s\<in>set stores. \<exists>e\<in>set employees. emp_STORE_ID e = store_STORE_ID s"
    by simp_all
  have tot: "succeeds (generate_orders today customers stores employees [] m)
               (\<lambda>(orders, details). details = [] \<and> map ord_ORDER_ID orders = [1..m]
                  \<and> (\<forall>order\<in>set orders. ord_TOTAL_AMOUNT order = 0))"
    by (rule succeeds_weaken[OF succeeds_and_results[OF generate_orders_succeeds[OF c s e]
            generate_orders_no_products_results]]) auto
  from succeedsD[OF tot, of g]
  obtain res g' where run: "generate_orders today customers stores employees [] m g
                              = Inr (res, g')"
    and p: "case res of (orders, details) \<Rightarrow> details = []
              \<and> map ord_ORDER_ID orders = [1..m]
              \<and> (\<forall>order\<in>set orders. ord_TOTAL_AMOUNT order = 0)"
    by (elim exE conjE)
  obtain orders details where res: "res = (orders, details)" by (cases res)
  from p have "details = []" "map ord_ORDER_ID orders = [1..m]"
    "\<forall>order\<in>set orders. ord_TOTAL_AMOUNT order = 0"
    unfolding res by simp_all
  with run show "\<exists>orders g'.
             generate_orders today customers stores employees [] m g = Inr ((orders, []), g')
             \<and> map ord_ORDER_ID orders = [1..m]
             \<and> (\<forall>order\<in>set orders. ord_TOTAL_AMOUNT order = 0)"
    unfolding res by (intro exI[of _ orders] exI[of _ g']) simp
next
  assume m: "0 < m"
  show "generate_employees today [] m g = Inl IndexError"
    by (rule generate_employees_no_stores[OF m])
  show "generate_orders today [] stores employees products m g = Inl IndexError"
    by (rule generate_orders_fails_first[OF m]) (rule order_row_no_customers)
  show "generate_orders today customers [] employees products m g = Inl IndexError"
    if "customers \<noteq> []"
    by (rule generate_orders_fails_first[OF m]) (rule order_row_no_stores[OF that])
qed

theorem generators_on_empty_inputs_witness:
  "(0::int) \<le> 0 \<and> (0::int) < 2 \<and> [customer_1] \<noteq> [] \<and> [store_1] \<noteq> []
   \<and> (\<exists>e\<in>set [employee_1]. emp_STORE_ID e = store_STORE_ID store_1)
   \<and> generate_customers 0 0 ([], 1 / 1024) = Inr ([], ([], 1 / 1024))
   \<and> generate_products 0 ([], 1 / 1024) = Inr ([], ([], 1 / 1024))
   \<and> generate_stores 0 0 ([], 1 / 1024) = Inr ([], ([], 1 / 1024))
   \<and> generate_employees 0 [store_1] 0 ([], 1 / 1024) = Inr (([], [store_1]), ([], 1 / 1024))
   \<and> generate_orders 0 [customer_1] [store_1] [employee_1] [product_1] 0 ([], 1 / 1024)
       = Inr (([], []), ([], 1 / 1024))
   \<and> generate_customer_addresses [] ([], 1 / 1024) = Inr ([], ([], 1 / 1024))
   \<and> (\<exists>orders g'.
         generate_orders 0 [customer_1] [store_1] [employee_1] [] 2 ([], 1 / 1024)
           = Inr ((orders, []), g')
         \<and> map ord_ORDER_ID orders = [1, 2]
         \<and> (\<forall>order\<in>set orders. ord_TOTAL_AMOUNT order = 0))
   \<and> generate_employees 0 [] 2 ([], 1 / 1024) = Inl IndexError
   \<and> generate_orders 0 [] [store_1] [employee_1] [product_1] 2 ([], 1 / 1024)
       = Inl IndexError
   \<and> generate_orders 0 [customer_1] [] [employee_1] [product_1] 2 ([], 1 / 1024)
       = Inl IndexError"
proof -
  have e: "\<forall>s\<in>set [store_1]. \<exists>e\<in>set [employee_1]. emp_STORE_ID e = store_STORE_ID s"
    by (simp add: store_1_def employee_1_def)
  have u: "[1..2::int] = [1, 2]" by (simp add: upto_rec1)
  note t = generators_on_empty_inputs[where n = 0 and m = 2 and today = 0
      and g = "([], 1 / 1024)" and stores = "[store_1]" and customers = "[customer_1]"
      and employees = "[employee_1]" and products = "[product_1]"]
  from t e show ?thesis unfolding u by simp
qed

end
